(* ===== verification/Prelude.thy ===== *)
theory Prelude
  imports
    Main
    "HOL-Library.Word"
    "HOL-Library.Signed_Division"
    "HOL-Library.Char_ord"
    "HOL-Library.List_Lexorder"
    "HOL-Library.Sublist"
    "HOL-Library.Finite_Map"
begin

text \<open>
  Shared base of the BIGT chain development: the names of the machine types, the error values of
  the whole program, Go's signed 64-bit arithmetic on \<^typ>\<open>64 word\<close>, decimal and big-endian
  encodings, and the generic lemmas on lists and maps that the component theories rest on.

  Go strings and byte slices are both byte sequences, so both are \<^typ>\<open>string\<close> (a list of
  8-bit characters) and the conversions between them are the identity. A Go \<open>int64\<close> is a
  \<^typ>\<open>64 word\<close>: addition, subtraction and multiplication wrap as in Go, comparisons are the
  signed ones (\<open><s\<close>, \<open>\<le>s\<close>) and division truncates towards zero (\<open>idiv\<close>).
\<close>

section \<open>Types and collections\<close>

type_synonym bytes = string
type_synonym int64 = "64 word"
type_synonym uint64 = "64 word"

named_theorems codec \<open>round trips of the JSON codecs\<close>
named_theorems wf_intros \<open>operations keep the well-formedness of the store\<close>
named_theorems op_simps \<open>what an operation does on a well-formed store\<close>
named_theorems run_eval \<open>definitions the simplifier unfolds to run the model on concrete inputs\<close>
named_theorems keys \<open>the store keys of the modules, unfolded\<close>

text \<open>Go error values. \<open>Errorf\<close> is \<open>fmt.Errorf\<close> with its format and its arguments; the
  errors of \<open>encoding/json\<close>, \<open>encoding/hex\<close> and of the database are opaque to the program
  and have one constructor each, and so has a run-time panic.\<close>

datatype error =
    ErrJSON
  | ErrHex
  | ErrDB
  | GoPanic string
  | Errorf string "earg list"
and earg = AStr string | AInt int64 | ALen nat | AErr error

text \<open>What a method of type \<open>error\<close> returns together with the store it leaves, and what a
  method of type \<open>(T, error)\<close> returns.\<close>

type_synonym 'db outcome = "error option \<times> 'db"
type_synonym ('db, 'a) outcome1 = "(error + 'a) \<times> 'db"

section \<open>Signed 64-bit arithmetic\<close>

definition idiv :: "int64 \<Rightarrow> int64 \<Rightarrow> int64" where
  "idiv a b = word_of_int (sint a sdiv sint b)"

definition imod :: "int64 \<Rightarrow> int64 \<Rightarrow> int64" where
  "imod a b = word_of_int (sint a smod sint b)"

lemma sint64_bounds: "- (2 ^ 63) \<le> sint (w :: int64)" "sint (w :: int64) < 2 ^ 63"
  using sint_ge [of w] sint_lt [of w] by simp_all

lemma sint64_of_int: "- (2 ^ 63) \<le> i \<Longrightarrow> i < 2 ^ 63 \<Longrightarrow> sint (word_of_int i :: int64) = i"
  by (simp add: signed_take_bit_int_eq_self sint_sbintrunc')

lemma sint64_add:
  "- (2 ^ 63) \<le> sint a + sint b \<Longrightarrow> sint a + sint b < 2 ^ 63 \<Longrightarrow>
   sint (a + b :: int64) = sint a + sint b"
  by (simp add: sint_word_ariths signed_take_bit_int_eq_self)

lemma sint64_sub:
  "- (2 ^ 63) \<le> sint a - sint b \<Longrightarrow> sint a - sint b < 2 ^ 63 \<Longrightarrow>
   sint (a - b :: int64) = sint a - sint b"
  by (simp add: sint_word_ariths signed_take_bit_int_eq_self)

lemma sint64_mul:
  "- (2 ^ 63) \<le> sint a * sint b \<Longrightarrow> sint a * sint b < 2 ^ 63 \<Longrightarrow>
   sint (a * b :: int64) = sint a * sint b"
  by (simp add: sint_word_ariths signed_take_bit_int_eq_self)

lemma sdiv_pos: "0 \<le> a \<Longrightarrow> 0 < b \<Longrightarrow> a sdiv b = a div (b :: int)"
  by (simp add: signed_divide_int_def sgn_if)

lemma sint64_idiv:
  assumes "0 \<le> sint a" "0 < sint b"
  shows "sint (idiv a b) = sint a div sint b"
proof -
  have "sint a div sint b \<le> sint a"
    using assms div_by_1 zdiv_mono2 [of "sint a" 1 "sint b"] by simp
  then have "sint a div sint b < 2 ^ 63"
    using sint64_bounds(2) [of a] by linarith
  moreover have "0 \<le> sint a div sint b"
    using assms by (simp add: pos_imp_zdiv_nonneg_iff)
  ultimately show ?thesis
    using assms by (simp add: idiv_def sdiv_pos sint64_of_int)
qed

lemma sint64_imod:
  assumes "0 \<le> sint a" "0 < sint b"
  shows "sint (imod a b) = sint a mod sint b"
proof -
  have "sint a mod sint b < 2 ^ 63"
    using assms sint64_bounds(2) [of b] pos_mod_bound [of "sint b" "sint a"] by linarith
  moreover have "- (2 ^ 63) \<le> sint a mod sint b"
    by (rule order_trans [OF _ pos_mod_sign [OF assms(2)]]) simp
  ultimately have "sint (word_of_int (sint a mod sint b) :: int64) = sint a mod sint b"
    by (rule sint64_of_int [rotated])
  then show ?thesis
    using assms by (simp add: imod_def smod_mod_positive)
qed

section \<open>Decimal and big-endian encodings\<close>

text \<open>\<open>fmt.Sprintf\<close> with \<open>%d\<close> and with \<open>%020d\<close> (zero padded to width 20, the sign counted).\<close>

definition digit :: "nat \<Rightarrow> char" where
  "digit d = char_of (48 + d)"

fun digits :: "nat \<Rightarrow> string" where
  "digits n = (if n < 10 then [digit n] else digits (n div 10) @ [digit (n mod 10)])"

declare digits.simps [simp del]

definition itoa :: "int64 \<Rightarrow> string" where
  "itoa w = (if sint w < 0 then ''-'' else []) @ digits (nat \<bar>sint w\<bar>)"

definition zdigits :: "nat \<Rightarrow> nat \<Rightarrow> string" where
  "zdigits k n = replicate (k - length (digits n)) (CHR ''0'') @ digits n"

definition pad20 :: "int64 \<Rightarrow> string" where
  "pad20 w =
    (if sint w < 0 then CHR ''-'' # zdigits 19 (nat (- sint w)) else zdigits 20 (nat (sint w)))"

definition digit_val :: "char \<Rightarrow> nat" where
  "digit_val c = of_char c - 48"

definition is_digit :: "char \<Rightarrow> bool" where
  "is_digit c \<longleftrightarrow> CHR ''0'' \<le> c \<and> c \<le> CHR ''9''"

definition undigits :: "string \<Rightarrow> nat" where
  "undigits = foldl (\<lambda>a c. 10 * a + digit_val c) 0"

lemma of_char_digit: "d < 10 \<Longrightarrow> of_char (digit d) = (48 + d :: nat)"
  by (simp add: digit_def)

lemma digit_val_digit [simp]: "d < 10 \<Longrightarrow> digit_val (digit d) = d"
  by (simp add: digit_val_def of_char_digit)

lemma undigits_snoc: "undigits (xs @ [c]) = 10 * undigits xs + digit_val c"
  by (simp add: undigits_def)

lemma undigits_digits [simp]: "undigits (digits n) = n"
proof (induction n rule: digits.induct)
  case (1 n)
  then show ?case
    by (subst digits.simps) (simp add: undigits_snoc, simp add: undigits_def)
qed

lemma undigits_zeros [simp]: "undigits (replicate k (CHR ''0'') @ xs) = undigits xs"
  by (induction k) (simp_all add: undigits_def digit_val_def)

lemma set_digits: "c \<in> set (digits n) \<Longrightarrow> \<exists>d < 10. c = digit d"
proof (induction n rule: digits.induct)
  case (1 n)
  show ?case
  proof (cases "n < 10")
    case True
    with "1.prems" show ?thesis by (subst (asm) digits.simps) auto
  next
    case False
    with "1.prems" have "c \<in> set (digits (n div 10)) \<or> c = digit (n mod 10)"
      by (subst (asm) digits.simps) auto
    with "1.IH" [OF False] show ?thesis
      by (metis mod_less_divisor zero_less_numeral)
  qed
qed

lemma digit_neq: "d < 10 \<Longrightarrow> of_char c < (48 :: nat) \<Longrightarrow> digit d \<noteq> c"
  using of_char_digit [of d] by fastforce

lemma digits_no_char: "of_char c < (48 :: nat) \<Longrightarrow> c \<notin> set (digits n)"
  by (metis digit_neq set_digits)

lemma zdigits_no_char: "of_char c < (48 :: nat) \<Longrightarrow> c \<notin> set (zdigits k n)"
  using digits_no_char [of c n] by (auto simp: zdigits_def)

lemma undigits_zdigits [simp]: "undigits (zdigits k n) = n"
  by (simp add: zdigits_def)

lemma pad20_no_slash: "CHR ''/'' \<notin> set (pad20 w)"
  by (simp add: pad20_def zdigits_no_char)

lemma zdigits_inject: "zdigits k m = zdigits k' n \<Longrightarrow> m = n"
  by (metis undigits_zdigits)

lemma zdigits_neq_minus: "zdigits k n \<noteq> CHR ''-'' # xs"
  using zdigits_no_char [of "CHR ''-''" k n] by auto

lemma pad20_inject [simp]: "pad20 a = pad20 b \<longleftrightarrow> a = b"
proof
  assume eq: "pad20 a = pad20 b"
  have "sint a = sint b"
  proof (cases "sint a < 0"; cases "sint b < 0")
    assume "sint a < 0" "sint b < 0"
    with eq show ?thesis by (auto simp: pad20_def dest!: zdigits_inject)
  next
    assume "\<not> sint a < 0" "\<not> sint b < 0"
    with eq show ?thesis by (auto simp: pad20_def dest!: zdigits_inject)
  qed (use eq zdigits_neq_minus in \<open>auto simp: pad20_def dest: sym\<close>)
  then show "a = b" by (rule signed_word_eqI)
qed simp

lemma append_sep_inject:
  "c \<notin> set xs \<Longrightarrow> c \<notin> set xs' \<Longrightarrow>
   xs @ c # ys = xs' @ c # ys' \<longleftrightarrow> xs = xs' \<and> ys = ys'"
proof (induction xs arbitrary: xs')
  case Nil
  then show ?case by (cases xs') auto
next
  case (Cons a xs)
  then show ?case by (cases xs') auto
qed

text \<open>\<open>binary.BigEndian.PutUint64\<close>.\<close>

definition be64 :: "64 word \<Rightarrow> bytes" where
  "be64 w = map (\<lambda>i. char_of (unat w div 256 ^ i)) [7, 6, 5, 4, 3, 2, 1, 0]"

definition be_val :: "bytes \<Rightarrow> nat" where
  "be_val = foldl (\<lambda>a c. 256 * a + of_char c) 0"

lemma length_be64 [simp]: "length (be64 w) = 8"
  by (simp add: be64_def)

lemma be_val_be64 [simp]: "be_val (be64 w) = unat w"
proof -
  have step: "256 * (n div (256 * m)) + n div m mod 256 = n div m" for n m :: nat
    by (metis add.commute div_mult2_eq mod_mult_div_eq mult.commute)
  have lt: "unat w div 72057594037927936 < 256"
    using unsigned_less [of w, where ?'a = nat] by (simp add: less_mult_imp_div_less)
  show ?thesis
    using lt step [of "unat w" 281474976710656] step [of "unat w" 1099511627776]
      step [of "unat w" 4294967296] step [of "unat w" 16777216] step [of "unat w" 65536]
      step [of "unat w" 256] step [of "unat w" 1]
    by (simp add: be64_def be_val_def)
qed

lemma be64_inject [simp]: "be64 a = be64 b \<longleftrightarrow> a = b"
  by (metis be_val_be64 word_unat_eq_iff)

lemma digits_eval:
  "n < 10 \<Longrightarrow> digits n = [digit n]"
  "\<not> n < 10 \<Longrightarrow> digits n = digits (n div 10) @ [digit (n mod 10)]"
  by (subst digits.simps, simp)+

lemmas [run_eval] = Let_def idiv_def imod_def word_sless_alt word_sle_eq pad20_def zdigits_def
  itoa_def digits_eval digit_def be64_def

section \<open>Lists\<close>

lemma sum_list_filter_split:
  fixes f :: "'a \<Rightarrow> 'b :: ab_group_add"
  shows "sum_list (map f (filter (\<lambda>x. \<not> P x) xs)) = sum_list (map f xs) - sum_list (map f (filter P xs))"
  by (induction xs) auto

end
