(* ===== verification/Json.thy ===== *)
theory Json
  imports Prelude
begin

text \<open>
  The part of Go's \<open>encoding/json\<close> and \<open>encoding/hex\<close> that the chain uses. A JSON text is
  represented by its syntax tree, so that printing and parsing the text itself is not modelled; the
  bytes handed to \<open>json.Unmarshal\<close> are a \<open>raw\<close> value, \<^const>\<open>None\<close> when they are not a JSON text.
  Decoding follows Go's rules: keys are matched exactly and then case-insensitively, unknown keys
  are skipped, a repeated key is decoded again into the same field, \<open>null\<close> leaves a scalar field
  as it is, a missing key leaves the zero value, and a value of the wrong kind is an error. Integers
  outside \<open>int64\<close> and literals with a fraction or an exponent are errors for an integer field.
  The second half is \<open>HexBytes\<close> of chain/types/types.go, whose methods replace the default codec.
\<close>

section \<open>JSON documents\<close>

datatype json =
    JNull
  | JBool bool
  | JInt int          \<comment> \<open>a number literal without fraction and exponent\<close>
  | JReal string      \<comment> \<open>any other number literal, as written\<close>
  | JStr string
  | JArr "json list"
  | JObj "(string \<times> json) list"

type_synonym raw = "json option"

text \<open>Field-name folding: ASCII letters to upper case, and the two other code points whose simple
  case folding is an ASCII letter (U+017F and U+212A, in UTF-8).\<close>

fun foldName :: "string \<Rightarrow> string" where
  "foldName [] = []"
| "foldName (c # cs) =
    (if CHR ''a'' \<le> c \<and> c \<le> CHR ''z'' then char_of (of_char c - 32 :: nat) # foldName cs
     else if c = CHR 0xC5 \<and> take 1 cs = [CHR 0xBF] then CHR ''S'' # foldName (drop 1 cs)
     else if c = CHR 0xE2 \<and> take 2 cs = [CHR 0x84, CHR 0xAA] then CHR ''K'' # foldName (drop 2 cs)
     else c # foldName cs)"

type_synonym 'a setter = "json \<Rightarrow> 'a \<Rightarrow> 'a option"
type_synonym 'a fields = "(string \<times> 'a setter) list"

definition find_field :: "'a fields \<Rightarrow> string \<Rightarrow> 'a setter option" where
  "find_field tab k =
    (case map_of tab k of
       Some f \<Rightarrow> Some f
     | None \<Rightarrow> map_of (map (\<lambda>(n, f). (foldName n, f)) tab) (foldName k))"

fun dec_fields :: "'a fields \<Rightarrow> (string \<times> json) list \<Rightarrow> 'a \<Rightarrow> 'a option" where
  "dec_fields tab [] x = Some x"
| "dec_fields tab ((k, j) # kvs) x =
    (case find_field tab k of
       None \<Rightarrow> dec_fields tab kvs x
     | Some f \<Rightarrow> (case f j x of None \<Rightarrow> None | Some x' \<Rightarrow> dec_fields tab kvs x'))"

definition dec_struct :: "'a fields \<Rightarrow> 'a setter" where
  "dec_struct tab j x =
    (case j of JObj kvs \<Rightarrow> dec_fields tab kvs x | JNull \<Rightarrow> Some x | _ \<Rightarrow> None)"

text \<open>A field of a struct: how its value is decoded, read and written.\<close>

definition fld :: "'b setter \<Rightarrow> ('a \<Rightarrow> 'b) \<Rightarrow> (('b \<Rightarrow> 'b) \<Rightarrow> 'a \<Rightarrow> 'a) \<Rightarrow> 'a setter" where
  "fld dec get upd = (\<lambda>j r. map_option (\<lambda>x. upd (\<lambda>_. x) r) (dec j (get r)))"

text \<open>\<open>json.Unmarshal\<close> into a zero value.\<close>

definition unmarshal :: "'a fields \<Rightarrow> 'a \<Rightarrow> raw \<Rightarrow> 'a option" where
  "unmarshal tab zero r = (case r of None \<Rightarrow> None | Some j \<Rightarrow> dec_struct tab j zero)"

section \<open>Scalars, slices, maps and pointers\<close>

definition dec_string :: "string setter" where
  "dec_string j old = (case j of JStr s \<Rightarrow> Some s | JNull \<Rightarrow> Some old | _ \<Rightarrow> None)"

definition dec_bool :: "bool setter" where
  "dec_bool j old = (case j of JBool b \<Rightarrow> Some b | JNull \<Rightarrow> Some old | _ \<Rightarrow> None)"

definition dec_int64 :: "int64 setter" where
  "dec_int64 j old =
    (case j of
       JInt i \<Rightarrow> if - (2 ^ 63) \<le> i \<and> i < 2 ^ 63 then Some (word_of_int i) else None
     | JNull \<Rightarrow> Some old
     | _ \<Rightarrow> None)"

definition enc_int64 :: "int64 \<Rightarrow> json" where
  "enc_int64 w = JInt (sint w)"

text \<open>A \<open>float64\<close> is kept as the literal it was written with: the chain only stores the one
  floating-point field it has (\<open>Temperature\<close>) and never computes with it.\<close>

datatype float64 = FInt int | FReal string

definition dec_float64 :: "float64 setter" where
  "dec_float64 j old =
    (case j of JInt i \<Rightarrow> Some (FInt i) | JReal s \<Rightarrow> Some (FReal s) | JNull \<Rightarrow> Some old | _ \<Rightarrow> None)"

fun enc_float64 :: "float64 \<Rightarrow> json" where
  "enc_float64 (FInt i) = JInt i"
| "enc_float64 (FReal s) = JReal s"

text \<open>A slice of strings; \<open>null\<close> is the nil slice, and nil is printed as \<open>null\<close>.\<close>

fun dec_elems :: "'a setter \<Rightarrow> 'a \<Rightarrow> json list \<Rightarrow> 'a list option" where
  "dec_elems dec zero [] = Some []"
| "dec_elems dec zero (j # js) =
    (case dec j zero of None \<Rightarrow> None
     | Some x \<Rightarrow> map_option (\<lambda>xs. x # xs) (dec_elems dec zero js))"

definition dec_slice :: "'a setter \<Rightarrow> 'a \<Rightarrow> 'a list setter" where
  "dec_slice dec zero j old =
    (case j of JArr js \<Rightarrow> dec_elems dec zero js | JNull \<Rightarrow> Some [] | _ \<Rightarrow> None)"

definition enc_slice :: "('a \<Rightarrow> json) \<Rightarrow> 'a list \<Rightarrow> json" where
  "enc_slice enc xs = (if xs = [] then JNull else JArr (map enc xs))"

text \<open>A \<open>map[string]bool\<close>; \<^const>\<open>None\<close> is the nil map. Entries are printed in key order.\<close>

type_synonym bool_map = "(string, bool) fmap option"

fun dec_entries :: "(string \<times> json) list \<Rightarrow> (string, bool) fmap \<Rightarrow> (string, bool) fmap option" where
  "dec_entries [] m = Some m"
| "dec_entries ((k, j) # kvs) m =
    (case dec_bool j False of None \<Rightarrow> None | Some b \<Rightarrow> dec_entries kvs (fmupd k b m))"

definition dec_bool_map :: "bool_map setter" where
  "dec_bool_map j old =
    (case j of
       JObj kvs \<Rightarrow>
         map_option Some (dec_entries kvs (case old of None \<Rightarrow> fmempty | Some m \<Rightarrow> m))
     | JNull \<Rightarrow> Some None
     | _ \<Rightarrow> None)"

definition enc_bool_map :: "bool_map \<Rightarrow> json" where
  "enc_bool_map m =
    (case m of None \<Rightarrow> JNull
     | Some f \<Rightarrow> JObj (map (\<lambda>(k, b). (k, JBool b)) (sorted_list_of_fmap f)))"

text \<open>A pointer to a struct.\<close>

definition dec_ptr :: "'a fields \<Rightarrow> 'a \<Rightarrow> 'a option setter" where
  "dec_ptr tab zero j old =
    (if j = JNull then Some None
     else map_option Some (dec_struct tab j (case old of None \<Rightarrow> zero | Some x \<Rightarrow> x)))"

definition enc_ptr :: "('a \<Rightarrow> json) \<Rightarrow> 'a option \<Rightarrow> json" where
  "enc_ptr enc x = (case x of None \<Rightarrow> JNull | Some v \<Rightarrow> enc v)"

section \<open>Hexadecimal byte strings\<close>

definition hex_digit :: "nat \<Rightarrow> char" where
  "hex_digit n = (if n < 10 then char_of (48 + n) else char_of (87 + n))"

fun hex_EncodeToString :: "bytes \<Rightarrow> string" where
  "hex_EncodeToString [] = []"
| "hex_EncodeToString (c # cs) =
    hex_digit (of_char c div 16) # hex_digit (of_char c mod 16) # hex_EncodeToString cs"

definition fromHexChar :: "char \<Rightarrow> nat option" where
  "fromHexChar c =
    (if CHR ''0'' \<le> c \<and> c \<le> CHR ''9'' then Some (of_char c - 48)
     else if CHR ''a'' \<le> c \<and> c \<le> CHR ''f'' then Some (of_char c - 87)
     else if CHR ''A'' \<le> c \<and> c \<le> CHR ''F'' then Some (of_char c - 55)
     else None)"

fun hex_DecodeString :: "string \<Rightarrow> bytes option" where
  "hex_DecodeString [] = Some []"
| "hex_DecodeString [c] = None"
| "hex_DecodeString (a # b # cs) =
    (case (fromHexChar a, fromHexChar b) of
       (Some x, Some y) \<Rightarrow> map_option (\<lambda>r. char_of (16 * x + y) # r) (hex_DecodeString cs)
     | _ \<Rightarrow> None)"

text \<open>\<open>HexBytes.MarshalJSON\<close>, \<open>HexBytes.UnmarshalJSON\<close> and \<open>HexBytes.String\<close>.\<close>

definition HexBytes_MarshalJSON :: "bytes \<Rightarrow> json" where
  "HexBytes_MarshalJSON h = JStr (''0x'' @ hex_EncodeToString h)"

definition HexBytes_UnmarshalJSON :: "bytes setter" where
  "HexBytes_UnmarshalJSON j h =
    (case dec_string j [] of
       None \<Rightarrow> None
     | Some s \<Rightarrow>
         let s = (if 2 \<le> length s \<and> take 2 s = ''0x'' then drop 2 s else s)
         in hex_DecodeString s)"

definition HexBytes_String :: "bytes \<Rightarrow> string" where
  "HexBytes_String h = ''0x'' @ hex_EncodeToString h"

section \<open>Round trips\<close>

lemma dec_string_JStr [simp]: "dec_string (JStr s) old = Some s"
  by (simp add: dec_string_def)

lemma dec_bool_JBool [simp]: "dec_bool (JBool b) old = Some b"
  by (simp add: dec_bool_def)

lemma dec_enc_int64 [simp]: "dec_int64 (enc_int64 w) old = Some w"
  using sint64_bounds [of w] by (simp add: dec_int64_def enc_int64_def)

lemma dec_enc_float64 [simp]: "dec_float64 (enc_float64 x) old = Some x"
  by (cases x) (simp_all add: dec_float64_def)

lemma dec_elems_map: "(\<And>x. dec (enc x) zero = Some x) \<Longrightarrow> dec_elems dec zero (map enc xs) = Some xs"
  by (induction xs) simp_all

lemma dec_enc_slice: "(\<And>x. dec (enc x) zero = Some x) \<Longrightarrow> dec_slice dec zero (enc_slice enc xs) old = Some xs"
  by (simp add: dec_slice_def enc_slice_def dec_elems_map)

lemma dec_enc_strings [simp]: "dec_slice dec_string z (enc_slice JStr xs) old = Some xs"
  by (simp add: dec_enc_slice)

lemma dec_entries_list:
  "dec_entries (map (\<lambda>(k, b). (k, JBool b)) xs) m = Some (foldl (\<lambda>m (k, b). fmupd k b m) m xs)"
  by (induction xs arbitrary: m) auto

lemma fmlookup_foldl_fmupd:
  "distinct (map fst xs) \<Longrightarrow>
   fmlookup (foldl (\<lambda>m (k, b). fmupd k b m) m xs) k =
     (case map_of xs k of None \<Rightarrow> fmlookup m k | Some b \<Rightarrow> Some b)"
proof (induction xs arbitrary: m)
  case (Cons x xs)
  obtain a b where x: "x = (a, b)" by force
  with Cons.prems have "map_of xs a = None" by (simp add: map_of_eq_None_iff)
  with Cons x show ?case by (cases "k = a") (simp_all split: option.split)
qed simp

lemma foldl_fmupd_sorted_list_of_fmap:
  "foldl (\<lambda>m (k, b). fmupd k b m) fmempty (sorted_list_of_fmap f) = f"
proof (rule fmap_ext)
  fix k
  have "distinct (map fst (sorted_list_of_fmap f))"
    by (simp add: sorted_list_of_fmap_def comp_def sorted_list_of_fset.rep_eq)
  then show "fmlookup (foldl (\<lambda>m (k, b). fmupd k b m) fmempty (sorted_list_of_fmap f)) k = fmlookup f k"
    by (simp add: fmlookup_foldl_fmupd split: option.split)
qed

lemma dec_enc_bool_map [simp]: "dec_bool_map (enc_bool_map m) None = Some m"
  by (cases m)
    (simp_all add: dec_bool_map_def enc_bool_map_def dec_entries_list foldl_fmupd_sorted_list_of_fmap)

lemma dec_enc_ptr:
  "(\<And>x. enc x \<noteq> JNull) \<Longrightarrow> (\<And>x. dec_struct tab (enc x) zero = Some x) \<Longrightarrow>
   dec_ptr tab zero (enc_ptr enc p) None = Some p"
  by (cases p) (auto simp: dec_ptr_def enc_ptr_def)

lemma fromHexChar_hex_digit: "n < 16 \<Longrightarrow> fromHexChar (hex_digit n) = Some n"
  by (auto simp: fromHexChar_def hex_digit_def less_eq_char_def)

lemma hex_roundtrip [simp]: "hex_DecodeString (hex_EncodeToString bs) = Some bs"
proof (induction bs)
  case (Cons c bs)
  have "of_char c < (256 :: nat)" by simp
  then have "of_char c div 16 < (16 :: nat)"
    using less_mult_imp_div_less [of "of_char c :: nat" 16 16] by simp
  then show ?case
    using Cons by (simp add: fromHexChar_hex_digit)
qed simp

lemma HexBytes_roundtrip [simp]: "HexBytes_UnmarshalJSON (HexBytes_MarshalJSON h) old = Some h"
  by (simp add: HexBytes_MarshalJSON_def HexBytes_UnmarshalJSON_def)

lemma dec_struct_JObj: "dec_struct tab (JObj kvs) x = dec_fields tab kvs x"
  by (simp add: dec_struct_def)

lemmas codec_defs = dec_struct_JObj find_field_def fld_def

end
