(* ===== verification/Types.thy ===== *)
theory Types
  imports Json
begin

text \<open>
  chain/types/types.go: the protocol constants, the transaction payloads and the account records
  with their JSON codecs, the check of a reveal against its commitment, and the phase of a slot.
  Field names carry a short prefix for their struct. The hash function is a parameter
  (golang.org/x/crypto/sha3 is not part of the repository): \<open>Keccak256 keccak\<close> feeds the parts to it
  one after the other.
\<close>

section \<open>Constants\<close>

definition MinStake :: int64 where "MinStake = 5000000000"
definition MaxValidatorPct :: int64 where "MaxValidatorPct = 5"
definition SlotSeconds :: int64 where "SlotSeconds = 6"
definition EpochSlots :: int64 where "EpochSlots = 14400"
definition DisputeWindow :: int64 where "DisputeWindow = 7"
definition VoteWindow :: int64 where "VoteWindow = 3"
definition CommitDeadline :: int64 where "CommitDeadline = 4"
definition SlashMismatch :: int64 where "SlashMismatch = 1000"
definition SlashMalicious :: int64 where "SlashMalicious = 10000"
definition ServersPerJob :: int where "ServersPerJob = 1"
definition BFTCommitteeSize :: int where "BFTCommitteeSize = 128"
definition InactivityThresholdEpochs :: int64 where "InactivityThresholdEpochs = 4"
definition UnbondingSlots :: int64 where
  "UnbondingSlots = idiv (21 * 24 * EpochSlots) EpochSlots * EpochSlots"
definition RewardServingBPS :: int64 where "RewardServingBPS = 5000"
definition RewardObserverBPS :: int64 where "RewardObserverBPS = 3000"
definition RewardDelegatorBPS :: int64 where "RewardDelegatorBPS = 1500"
definition RewardBountyBPS :: int64 where "RewardBountyBPS = 500"
definition DisputeVoteThresholdBPS :: int64 where "DisputeVoteThresholdBPS = 6667"
definition SubscriptionBasicMonthly :: int64 where "SubscriptionBasicMonthly = 10000000"
definition SubscriptionProMonthly :: int64 where "SubscriptionProMonthly = 50000000"
definition SubscriptionEnterpriseMonthly :: int64 where "SubscriptionEnterpriseMonthly = 200000000"
definition SubscriptionBasicJobs :: int64 where "SubscriptionBasicJobs = 100"
definition SubscriptionProJobs :: int64 where "SubscriptionProJobs = 1000"
definition SubscriptionEnterpriseJobs :: int64 where "SubscriptionEnterpriseJobs = 0"
definition SubscriptionDurationSlots :: int64 where "SubscriptionDurationSlots = EpochSlots * 30"

lemmas constant_defs =
  MinStake_def MaxValidatorPct_def EpochSlots_def DisputeWindow_def VoteWindow_def SlashMismatch_def
  SlashMalicious_def InactivityThresholdEpochs_def RewardServingBPS_def RewardObserverBPS_def
  RewardDelegatorBPS_def RewardBountyBPS_def DisputeVoteThresholdBPS_def
  SubscriptionBasicMonthly_def SubscriptionProMonthly_def SubscriptionEnterpriseMonthly_def
  SubscriptionBasicJobs_def SubscriptionProJobs_def SubscriptionEnterpriseJobs_def
  SubscriptionDurationSlots_def

section \<open>Hashing\<close>

type_synonym hash_fn = "bytes \<Rightarrow> bytes"

fun keccak_write :: "bytes \<Rightarrow> bytes list \<Rightarrow> bytes" where
  "keccak_write buf [] = buf"
| "keccak_write buf (d # ds) = keccak_write (buf @ d) ds"

definition Keccak256 :: "hash_fn \<Rightarrow> bytes list \<Rightarrow> bytes" where
  "Keccak256 keccak parts = keccak (keccak_write [] parts)"

lemma keccak_write_concat: "keccak_write buf ds = buf @ concat ds"
  by (induction ds arbitrary: buf) simp_all

lemma Keccak256_concat: "Keccak256 keccak parts = keccak (concat parts)"
  by (simp add: Keccak256_def keccak_write_concat)

text \<open>What the chain relies on from the hash: a digest has 32 bytes.\<close>

definition hash32 :: "hash_fn \<Rightarrow> bool" where
  "hash32 keccak \<longleftrightarrow> (\<forall>m. length (keccak m) = 32)"

lemma hash32D: "hash32 keccak \<Longrightarrow> length (keccak m) = 32"
  by (simp add: hash32_def)

text \<open>A function with 32-byte values that takes the place of the hash in the witnesses.\<close>

definition pad_hash :: hash_fn where
  "pad_hash m = take 32 (m @ replicate 32 (CHR 0x00))"

lemma length_pad_hash [simp]: "length (pad_hash m) = 32"
  by (simp add: pad_hash_def)

lemma hash32_pad_hash: "hash32 pad_hash"
  by (simp add: hash32_def)

section \<open>Job types\<close>

record JobParams =
  p_Temperature :: float64
  p_MaxTokens :: int64

record JobRequest =
  jr_JobID :: string
  jr_ModelID :: string
  jr_PromptHash :: bytes
  jr_UserAddr :: string
  jr_Params :: JobParams

record RevealTx =
  rv_JobID :: string
  rv_Prompt :: string
  rv_Nonce :: string

record OutputCommitment =
  oc_JobID :: string
  oc_ValidatorAddr :: string
  oc_OutputHash :: bytes
  oc_Slot :: int64
  oc_Signature :: bytes

record DisputeTx =
  dt_JobID :: string
  dt_ValidatorAddr :: string
  dt_PlaintextOutput :: string

record ObserverDisputeTx =
  od_JobID :: string
  od_ObserverAddr :: string
  od_ObserverOutputHash :: bytes
  od_Signature :: bytes

record DisputeVoteTx =
  dv_JobID :: string
  dv_VoterAddr :: string
  dv_Vote :: string
  dv_Signature :: bytes

record ProtocolAttestation =
  pa_Epoch :: int64
  pa_ObserverAddr :: string
  pa_JobsObserved :: int64
  pa_JobsVerified :: int64
  pa_Signature :: bytes

text \<open>\<open>RevealTx.Validate\<close>: every byte of the digest is compared with the byte of the commitment
  at the same index; a commitment that is too short fails.\<close>

fun reveal_loop :: "nat \<Rightarrow> bytes \<Rightarrow> bytes \<Rightarrow> error option" where
  "reveal_loop i [] committed = None"
| "reveal_loop i (b # h) committed =
    (if length committed \<le> i \<or> b \<noteq> committed ! i
     then Some (Errorf ''reveal does not match commitment'' [])
     else reveal_loop (Suc i) h committed)"

definition RevealTx_Validate :: "hash_fn \<Rightarrow> RevealTx \<Rightarrow> bytes \<Rightarrow> error option" where
  "RevealTx_Validate keccak r committed =
    reveal_loop 0 (Keccak256 keccak [rv_Prompt r, rv_Nonce r]) committed"

section \<open>Accounts and subscriptions\<close>

record Account =
  a_Address :: string
  a_Balance :: int64
  a_Nonce :: int64

type_synonym SubscriptionPlan = string

definition PlanBasic :: SubscriptionPlan where "PlanBasic = ''basic''"
definition PlanPro :: SubscriptionPlan where "PlanPro = ''pro''"
definition PlanEnterprise :: SubscriptionPlan where "PlanEnterprise = ''enterprise''"

record Subscription =
  s_UserAddr :: string
  s_Plan :: SubscriptionPlan
  s_StartSlot :: int64
  s_ExpiresSlot :: int64
  s_JobsUsed :: int64
  s_JobsLimit :: int64
  s_PaidAmount :: int64
  s_AutoRenew :: bool

record DepositTx =
  dp_UserAddr :: string
  dp_Amount :: int64

record SubscribeTx =
  sx_UserAddr :: string
  sx_Plan :: SubscriptionPlan
  sx_AutoRenew :: bool

record CancelSubscriptionTx =
  cx_UserAddr :: string

record JustificationTx =
  jx_JobID :: string
  jx_ValidatorAddr :: string
  jx_Reason :: string
  jx_Evidence :: bytes

section \<open>Transaction envelope and slot phase\<close>

type_synonym TxType = string

definition TxJobRequest :: TxType where "TxJobRequest = ''job_request''"
definition TxReveal :: TxType where "TxReveal = ''reveal''"
definition TxCommitment :: TxType where "TxCommitment = ''commitment''"
definition TxDispute :: TxType where "TxDispute = ''dispute''"
definition TxObserverDispute :: TxType where "TxObserverDispute = ''observer_dispute''"
definition TxDisputeVote :: TxType where "TxDisputeVote = ''dispute_vote''"
definition TxJustification :: TxType where "TxJustification = ''justification''"
definition TxProtocolAttestation :: TxType where "TxProtocolAttestation = ''protocol_attestation''"
definition TxRegValidator :: TxType where "TxRegValidator = ''register_validator''"
definition TxDelegate :: TxType where "TxDelegate = ''delegate''"
definition TxUndelegate :: TxType where "TxUndelegate = ''undelegate''"
definition TxUnjail :: TxType where "TxUnjail = ''unjail''"
definition TxProposeModel :: TxType where "TxProposeModel = ''propose_model''"
definition TxApproveModel :: TxType where "TxApproveModel = ''approve_model''"
definition TxDeposit :: TxType where "TxDeposit = ''deposit''"
definition TxSubscribe :: TxType where "TxSubscribe = ''subscribe''"
definition TxCancelSubscription :: TxType where "TxCancelSubscription = ''cancel_subscription''"

lemmas tx_types = TxJobRequest_def TxReveal_def TxCommitment_def TxDispute_def TxObserverDispute_def
  TxDisputeVote_def TxJustification_def TxProtocolAttestation_def TxRegValidator_def TxDelegate_def
  TxUndelegate_def TxUnjail_def TxProposeModel_def TxApproveModel_def TxDeposit_def TxSubscribe_def
  TxCancelSubscription_def

record Tx =
  tx_Type :: TxType
  tx_Payload :: raw
  tx_Sender :: string

definition SlotPhase :: "int64 \<Rightarrow> nat" where
  "SlotPhase offsetSeconds =
    (if offsetSeconds <s 1 then 1 else if offsetSeconds <s 4 then 2 else 3)"

section \<open>JSON codecs of the payloads and records\<close>

text \<open>The field tables follow the struct tags. Only the structs that the chain stores have an
  encoder; for them decoding the encoding gives the value back.\<close>

definition zero_JobParams :: JobParams where
  "zero_JobParams = \<lparr>p_Temperature = FInt 0, p_MaxTokens = 0\<rparr>"

definition JobParams_fields :: "JobParams fields" where
  "JobParams_fields =
    [(''temperature'', fld dec_float64 p_Temperature p_Temperature_update),
     (''max_tokens'', fld dec_int64 p_MaxTokens p_MaxTokens_update)]"

definition enc_JobParams :: "JobParams \<Rightarrow> json" where
  "enc_JobParams x = JObj
    [(''temperature'', enc_float64 (p_Temperature x)),
     (''max_tokens'', enc_int64 (p_MaxTokens x))]"

lemma enc_JobParams_not_null [simp]: "enc_JobParams x \<noteq> JNull"
  by (simp add: enc_JobParams_def)

lemma JobParams_roundtrip [simp, codec]: "dec_struct JobParams_fields (enc_JobParams x) zero_JobParams = Some x"
  by (simp add: codec_defs JobParams_fields_def enc_JobParams_def zero_JobParams_def)

definition zero_JobRequest :: JobRequest where
  "zero_JobRequest = \<lparr>jr_JobID = [], jr_ModelID = [], jr_PromptHash = [], jr_UserAddr = [],
    jr_Params = zero_JobParams\<rparr>"

definition JobRequest_fields :: "JobRequest fields" where
  "JobRequest_fields =
    [(''job_id'', fld dec_string jr_JobID jr_JobID_update),
     (''model_id'', fld dec_string jr_ModelID jr_ModelID_update),
     (''prompt_hash'', fld HexBytes_UnmarshalJSON jr_PromptHash jr_PromptHash_update),
     (''user_addr'', fld dec_string jr_UserAddr jr_UserAddr_update),
     (''params'', fld (dec_struct JobParams_fields) jr_Params jr_Params_update)]"

definition zero_RevealTx :: RevealTx where
  "zero_RevealTx = \<lparr>rv_JobID = [], rv_Prompt = [], rv_Nonce = []\<rparr>"

definition RevealTx_fields :: "RevealTx fields" where
  "RevealTx_fields =
    [(''job_id'', fld dec_string rv_JobID rv_JobID_update),
     (''prompt'', fld dec_string rv_Prompt rv_Prompt_update),
     (''nonce'', fld dec_string rv_Nonce rv_Nonce_update)]"

definition zero_OutputCommitment :: OutputCommitment where
  "zero_OutputCommitment = \<lparr>oc_JobID = [], oc_ValidatorAddr = [], oc_OutputHash = [], oc_Slot = 0,
    oc_Signature = []\<rparr>"

definition OutputCommitment_fields :: "OutputCommitment fields" where
  "OutputCommitment_fields =
    [(''job_id'', fld dec_string oc_JobID oc_JobID_update),
     (''validator_addr'', fld dec_string oc_ValidatorAddr oc_ValidatorAddr_update),
     (''output_hash'', fld HexBytes_UnmarshalJSON oc_OutputHash oc_OutputHash_update),
     (''slot'', fld dec_int64 oc_Slot oc_Slot_update),
     (''signature'', fld HexBytes_UnmarshalJSON oc_Signature oc_Signature_update)]"

definition enc_OutputCommitment :: "OutputCommitment \<Rightarrow> json" where
  "enc_OutputCommitment x = JObj
    [(''job_id'', JStr (oc_JobID x)),
     (''validator_addr'', JStr (oc_ValidatorAddr x)),
     (''output_hash'', HexBytes_MarshalJSON (oc_OutputHash x)),
     (''slot'', enc_int64 (oc_Slot x)),
     (''signature'', HexBytes_MarshalJSON (oc_Signature x))]"

lemma enc_OutputCommitment_not_null [simp]: "enc_OutputCommitment x \<noteq> JNull"
  by (simp add: enc_OutputCommitment_def)

lemma OutputCommitment_roundtrip [simp, codec]: "dec_struct OutputCommitment_fields (enc_OutputCommitment x) zero_OutputCommitment = Some x"
  by (simp add: codec_defs OutputCommitment_fields_def enc_OutputCommitment_def zero_OutputCommitment_def)

definition zero_DisputeTx :: DisputeTx where
  "zero_DisputeTx = \<lparr>dt_JobID = [], dt_ValidatorAddr = [], dt_PlaintextOutput = []\<rparr>"

definition DisputeTx_fields :: "DisputeTx fields" where
  "DisputeTx_fields =
    [(''job_id'', fld dec_string dt_JobID dt_JobID_update),
     (''validator_addr'', fld dec_string dt_ValidatorAddr dt_ValidatorAddr_update),
     (''plaintext_output'', fld dec_string dt_PlaintextOutput dt_PlaintextOutput_update)]"

definition zero_ObserverDisputeTx :: ObserverDisputeTx where
  "zero_ObserverDisputeTx = \<lparr>od_JobID = [], od_ObserverAddr = [], od_ObserverOutputHash = [], od_Signature = []\<rparr>"

definition ObserverDisputeTx_fields :: "ObserverDisputeTx fields" where
  "ObserverDisputeTx_fields =
    [(''job_id'', fld dec_string od_JobID od_JobID_update),
     (''observer_addr'', fld dec_string od_ObserverAddr od_ObserverAddr_update),
     (''observer_output_hash'', fld HexBytes_UnmarshalJSON od_ObserverOutputHash od_ObserverOutputHash_update),
     (''signature'', fld HexBytes_UnmarshalJSON od_Signature od_Signature_update)]"

definition zero_DisputeVoteTx :: DisputeVoteTx where
  "zero_DisputeVoteTx = \<lparr>dv_JobID = [], dv_VoterAddr = [], dv_Vote = [], dv_Signature = []\<rparr>"

definition DisputeVoteTx_fields :: "DisputeVoteTx fields" where
  "DisputeVoteTx_fields =
    [(''job_id'', fld dec_string dv_JobID dv_JobID_update),
     (''voter_addr'', fld dec_string dv_VoterAddr dv_VoterAddr_update),
     (''vote'', fld dec_string dv_Vote dv_Vote_update),
     (''signature'', fld HexBytes_UnmarshalJSON dv_Signature dv_Signature_update)]"

definition zero_ProtocolAttestation :: ProtocolAttestation where
  "zero_ProtocolAttestation = \<lparr>pa_Epoch = 0, pa_ObserverAddr = [], pa_JobsObserved = 0, pa_JobsVerified = 0,
    pa_Signature = []\<rparr>"

definition ProtocolAttestation_fields :: "ProtocolAttestation fields" where
  "ProtocolAttestation_fields =
    [(''epoch'', fld dec_int64 pa_Epoch pa_Epoch_update),
     (''observer_addr'', fld dec_string pa_ObserverAddr pa_ObserverAddr_update),
     (''jobs_observed'', fld dec_int64 pa_JobsObserved pa_JobsObserved_update),
     (''jobs_verified'', fld dec_int64 pa_JobsVerified pa_JobsVerified_update),
     (''signature'', fld HexBytes_UnmarshalJSON pa_Signature pa_Signature_update)]"

definition zero_Account :: Account where
  "zero_Account = \<lparr>a_Address = [], a_Balance = 0, a_Nonce = 0\<rparr>"

definition Account_fields :: "Account fields" where
  "Account_fields =
    [(''address'', fld dec_string a_Address a_Address_update),
     (''balance'', fld dec_int64 a_Balance a_Balance_update),
     (''nonce'', fld dec_int64 a_Nonce a_Nonce_update)]"

definition enc_Account :: "Account \<Rightarrow> json" where
  "enc_Account x = JObj
    [(''address'', JStr (a_Address x)),
     (''balance'', enc_int64 (a_Balance x)),
     (''nonce'', enc_int64 (a_Nonce x))]"

lemma enc_Account_not_null [simp]: "enc_Account x \<noteq> JNull"
  by (simp add: enc_Account_def)

lemma Account_roundtrip [simp, codec]: "dec_struct Account_fields (enc_Account x) zero_Account = Some x"
  by (simp add: codec_defs Account_fields_def enc_Account_def zero_Account_def)

definition zero_Subscription :: Subscription where
  "zero_Subscription = \<lparr>s_UserAddr = [], s_Plan = [], s_StartSlot = 0, s_ExpiresSlot = 0,
    s_JobsUsed = 0, s_JobsLimit = 0, s_PaidAmount = 0, s_AutoRenew = False\<rparr>"

definition Subscription_fields :: "Subscription fields" where
  "Subscription_fields =
    [(''user_addr'', fld dec_string s_UserAddr s_UserAddr_update),
     (''plan'', fld dec_string s_Plan s_Plan_update),
     (''start_slot'', fld dec_int64 s_StartSlot s_StartSlot_update),
     (''expires_slot'', fld dec_int64 s_ExpiresSlot s_ExpiresSlot_update),
     (''jobs_used'', fld dec_int64 s_JobsUsed s_JobsUsed_update),
     (''jobs_limit'', fld dec_int64 s_JobsLimit s_JobsLimit_update),
     (''paid_amount'', fld dec_int64 s_PaidAmount s_PaidAmount_update),
     (''auto_renew'', fld dec_bool s_AutoRenew s_AutoRenew_update)]"

definition enc_Subscription :: "Subscription \<Rightarrow> json" where
  "enc_Subscription x = JObj
    [(''user_addr'', JStr (s_UserAddr x)),
     (''plan'', JStr (s_Plan x)),
     (''start_slot'', enc_int64 (s_StartSlot x)),
     (''expires_slot'', enc_int64 (s_ExpiresSlot x)),
     (''jobs_used'', enc_int64 (s_JobsUsed x)),
     (''jobs_limit'', enc_int64 (s_JobsLimit x)),
     (''paid_amount'', enc_int64 (s_PaidAmount x)),
     (''auto_renew'', JBool (s_AutoRenew x))]"

lemma enc_Subscription_not_null [simp]: "enc_Subscription x \<noteq> JNull"
  by (simp add: enc_Subscription_def)

lemma Subscription_roundtrip [simp, codec]: "dec_struct Subscription_fields (enc_Subscription x) zero_Subscription = Some x"
  by (simp add: codec_defs Subscription_fields_def enc_Subscription_def zero_Subscription_def)

definition zero_DepositTx :: DepositTx where
  "zero_DepositTx = \<lparr>dp_UserAddr = [], dp_Amount = 0\<rparr>"

definition DepositTx_fields :: "DepositTx fields" where
  "DepositTx_fields =
    [(''user_addr'', fld dec_string dp_UserAddr dp_UserAddr_update),
     (''amount'', fld dec_int64 dp_Amount dp_Amount_update)]"

definition zero_SubscribeTx :: SubscribeTx where
  "zero_SubscribeTx = \<lparr>sx_UserAddr = [], sx_Plan = [], sx_AutoRenew = False\<rparr>"

definition SubscribeTx_fields :: "SubscribeTx fields" where
  "SubscribeTx_fields =
    [(''user_addr'', fld dec_string sx_UserAddr sx_UserAddr_update),
     (''plan'', fld dec_string sx_Plan sx_Plan_update),
     (''auto_renew'', fld dec_bool sx_AutoRenew sx_AutoRenew_update)]"

definition zero_CancelSubscriptionTx :: CancelSubscriptionTx where
  "zero_CancelSubscriptionTx = \<lparr>cx_UserAddr = []\<rparr>"

definition CancelSubscriptionTx_fields :: "CancelSubscriptionTx fields" where
  "CancelSubscriptionTx_fields =
    [(''user_addr'', fld dec_string cx_UserAddr cx_UserAddr_update)]"

definition zero_JustificationTx :: JustificationTx where
  "zero_JustificationTx = \<lparr>jx_JobID = [], jx_ValidatorAddr = [], jx_Reason = [], jx_Evidence = []\<rparr>"

definition JustificationTx_fields :: "JustificationTx fields" where
  "JustificationTx_fields =
    [(''job_id'', fld dec_string jx_JobID jx_JobID_update),
     (''validator_addr'', fld dec_string jx_ValidatorAddr jx_ValidatorAddr_update),
     (''reason'', fld dec_string jx_Reason jx_Reason_update),
     (''evidence'', fld HexBytes_UnmarshalJSON jx_Evidence jx_Evidence_update)]"

definition zero_Tx :: Tx where
  "zero_Tx = \<lparr>tx_Type = [], tx_Payload = None, tx_Sender = []\<rparr>"

text \<open>The payload is a \<open>json.RawMessage\<close>: any JSON value is kept as it is, \<open>null\<close> too.\<close>

definition dec_RawMessage :: "raw setter" where
  "dec_RawMessage j old = Some (Some j)"

definition Tx_fields :: "Tx fields" where
  "Tx_fields =
    [(''type'', fld dec_string tx_Type tx_Type_update),
     (''payload'', fld dec_RawMessage tx_Payload tx_Payload_update),
     (''sender'', fld dec_string tx_Sender tx_Sender_update)]"

section \<open>Properties\<close>

lemma reveal_loop_None:
  "reveal_loop i h committed = None \<longleftrightarrow> prefix h (drop i committed)"
proof (induction i h committed rule: reveal_loop.induct)
  case (2 i b h committed)
  show ?case
  proof (cases "i < length committed")
    case True
    then have "drop i committed = committed ! i # drop (Suc i) committed"
      by (rule Cons_nth_drop_Suc [symmetric])
    with True 2 show ?thesis by auto
  qed simp
qed simp

lemma RevealTx_Validate_iff:
  "RevealTx_Validate keccak r committed = None \<longleftrightarrow>
   prefix (keccak (rv_Prompt r @ rv_Nonce r)) committed"
  by (simp add: RevealTx_Validate_def reveal_loop_None Keccak256_concat)

lemma reveal_loop_error:
  "reveal_loop i h committed \<in> {None, Some (Errorf ''reveal does not match commitment'' [])}"
  by (induction i h committed rule: reveal_loop.induct) auto

lemma RevealTx_Validate_eval:
  "RevealTx_Validate keccak r committed =
    (if prefix (keccak (rv_Prompt r @ rv_Nonce r)) committed then None
     else Some (Errorf ''reveal does not match commitment'' []))"
  using reveal_loop_error [of 0 "Keccak256 keccak [rv_Prompt r, rv_Nonce r]" committed]
    RevealTx_Validate_iff [of keccak r committed] by (auto simp: RevealTx_Validate_def)

lemma SlotPhase_range: "SlotPhase t \<in> {1, 2, 3}"
  by (simp add: SlotPhase_def)

lemmas [run_eval] = constant_defs Keccak256_concat RevealTx_Validate_eval pad_hash_def

end
