(* ===== verification/Store.thy ===== *)
theory Store
  imports Types
begin

text \<open>
  chain/store/store.go: the key-value store all modules share. The database below it
  (github.com/syndtr/goleveldb) is not part of the repository, so it is a parameter: a record
  \<open>db_api\<close> of its operations over an unknown database type \<open>'db\<close>. Every operation may report
  an error; a write returns the database it leaves. The locale \<open>leveldb\<close> names the documented
  behaviour the chain relies on: a lookup sees the last write, an iterator over a prefix yields the
  entries of a snapshot in ascending byte order, a batch is applied as a whole, and no operation on
  an open database fails.

  On top of it stands the interface every module uses (locale \<open>table\<close>): a key prefix that
  holds the JSON documents of one Go struct, each under a key computed from the struct. Its lemmas
  (lookup after insert, what other keys keep, scans visit the rows in key order, sums over the rows)
  carry the proofs of the modules.
\<close>

section \<open>The database interface\<close>

datatype db_result = NotFound | Failed | Found json

datatype batch_op = BPut bytes json | BDelete bytes

record 'db db_api =
  db_Get :: "'db \<Rightarrow> bytes \<Rightarrow> db_result"
  db_Put :: "'db \<Rightarrow> bytes \<Rightarrow> json \<Rightarrow> 'db outcome"
  db_Delete :: "'db \<Rightarrow> bytes \<Rightarrow> 'db outcome"
  db_Write :: "'db \<Rightarrow> batch_op list \<Rightarrow> 'db outcome"
  db_Iterate :: "'db \<Rightarrow> bytes \<Rightarrow> (bytes \<times> json) list \<times> error option"

section \<open>The store\<close>

definition store_Get :: "'db db_api \<Rightarrow> 'db \<Rightarrow> bytes \<Rightarrow> error + json option" where
  "store_Get L s key =
    (case db_Get L s key of NotFound \<Rightarrow> Inr None | Failed \<Rightarrow> Inl ErrDB | Found v \<Rightarrow> Inr (Some v))"

definition store_Set :: "'db db_api \<Rightarrow> 'db \<Rightarrow> bytes \<Rightarrow> json \<Rightarrow> 'db outcome" where
  "store_Set L s key val = db_Put L s key val"

definition store_Delete :: "'db db_api \<Rightarrow> 'db \<Rightarrow> bytes \<Rightarrow> 'db outcome" where
  "store_Delete L s key = db_Delete L s key"

text \<open>The callback of \<open>Scan\<close> gets a key, a value and the variables it captures, and returns whether
  to go on together with the new values of those variables.\<close>

fun scan_loop :: "(bytes \<Rightarrow> json \<Rightarrow> 'a \<Rightarrow> bool \<times> 'a) \<Rightarrow> (bytes \<times> json) list \<Rightarrow> 'a \<Rightarrow> 'a" where
  "scan_loop fn [] acc = acc"
| "scan_loop fn ((k, v) # kvs) acc =
    (case fn k v acc of (cont, acc') \<Rightarrow> if cont then scan_loop fn kvs acc' else acc')"

definition store_Scan ::
  "'db db_api \<Rightarrow> 'db \<Rightarrow> bytes \<Rightarrow> (bytes \<Rightarrow> json \<Rightarrow> 'a \<Rightarrow> bool \<times> 'a) \<Rightarrow> 'a \<Rightarrow> 'a \<times> error option" where
  "store_Scan L s pfx fn acc =
    (case db_Iterate L s pfx of (kvs, err) \<Rightarrow> (scan_loop fn kvs acc, err))"

text \<open>Write batches.\<close>

definition new_Batch :: "batch_op list" where
  "new_Batch = []"

definition Batch_Set :: "batch_op list \<Rightarrow> bytes \<Rightarrow> json \<Rightarrow> batch_op list" where
  "Batch_Set b key val = b @ [BPut key val]"

definition Batch_Delete :: "batch_op list \<Rightarrow> bytes \<Rightarrow> batch_op list" where
  "Batch_Delete b key = b @ [BDelete key]"

definition Batch_Flush :: "'db db_api \<Rightarrow> 'db \<Rightarrow> batch_op list \<Rightarrow> 'db outcome" where
  "Batch_Flush L s b = db_Write L s b"

text \<open>The shape all \<open>Get...\<close> methods of the modules have: a missing key is \<open>(nil, nil)\<close>, a
  document that does not decode is an error.\<close>

definition get_doc :: "'db db_api \<Rightarrow> 'a fields \<Rightarrow> 'a \<Rightarrow> 'db \<Rightarrow> bytes \<Rightarrow> error + 'a option" where
  "get_doc L tab zero s key =
    (case store_Get L s key of
       Inl e \<Rightarrow> Inl e
     | Inr None \<Rightarrow> Inr None
     | Inr (Some data) \<Rightarrow>
         (case unmarshal tab zero (Some data) of None \<Rightarrow> Inl ErrJSON | Some x \<Rightarrow> Inr (Some x)))"

section \<open>What the database promises\<close>

definition view :: "'db db_api \<Rightarrow> 'db \<Rightarrow> bytes \<rightharpoonup> json" where
  "view L s k = (case db_Get L s k of Found v \<Rightarrow> Some v | _ \<Rightarrow> None)"

abbreviation put :: "'db db_api \<Rightarrow> 'db \<Rightarrow> bytes \<Rightarrow> json \<Rightarrow> 'db" where
  "put L s k v \<equiv> snd (db_Put L s k v)"

abbreviation iter :: "'db db_api \<Rightarrow> 'db \<Rightarrow> bytes \<Rightarrow> (bytes \<times> json) list" where
  "iter L s p \<equiv> fst (db_Iterate L s p)"

fun apply_batch :: "batch_op list \<Rightarrow> (bytes \<rightharpoonup> json) \<Rightarrow> (bytes \<rightharpoonup> json)" where
  "apply_batch [] m = m"
| "apply_batch (BPut k v # ops) m = apply_batch ops (m(k \<mapsto> v))"
| "apply_batch (BDelete k # ops) m = apply_batch ops (m(k := None))"

text \<open>The namespace of a key is its first path component; \<open>only\<close> is the frame condition that a
  step from \<open>s\<close> to \<open>t\<close> writes keys of the given namespaces only.\<close>

definition namespace :: "bytes \<Rightarrow> bytes" where
  "namespace k = takeWhile (\<lambda>c. c \<noteq> CHR ''/'') k"

definition only :: "'db db_api \<Rightarrow> bytes set \<Rightarrow> 'db \<Rightarrow> 'db \<Rightarrow> bool" where
  "only L N s t \<longleftrightarrow> (\<forall>k. namespace k \<notin> N \<longrightarrow> view L t k = view L s k)"

lemma only_refl [intro, simp]: "only L N s s"
  by (simp add: only_def)

lemma only_trans [trans]: "only L N s t \<Longrightarrow> only L N t u \<Longrightarrow> only L N s u"
  by (simp add: only_def)

lemma only_mono: "only L M s t \<Longrightarrow> M \<subseteq> N \<Longrightarrow> only L N s t"
  by (auto simp: only_def)

lemma namespace_prefix:
  "prefix p k \<Longrightarrow> p \<noteq> [] \<Longrightarrow> last p = CHR ''/'' \<Longrightarrow> namespace k = namespace p"
proof -
  assume "prefix p k" "p \<noteq> []" "last p = CHR ''/''"
  then obtain q ys where "k = q @ CHR ''/'' # ys" "p = q @ [CHR ''/'']"
    by (metis append_butlast_last_id append.assoc append_Cons append_Nil prefixE)
  then show ?thesis by (auto simp: namespace_def takeWhile_append)
qed

locale leveldb =
  fixes L :: "'db db_api"
  assumes get_total: "db_Get L s k \<noteq> Failed"
    and put_ok: "fst (db_Put L s k v) = None"
    and put_view: "view L (snd (db_Put L s k v)) = (view L s)(k \<mapsto> v)"
    and delete_ok: "fst (db_Delete L s k) = None"
    and delete_view: "view L (snd (db_Delete L s k)) = (view L s)(k := None)"
    and write_ok: "fst (db_Write L s ops) = None"
    and write_view: "view L (snd (db_Write L s ops)) = apply_batch ops (view L s)"
    and iter_ok: "snd (db_Iterate L s p) = None"
    and iter_set: "set (fst (db_Iterate L s p)) = {(k, v). view L s k = Some v \<and> prefix p k}"
    and iter_sorted: "sorted_wrt (<) (map fst (fst (db_Iterate L s p)))"
begin

lemma store_Get_view [simp]: "store_Get L s k = Inr (view L s k)"
  using get_total [of s k] by (simp add: store_Get_def view_def split: db_result.split)

lemma store_Set_put [simp]: "store_Set L s k v = (None, put L s k v)"
  by (simp add: store_Set_def prod_eq_iff put_ok)

lemma Batch_Flush_write [simp]: "Batch_Flush L s b = (None, snd (db_Write L s b))"
  by (simp add: Batch_Flush_def prod_eq_iff write_ok)

lemma store_Scan_iter [simp]: "store_Scan L s p fn acc = (scan_loop fn (iter L s p) acc, None)"
  using iter_ok [of s p] by (cases "db_Iterate L s p") (simp add: store_Scan_def)

lemma view_put [simp]: "view L (put L s k v) = (view L s)(k \<mapsto> v)"
  by (rule put_view)

lemma distinct_iter: "distinct (map fst (iter L s p))"
  using iter_sorted [of s p] strict_sorted_iff by blast

lemma iter_cong:
  assumes "\<And>k. prefix p k \<Longrightarrow> view L s k = view L t k"
  shows "iter L s p = iter L t p"
proof (rule map_sorted_distinct_set_unique [of fst])
  show "inj_on fst (set (iter L s p) \<union> set (iter L t p))"
    using assms by (auto simp: iter_set inj_on_def)
  show "sorted (map fst (iter L s p))" "sorted (map fst (iter L t p))"
    using iter_sorted by (blast intro: strict_sorted_imp_sorted)+
  show "distinct (map fst (iter L s p))" "distinct (map fst (iter L t p))"
    by (rule distinct_iter)+
  show "set (iter L s p) = set (iter L t p)"
    using assms by (auto simp: iter_set)
qed

lemma only_put [intro]: "namespace k \<in> N \<Longrightarrow> only L N s (put L s k v)"
  by (auto simp: only_def)

lemma only_put_trans: "only L N s t \<Longrightarrow> namespace k \<in> N \<Longrightarrow> only L N s (put L t k v)"
  by (auto simp: only_def)

lemma apply_deletes: "apply_batch (map BDelete ks) m = (\<lambda>k. if k \<in> set ks then None else m k)"
  by (induction ks arbitrary: m) auto

lemma view_deletes:
  "view L (snd (db_Write L s (map BDelete ks))) = (\<lambda>k. if k \<in> set ks then None else view L s k)"
  by (simp add: write_view apply_deletes)

lemma iter_deletes:
  "iter L (snd (db_Write L s (map BDelete ks))) p = filter (\<lambda>(k, _). k \<notin> set ks) (iter L s p)"
proof (rule map_sorted_distinct_set_unique [of fst])
  let ?t = "snd (db_Write L s (map BDelete ks))"
  let ?f = "filter (\<lambda>(k, _). k \<notin> set ks) (iter L s p)"
  show eq: "set (iter L ?t p) = set ?f"
    by (auto simp: iter_set view_deletes split: if_splits)
  show "inj_on fst (set (iter L ?t p) \<union> set ?f)"
    unfolding eq by (auto simp: iter_set inj_on_def)
  show "sorted (map fst (iter L ?t p))"
    using iter_sorted by (blast intro: strict_sorted_imp_sorted)
  show "sorted (map fst ?f)"
    using strict_sorted_imp_sorted [OF iter_sorted [of s p]] by (rule sorted_filter)
  show "distinct (map fst (iter L ?t p))" by (rule distinct_iter)
  show "distinct (map fst ?f)" by (rule distinct_map_filter [OF distinct_iter])
qed

lemma iter_put_other: "\<not> prefix p k \<Longrightarrow> iter L (put L s k v) p = iter L s p"
  by (rule iter_cong) auto

end

section \<open>Tables of documents\<close>

text \<open>The row stored under a key, the rows under a prefix in key order, and the well-formedness of
  a table: every document under the prefix is the encoding of a struct stored under its own key.\<close>

definition row :: "'db db_api \<Rightarrow> 'a fields \<Rightarrow> 'a \<Rightarrow> 'db \<Rightarrow> bytes \<Rightarrow> 'a option" where
  "row L tab zero s k = (case view L s k of None \<Rightarrow> None | Some j \<Rightarrow> dec_struct tab j zero)"

definition rows :: "'db db_api \<Rightarrow> 'a fields \<Rightarrow> 'a \<Rightarrow> 'db \<Rightarrow> bytes \<Rightarrow> 'a list" where
  "rows L tab zero s pfx = List.map_filter (\<lambda>(k, j). dec_struct tab j zero) (iter L s pfx)"

definition wf_table ::
  "'db db_api \<Rightarrow> bytes \<Rightarrow> ('a \<Rightarrow> bytes) \<Rightarrow> ('a \<Rightarrow> json) \<Rightarrow> 'a fields \<Rightarrow> 'a \<Rightarrow> 'db \<Rightarrow> bool" where
  "wf_table L pfx keyof enc tab zero s \<longleftrightarrow>
    list_all (\<lambda>(k, j). case dec_struct tab j zero of None \<Rightarrow> False | Some x \<Rightarrow> enc x = j \<and> keyof x = k)
      (iter L s pfx)"

locale table = leveldb L
  for L :: "'db db_api" +
  fixes pfx :: bytes
    and keyof :: "'a \<Rightarrow> bytes"
    and enc :: "'a \<Rightarrow> json"
    and tab :: "'a fields"
    and zero :: "'a"
  assumes pfx_keyof: "prefix pfx (keyof x)"
    and dec_enc: "dec_struct tab (enc x) zero = Some x"
begin

abbreviation "wft \<equiv> wf_table L pfx keyof enc tab zero"
abbreviation "lookup \<equiv> row L tab zero"
abbreviation "all_rows s \<equiv> rows L tab zero s pfx"
abbreviation "insert_row s x \<equiv> put L s (keyof x) (enc x)"

lemma enc_inject: "enc x = enc y \<longleftrightarrow> x = y"
  by (metis dec_enc option.inject)

lemma wf_iff:
  "wft s \<longleftrightarrow> (\<forall>k j. view L s k = Some j \<longrightarrow> prefix pfx k \<longrightarrow> (\<exists>x. j = enc x \<and> keyof x = k))"
  by (fastforce simp: wf_table_def list_all_iff iter_set dec_enc split: option.splits)

lemma wfE:
  assumes "wft s" "view L s k = Some j" "prefix pfx k"
  obtains x where "j = enc x" "keyof x = k"
  using assms by (auto simp: wf_iff)

lemma wf_insert: "wft s \<Longrightarrow> wft (insert_row s x)"
  by (auto simp: wf_iff)

lemma wf_other: "\<not> prefix pfx k \<Longrightarrow> wft (put L s k j) \<longleftrightarrow> wft s"
  by (auto simp: wf_iff)

lemma wf_cong: "(\<And>k. prefix pfx k \<Longrightarrow> view L s k = view L t k) \<Longrightarrow> wft s \<longleftrightarrow> wft t"
  by (auto simp: wf_iff)

lemma wf_empty: "view L s = Map.empty \<Longrightarrow> wft s"
  by (simp add: wf_iff)

lemma wf_submap: "wft s \<Longrightarrow> (\<And>k. view L t k = view L s k \<or> view L t k = None) \<Longrightarrow> wft t"
  unfolding wf_iff by (metis option.distinct(1))

lemma get_doc_row: "wft s \<Longrightarrow> prefix pfx k \<Longrightarrow> get_doc L tab zero s k = Inr (lookup s k)"
  by (auto simp: get_doc_def row_def unmarshal_def dec_enc elim!: wfE split: option.split)

lemma view_row: "wft s \<Longrightarrow> prefix pfx k \<Longrightarrow> view L s k = map_option enc (lookup s k)"
  by (auto simp: row_def dec_enc elim!: wfE split: option.split)

lemma lookup_insert: "lookup (insert_row s x) k = (if k = keyof x then Some x else lookup s k)"
  by (simp add: row_def dec_enc)

lemma lookup_keyof: "wft s \<Longrightarrow> prefix pfx k \<Longrightarrow> lookup s k = Some x \<Longrightarrow> keyof x = k"
  by (auto simp: row_def dec_enc elim!: wfE split: option.splits)

lemma keyof_all_rows: "wft s \<Longrightarrow> map keyof (all_rows s) = map fst (iter L s pfx)"
proof -
  assume "wft s"
  then have "map keyof (List.map_filter (\<lambda>(k, j). dec_struct tab j zero) kvs) = map fst kvs"
    if "set kvs \<subseteq> set (iter L s pfx)" for kvs
    using that
    by (induction kvs)
      (auto simp: wf_table_def list_all_iff List.map_filter_simps split: option.splits)
  then show ?thesis by (simp add: rows_def)
qed

lemma distinct_all_rows: "wft s \<Longrightarrow> distinct (map keyof (all_rows s))"
  by (simp add: keyof_all_rows distinct_iter)

lemma sorted_all_rows: "wft s \<Longrightarrow> sorted_wrt (<) (map keyof (all_rows s))"
  by (simp add: keyof_all_rows iter_sorted)

lemma set_all_rows: "wft s \<Longrightarrow> x \<in> set (all_rows s) \<longleftrightarrow> lookup s (keyof x) = Some x"
  by (force simp: rows_def List.map_filter_def iter_set row_def wf_iff dec_enc pfx_keyof split: option.splits)

lemma all_rows_cong: "(\<And>k. prefix pfx k \<Longrightarrow> view L s k = view L t k) \<Longrightarrow> all_rows s = all_rows t"
  unfolding rows_def by (metis iter_cong)

lemma all_rows_other: "\<not> prefix pfx k \<Longrightarrow> all_rows (put L s k j) = all_rows s"
  by (rule all_rows_cong) auto

lemma deletes:
  assumes "wft s"
  defines "t \<equiv> \<lambda>ks. snd (db_Write L s (map BDelete ks))"
  shows "wft (t ks)"
    and "all_rows (t ks) = filter (\<lambda>x. keyof x \<notin> set ks) (all_rows s)"
    and "lookup (t ks) k = (if k \<in> set ks then None else lookup s k)"
proof -
  show "wft (t ks)"
    using assms(1) by (rule wf_submap) (simp add: t_def view_deletes)
  show "lookup (t ks) k = (if k \<in> set ks then None else lookup s k)"
    by (simp add: row_def t_def view_deletes)
  have "List.map_filter (\<lambda>(k, j). dec_struct tab j zero) (filter (\<lambda>(k, _). k \<notin> set ks) kvs) =
      filter (\<lambda>x. keyof x \<notin> set ks) (List.map_filter (\<lambda>(k, j). dec_struct tab j zero) kvs)"
    if "set kvs \<subseteq> set (iter L s pfx)" for kvs
    using that assms(1)
    by (induction kvs)
      (auto simp: wf_table_def list_all_iff List.map_filter_simps split: option.splits)
  then show "all_rows (t ks) = filter (\<lambda>x. keyof x \<notin> set ks) (all_rows s)"
    by (simp add: rows_def t_def iter_deletes)
qed

lemma only_table:
  assumes "only L N s t" "namespace pfx \<notin> N" "pfx \<noteq> []" "last pfx = CHR ''/''"
  shows "wft t \<longleftrightarrow> wft s" and "all_rows t = all_rows s" and "prefix pfx k \<Longrightarrow> lookup t k = lookup s k"
proof -
  have v: "view L t k = view L s k" if "prefix pfx k" for k
    using assms namespace_prefix [OF that] by (simp add: only_def)
  show "wft t \<longleftrightarrow> wft s" by (rule wf_cong) (rule v)
  show "all_rows t = all_rows s" by (rule all_rows_cong) (rule v)
  show "prefix pfx k \<Longrightarrow> lookup t k = lookup s k" by (simp add: row_def v)
qed

lemma scan_rows:
  assumes "wft s" and fn: "\<And>x acc. fn (keyof x) (enc x) acc = (True, g x acc)"
  shows "scan_loop fn (iter L s pfx) acc = fold g (all_rows s) acc"
proof -
  have "scan_loop fn kvs acc = fold g (List.map_filter (\<lambda>(k, j). dec_struct tab j zero) kvs) acc"
    if "set kvs \<subseteq> set (iter L s pfx)" for kvs acc
    using that
  proof (induction kvs arbitrary: acc)
    case (Cons kv kvs)
    obtain k j where kv: "kv = (k, j)" by force
    with Cons.prems have "view L s k = Some j" "prefix pfx k" by (auto simp: iter_set)
    with assms(1) obtain x where "j = enc x" "keyof x = k" by (rule wfE)
    with Cons kv show ?case
      using fn [of x acc] by (simp add: dec_enc List.map_filter_simps)
  qed (simp add: List.map_filter_simps)
  then show ?thesis by (simp add: rows_def)
qed

lemma sum_all_rows: "wft s \<Longrightarrow> sum_list (map f (all_rows s)) = sum f (set (all_rows s))"
  for f :: "'a \<Rightarrow> 'b :: comm_monoid_add"
  using distinct_all_rows [of s] by (simp add: sum_list_distinct_conv_sum_set distinct_map)

lemma sum_insert_row:
  fixes f :: "'a \<Rightarrow> 'b :: ab_group_add"
  assumes "wft s"
  shows "sum_list (map f (all_rows (insert_row s x))) =
    sum_list (map f (all_rows s)) - (case lookup s (keyof x) of None \<Rightarrow> 0 | Some y \<Rightarrow> f y) + f x"
proof -
  let ?R = "set (all_rows s)"
  have wf': "wft (insert_row s x)" using assms by (rule wf_insert)
  have key: "keyof y = keyof x" if "lookup s (keyof x) = Some y" for y
    using assms pfx_keyof that by (rule lookup_keyof)
  have new: "set (all_rows (insert_row s x)) = insert x (?R - {y. keyof y = keyof x})"
  proof (rule set_eqI)
    fix y
    show "y \<in> set (all_rows (insert_row s x)) \<longleftrightarrow> y \<in> insert x (?R - {y. keyof y = keyof x})"
      by (cases "keyof y = keyof x")
        (auto simp: set_all_rows [OF wf'] set_all_rows [OF assms] lookup_insert)
  qed
  have "sum f (insert x (?R - {y. keyof y = keyof x})) = f x + sum f (?R - {y. keyof y = keyof x})"
    by (subst sum.insert) auto
  also have "sum f (?R - {y. keyof y = keyof x}) =
      sum f ?R - (case lookup s (keyof x) of None \<Rightarrow> 0 | Some y \<Rightarrow> f y)"
  proof (cases "lookup s (keyof x)")
    case None
    then have "?R - {y. keyof y = keyof x} = ?R"
      using assms by (auto simp: set_all_rows)
    with None show ?thesis by simp
  next
    case (Some y)
    then have "?R - {y. keyof y = keyof x} = ?R - {y}" "y \<in> ?R"
      using assms key [OF Some] by (auto simp: set_all_rows)
    with Some show ?thesis by (simp add: sum_diff1)
  qed
  finally show ?thesis
    by (simp add: sum_all_rows wf' assms new add.commute)
qed

end

section \<open>A reference database\<close>

text \<open>The association-list database that instantiates the parameter in the witnesses.\<close>

definition list_del :: "bytes \<Rightarrow> (bytes \<times> json) list \<Rightarrow> (bytes \<times> json) list" where
  "list_del k s = filter (\<lambda>(k', _). k' \<noteq> k) s"

definition list_put :: "bytes \<Rightarrow> json \<Rightarrow> (bytes \<times> json) list \<Rightarrow> (bytes \<times> json) list" where
  "list_put k v s = (k, v) # list_del k s"

definition list_write :: "batch_op list \<Rightarrow> (bytes \<times> json) list \<Rightarrow> (bytes \<times> json) list" where
  "list_write ops s = fold (case_batch_op list_put list_del) ops s"

definition list_db :: "(bytes \<times> json) list db_api" where
  "list_db = \<lparr>
    db_Get = (\<lambda>s k. case map_of s k of None \<Rightarrow> NotFound | Some v \<Rightarrow> Found v),
    db_Put = (\<lambda>s k v. (None, list_put k v s)),
    db_Delete = (\<lambda>s k. (None, list_del k s)),
    db_Write = (\<lambda>s ops. (None, list_write ops s)),
    db_Iterate = (\<lambda>s p. (List.map_filter (\<lambda>k. map_option (\<lambda>v. (k, v)) (map_of s k))
        (sort (remdups (filter (prefix p) (map fst s)))), None))\<rparr>"

lemma view_list_db: "view list_db s = map_of s"
  by (auto simp: view_def list_db_def fun_eq_iff split: option.split)

lemma map_of_list_del: "map_of (list_del k s) = (map_of s)(k := None)"
  unfolding list_del_def by (induction s) auto

lemma map_of_list_put: "map_of (list_put k v s) = (map_of s)(k \<mapsto> v)"
  by (simp add: list_put_def map_of_list_del)

lemma list_write_simps:
  "list_write [] s = s"
  "list_write (BPut k v # ops) s = list_write ops (list_put k v s)"
  "list_write (BDelete k # ops) s = list_write ops (list_del k s)"
  by (simp_all add: list_write_def)

lemma map_of_list_write: "map_of (list_write ops s) = apply_batch ops (map_of s)"
proof (induction ops arbitrary: s)
  case (Cons op ops)
  then show ?case
    by (cases op)
      (simp_all only: list_write_simps map_of_list_del map_of_list_put apply_batch.simps)
qed (simp add: list_write_simps)

lemma set_map_filter_keys:
  "set (List.map_filter (\<lambda>k. map_option (\<lambda>v. (k, v)) (m k)) ks) = {(k, v). k \<in> set ks \<and> m k = Some v}"
  by (induction ks) (auto simp: List.map_filter_simps split: option.splits)

lemma map_filter_keys:
  "(\<And>k. k \<in> set ks \<Longrightarrow> m k \<noteq> None) \<Longrightarrow>
   map fst (List.map_filter (\<lambda>k. map_option (\<lambda>v. (k, v)) (m k)) ks) = ks"
  by (induction ks) (auto simp: List.map_filter_simps split: option.splits)

interpretation listdb: leveldb list_db
proof
  fix s k v ops p
  show "db_Get list_db s k \<noteq> Failed"
    by (simp add: list_db_def split: option.split)
  show "fst (db_Put list_db s k v) = None" "fst (db_Delete list_db s k) = None"
    "fst (db_Write list_db s ops) = None" "snd (db_Iterate list_db s p) = None"
    by (simp_all add: list_db_def)
  show "view list_db (put list_db s k v) = (view list_db s)(k \<mapsto> v)"
    "view list_db (snd (db_Delete list_db s k)) = (view list_db s)(k := None)"
    "view list_db (snd (db_Write list_db s ops)) = apply_batch ops (view list_db s)"
    unfolding view_list_db
    by (simp_all only: list_db_def db_api.simps snd_conv map_of_list_put map_of_list_del map_of_list_write)
  show "set (iter list_db s p) = {(k, v). view list_db s k = Some v \<and> prefix p k}"
    unfolding view_list_db
    by (auto simp: list_db_def set_map_filter_keys dest: map_of_SomeD intro: rev_image_eqI)
  have "map fst (iter list_db s p) = sort (remdups (filter (prefix p) (map fst s)))"
    unfolding list_db_def by (simp, rule map_filter_keys) (auto simp: map_of_eq_None_iff)
  then show "sorted_wrt (<) (map fst (iter list_db s p))"
    by (simp add: strict_sorted_iff)
qed

lemma list_db_sel [simp]:
  "db_Get list_db s k = (case map_of s k of None \<Rightarrow> NotFound | Some v \<Rightarrow> Found v)"
  "db_Put list_db s k v = (None, list_put k v s)"
  "db_Delete list_db s k = (None, list_del k s)"
  "db_Write list_db s ops = (None, list_write ops s)"
  "db_Iterate list_db s p = (List.map_filter (\<lambda>k. map_option (\<lambda>v. (k, v)) (map_of s k))
        (sort (remdups (filter (prefix p) (map fst s)))), None)"
  by (simp_all add: list_db_def)

lemma list_put_eval: "list_put k v s = (k, v) # filter (\<lambda>(k', _). k' \<noteq> k) s"
  by (simp add: list_put_def list_del_def)

lemmas [run_eval] = view_list_db list_put_eval list_del_def list_write_simps unmarshal_def get_doc_def
  row_def rows_def List.map_filter_simps new_Batch_def Batch_Delete_def prefix_def

end
