(* ===== verification/Staking.thy ===== *)
theory Staking
  imports Store
begin

text \<open>
  chain/modules/staking/staking.go: validator registration, delegation, unbonding, jailing and
  slashing over the shared store. The module keeps one document per validator under \<open>val/\<close>, one per
  pending unbonding under \<open>ub/\<close> and the network total under \<open>total_stake\<close>. A method of type
  \<open>error\<close> is a function to \<^typ>\<open>'db outcome\<close> (\<^const>\<open>None\<close> is nil), a method of type \<open>(T, error)\<close>
  to \<^typ>\<open>('db, 'a) outcome1\<close>; both return the store as they leave it, also on an error.
\<close>

section \<open>Data\<close>

type_synonym ValidatorStatus = int64

definition StatusActive :: ValidatorStatus where "StatusActive = 0"
definition StatusJailed :: ValidatorStatus where "StatusJailed = 1"
definition StatusUnbonding :: ValidatorStatus where "StatusUnbonding = 2"

definition ValidatorStatus_String :: "ValidatorStatus \<Rightarrow> string" where
  "ValidatorStatus_String s =
    (if s = StatusActive then ''active''
     else if s = StatusJailed then ''jailed''
     else if s = StatusUnbonding then ''unbonding''
     else ''unknown'')"

record Validator =
  v_Address :: string
  v_ConsensusPubKey :: string
  v_BLSPubKey :: string
  v_Bond :: int64
  v_TotalStake :: int64
  v_Commission :: int64
  v_Status :: ValidatorStatus
  v_Moniker :: string
  v_RouterEndpoint :: string
  v_ConsecutiveMissed :: int64
  v_LastActiveEpoch :: int64
  v_KESEpoch :: int64

definition zero_Validator :: Validator where
  "zero_Validator = \<lparr>v_Address = [], v_ConsensusPubKey = [], v_BLSPubKey = [], v_Bond = 0,
    v_TotalStake = 0, v_Commission = 0, v_Status = 0, v_Moniker = [],
    v_RouterEndpoint = [], v_ConsecutiveMissed = 0, v_LastActiveEpoch = 0, v_KESEpoch = 0\<rparr>"

definition Validator_fields :: "Validator fields" where
  "Validator_fields =
    [(''address'', fld dec_string v_Address v_Address_update),
     (''consensus_pub_key'', fld dec_string v_ConsensusPubKey v_ConsensusPubKey_update),
     (''bls_pub_key'', fld dec_string v_BLSPubKey v_BLSPubKey_update),
     (''bond'', fld dec_int64 v_Bond v_Bond_update),
     (''total_stake'', fld dec_int64 v_TotalStake v_TotalStake_update),
     (''commission_bps'', fld dec_int64 v_Commission v_Commission_update),
     (''status'', fld dec_int64 v_Status v_Status_update),
     (''moniker'', fld dec_string v_Moniker v_Moniker_update),
     (''router_endpoint'', fld dec_string v_RouterEndpoint v_RouterEndpoint_update),
     (''consecutive_missed'', fld dec_int64 v_ConsecutiveMissed v_ConsecutiveMissed_update),
     (''last_active_epoch'', fld dec_int64 v_LastActiveEpoch v_LastActiveEpoch_update),
     (''kes_epoch'', fld dec_int64 v_KESEpoch v_KESEpoch_update)]"

definition enc_Validator :: "Validator \<Rightarrow> json" where
  "enc_Validator x = JObj
    [(''address'', JStr (v_Address x)),
     (''consensus_pub_key'', JStr (v_ConsensusPubKey x)),
     (''bls_pub_key'', JStr (v_BLSPubKey x)),
     (''bond'', enc_int64 (v_Bond x)),
     (''total_stake'', enc_int64 (v_TotalStake x)),
     (''commission_bps'', enc_int64 (v_Commission x)),
     (''status'', enc_int64 (v_Status x)),
     (''moniker'', JStr (v_Moniker x)),
     (''router_endpoint'', JStr (v_RouterEndpoint x)),
     (''consecutive_missed'', enc_int64 (v_ConsecutiveMissed x)),
     (''last_active_epoch'', enc_int64 (v_LastActiveEpoch x)),
     (''kes_epoch'', enc_int64 (v_KESEpoch x))]"

record MsgRegisterValidator =
  mr_Address :: string
  mr_ConsensusPubKey :: string
  mr_BLSPubKey :: string
  mr_Bond :: int64
  mr_Commission :: int64
  mr_Moniker :: string
  mr_RouterEndpoint :: string

definition zero_MsgRegisterValidator :: MsgRegisterValidator where
  "zero_MsgRegisterValidator = \<lparr>mr_Address = [], mr_ConsensusPubKey = [], mr_BLSPubKey = [], mr_Bond = 0,
    mr_Commission = 0, mr_Moniker = [], mr_RouterEndpoint = []\<rparr>"

definition MsgRegisterValidator_fields :: "MsgRegisterValidator fields" where
  "MsgRegisterValidator_fields =
    [(''address'', fld dec_string mr_Address mr_Address_update),
     (''consensus_pub_key'', fld dec_string mr_ConsensusPubKey mr_ConsensusPubKey_update),
     (''bls_pub_key'', fld dec_string mr_BLSPubKey mr_BLSPubKey_update),
     (''bond'', fld dec_int64 mr_Bond mr_Bond_update),
     (''commission_bps'', fld dec_int64 mr_Commission mr_Commission_update),
     (''moniker'', fld dec_string mr_Moniker mr_Moniker_update),
     (''router_endpoint'', fld dec_string mr_RouterEndpoint mr_RouterEndpoint_update)]"

record MsgDelegate =
  md_DelegatorAddr :: string
  md_ValidatorAddr :: string
  md_Amount :: int64

definition zero_MsgDelegate :: MsgDelegate where
  "zero_MsgDelegate = \<lparr>md_DelegatorAddr = [], md_ValidatorAddr = [], md_Amount = 0\<rparr>"

definition MsgDelegate_fields :: "MsgDelegate fields" where
  "MsgDelegate_fields =
    [(''delegator_addr'', fld dec_string md_DelegatorAddr md_DelegatorAddr_update),
     (''validator_addr'', fld dec_string md_ValidatorAddr md_ValidatorAddr_update),
     (''amount'', fld dec_int64 md_Amount md_Amount_update)]"

record MsgUndelegate =
  mu_DelegatorAddr :: string
  mu_ValidatorAddr :: string
  mu_Amount :: int64

definition zero_MsgUndelegate :: MsgUndelegate where
  "zero_MsgUndelegate = \<lparr>mu_DelegatorAddr = [], mu_ValidatorAddr = [], mu_Amount = 0\<rparr>"

definition MsgUndelegate_fields :: "MsgUndelegate fields" where
  "MsgUndelegate_fields =
    [(''delegator_addr'', fld dec_string mu_DelegatorAddr mu_DelegatorAddr_update),
     (''validator_addr'', fld dec_string mu_ValidatorAddr mu_ValidatorAddr_update),
     (''amount'', fld dec_int64 mu_Amount mu_Amount_update)]"

record MsgUnjail =
  mj_ValidatorAddr :: string

definition zero_MsgUnjail :: MsgUnjail where
  "zero_MsgUnjail = \<lparr>mj_ValidatorAddr = []\<rparr>"

definition MsgUnjail_fields :: "MsgUnjail fields" where
  "MsgUnjail_fields =
    [(''validator_addr'', fld dec_string mj_ValidatorAddr mj_ValidatorAddr_update)]"

record UnbondingEntry =
  ue_DelegatorAddr :: string
  ue_ValidatorAddr :: string
  ue_Amount :: int64
  ue_MatureSlot :: int64

definition zero_UnbondingEntry :: UnbondingEntry where
  "zero_UnbondingEntry = \<lparr>ue_DelegatorAddr = [], ue_ValidatorAddr = [], ue_Amount = 0, ue_MatureSlot = 0\<rparr>"

definition UnbondingEntry_fields :: "UnbondingEntry fields" where
  "UnbondingEntry_fields =
    [(''delegator_addr'', fld dec_string ue_DelegatorAddr ue_DelegatorAddr_update),
     (''validator_addr'', fld dec_string ue_ValidatorAddr ue_ValidatorAddr_update),
     (''amount'', fld dec_int64 ue_Amount ue_Amount_update),
     (''mature_slot'', fld dec_int64 ue_MatureSlot ue_MatureSlot_update)]"

definition enc_UnbondingEntry :: "UnbondingEntry \<Rightarrow> json" where
  "enc_UnbondingEntry x = JObj
    [(''delegator_addr'', JStr (ue_DelegatorAddr x)),
     (''validator_addr'', JStr (ue_ValidatorAddr x)),
     (''amount'', enc_int64 (ue_Amount x)),
     (''mature_slot'', enc_int64 (ue_MatureSlot x))]"

section \<open>Keys and lookups\<close>

definition keyValPrefix :: bytes where "keyValPrefix = ''val/''"
definition keyUBPrefix :: bytes where "keyUBPrefix = ''ub/''"
definition keyTotalStake :: bytes where "keyTotalStake = ''total_stake''"

definition valKey :: "string \<Rightarrow> bytes" where
  "valKey addr = keyValPrefix @ addr"

definition ubKey :: "int64 \<Rightarrow> string \<Rightarrow> string \<Rightarrow> bytes" where
  "ubKey mature delegator validator = ''ub/'' @ pad20 mature @ ''/'' @ delegator @ ''/'' @ validator"

definition GetValidator :: "'db db_api \<Rightarrow> 'db \<Rightarrow> string \<Rightarrow> error + Validator option" where
  "GetValidator L s addr = get_doc L Validator_fields zero_Validator s (valKey addr)"

definition putValidator :: "'db db_api \<Rightarrow> 'db \<Rightarrow> Validator \<Rightarrow> 'db outcome" where
  "putValidator L s v = store_Set L s (valKey (v_Address v)) (enc_Validator v)"

definition TotalStake :: "'db db_api \<Rightarrow> 'db \<Rightarrow> error + int64" where
  "TotalStake L s =
    (case store_Get L s keyTotalStake of
       Inl e \<Rightarrow> Inl e
     | Inr None \<Rightarrow> Inr 0
     | Inr (Some data) \<Rightarrow> (case dec_int64 data 0 of None \<Rightarrow> Inl ErrJSON | Some tot \<Rightarrow> Inr tot))"

definition addToTotalStake :: "'db db_api \<Rightarrow> 'db \<Rightarrow> int64 \<Rightarrow> 'db outcome" where
  "addToTotalStake L s delta =
    (case TotalStake L s of
       Inl e \<Rightarrow> (Some e, s)
     | Inr tot \<Rightarrow> store_Set L s keyTotalStake (enc_int64 (tot + delta)))"

definition ListActive :: "'db db_api \<Rightarrow> 'db \<Rightarrow> Validator list \<times> error option" where
  "ListActive L s =
    store_Scan L s keyValPrefix
      (\<lambda>_ val result.
         case unmarshal Validator_fields zero_Validator (Some val) of
           None \<Rightarrow> (False, result)
         | Some v \<Rightarrow> (True, if v_Status v = StatusActive then result @ [v] else result)) []"

definition ListAll :: "'db db_api \<Rightarrow> 'db \<Rightarrow> Validator list \<times> error option" where
  "ListAll L s =
    store_Scan L s keyValPrefix
      (\<lambda>_ val result.
         case unmarshal Validator_fields zero_Validator (Some val) of
           None \<Rightarrow> (False, result)
         | Some v \<Rightarrow> (True, result @ [v])) []"

section \<open>Operations\<close>

definition RegisterValidator ::
  "'db db_api \<Rightarrow> 'db \<Rightarrow> MsgRegisterValidator \<Rightarrow> int64 \<Rightarrow> 'db outcome" where
  "RegisterValidator L s msg totalSupply =
    (if mr_Bond msg <s MinStake
     then (Some (Errorf ''bond %d below min stake %d'' [AInt (mr_Bond msg), AInt MinStake]), s)
     else if 0 <s totalSupply \<and> totalSupply * MaxValidatorPct <s mr_Bond msg * 100
     then (Some (Errorf ''bond %d exceeds 5%% of total supply (%d)''
             [AInt (mr_Bond msg), AInt totalSupply]), s)
     else
       case GetValidator L s (mr_Address msg) of
         Inl e \<Rightarrow> (Some e, s)
       | Inr (Some existing) \<Rightarrow>
           (Some (Errorf ''validator %s already registered'' [AStr (mr_Address msg)]), s)
       | Inr None \<Rightarrow>
           let v = \<lparr>v_Address = mr_Address msg, v_ConsensusPubKey = mr_ConsensusPubKey msg,
                    v_BLSPubKey = mr_BLSPubKey msg, v_Bond = mr_Bond msg,
                    v_TotalStake = mr_Bond msg, v_Commission = mr_Commission msg,
                    v_Status = StatusActive, v_Moniker = mr_Moniker msg,
                    v_RouterEndpoint = mr_RouterEndpoint msg,
                    v_ConsecutiveMissed = 0, v_LastActiveEpoch = 0, v_KESEpoch = 0\<rparr>
           in (case putValidator L s v of
                 (Some e, s) \<Rightarrow> (Some e, s)
               | (None, s) \<Rightarrow> addToTotalStake L s (mr_Bond msg)))"

definition Delegate :: "'db db_api \<Rightarrow> 'db \<Rightarrow> MsgDelegate \<Rightarrow> int64 \<Rightarrow> 'db outcome" where
  "Delegate L s msg currentSlot =
    (case GetValidator L s (md_ValidatorAddr msg) of
       Inl e \<Rightarrow> (Some e, s)
     | Inr None \<Rightarrow> (Some (Errorf ''validator %s not found'' [AStr (md_ValidatorAddr msg)]), s)
     | Inr (Some v) \<Rightarrow>
         if v_Status v = StatusJailed
         then (Some (Errorf ''cannot delegate to jailed validator %s''
                 [AStr (md_ValidatorAddr msg)]), s)
         else
           (case putValidator L s (v\<lparr>v_TotalStake := v_TotalStake v + md_Amount msg\<rparr>) of
              (Some e, s) \<Rightarrow> (Some e, s)
            | (None, s) \<Rightarrow> addToTotalStake L s (md_Amount msg)))"

definition Undelegate :: "'db db_api \<Rightarrow> 'db \<Rightarrow> MsgUndelegate \<Rightarrow> int64 \<Rightarrow> 'db outcome" where
  "Undelegate L s msg currentSlot =
    (case GetValidator L s (mu_ValidatorAddr msg) of
       Inl e \<Rightarrow> (Some e, s)
     | Inr None \<Rightarrow> (Some (Errorf ''validator %s not found'' [AStr (mu_ValidatorAddr msg)]), s)
     | Inr (Some v) \<Rightarrow>
         let matureSlot = currentSlot + idiv (21 * 24 * EpochSlots) EpochSlots * EpochSlots;
             matureSlot = currentSlot + 21 * EpochSlots;
             entry = \<lparr>ue_DelegatorAddr = mu_DelegatorAddr msg, ue_ValidatorAddr = mu_ValidatorAddr msg,
                      ue_Amount = mu_Amount msg, ue_MatureSlot = matureSlot\<rparr>
         in (case putValidator L s (v\<lparr>v_TotalStake := v_TotalStake v - mu_Amount msg\<rparr>) of
               (Some e, s) \<Rightarrow> (Some e, s)
             | (None, s) \<Rightarrow>
                 store_Set L s (ubKey matureSlot (mu_DelegatorAddr msg) (mu_ValidatorAddr msg))
                   (enc_UnbondingEntry entry)))"

definition mature_callback ::
  "int64 \<Rightarrow> bytes \<Rightarrow> json \<Rightarrow> int64 \<times> bytes list \<Rightarrow> bool \<times> (int64 \<times> bytes list)" where
  "mature_callback currentSlot key val acc =
    (case acc of (released, toDelete) \<Rightarrow>
       (case unmarshal UnbondingEntry_fields zero_UnbondingEntry (Some val) of
          None \<Rightarrow> (False, (released, toDelete))
        | Some entry \<Rightarrow>
            if ue_MatureSlot entry \<le>s currentSlot
            then (True, (released + ue_Amount entry, toDelete @ [key]))
            else (True, (released, toDelete))))"

definition ProcessMatureUnbondings :: "'db db_api \<Rightarrow> 'db \<Rightarrow> int64 \<Rightarrow> ('db, int64) outcome1" where
  "ProcessMatureUnbondings L s currentSlot =
    (case store_Scan L s ''ub/'' (mature_callback currentSlot) (0, []) of
       (_, Some e) \<Rightarrow> (Inl e, s)
     | ((released, toDelete), None) \<Rightarrow>
         (case Batch_Flush L s (foldl Batch_Delete new_Batch toDelete) of
            (Some e, s) \<Rightarrow> (Inl e, s)
          | (None, s) \<Rightarrow>
              if 0 <s released
              then (case addToTotalStake L s (- released) of
                      (Some e, s) \<Rightarrow> (Inl e, s)
                    | (None, s) \<Rightarrow> (Inr released, s))
              else (Inr released, s)))"

definition Unjail :: "'db db_api \<Rightarrow> 'db \<Rightarrow> string \<Rightarrow> 'db outcome" where
  "Unjail L s addr =
    (case GetValidator L s addr of
       Inl e \<Rightarrow> (Some e, s)
     | Inr None \<Rightarrow> (Some (Errorf ''validator %s not found'' [AStr addr]), s)
     | Inr (Some v) \<Rightarrow>
         if v_Status v \<noteq> StatusJailed
         then (Some (Errorf ''validator %s is not jailed'' [AStr addr]), s)
         else if v_Bond v <s MinStake
         then (Some (Errorf ''bond %d < min stake %d, top up first''
                 [AInt (v_Bond v), AInt MinStake]), s)
         else putValidator L s (v\<lparr>v_Status := StatusActive, v_ConsecutiveMissed := 0\<rparr>))"

text \<open>The amount \<open>SlashBond\<close> takes, and the validator it stores.\<close>

definition slash_amount :: "int64 \<Rightarrow> int64 \<Rightarrow> int64" where
  "slash_amount bond bps =
    (let amount = idiv (bond * bps) 10000 in if bond <s amount then bond else amount)"

definition slash_validator :: "Validator \<Rightarrow> int64 \<Rightarrow> Validator" where
  "slash_validator v amount =
    (let v = v\<lparr>v_Bond := v_Bond v - amount, v_TotalStake := v_TotalStake v - amount\<rparr>
     in if v_Bond v <s MinStake then v\<lparr>v_Status := StatusJailed\<rparr> else v)"

definition SlashBond :: "'db db_api \<Rightarrow> 'db \<Rightarrow> string \<Rightarrow> int64 \<Rightarrow> ('db, int64) outcome1" where
  "SlashBond L s addr bps =
    (case GetValidator L s addr of
       Inl e \<Rightarrow> (Inl e, s)
     | Inr None \<Rightarrow> (Inl (Errorf ''validator %s not found'' [AStr addr]), s)
     | Inr (Some v) \<Rightarrow>
         let amount = slash_amount (v_Bond v) bps
         in (case putValidator L s (slash_validator v amount) of
               (Some e, s) \<Rightarrow> (Inl e, s)
             | (None, s) \<Rightarrow>
                 (case addToTotalStake L s (- amount) of
                    (Some e, s) \<Rightarrow> (Inl e, s)
                  | (None, s) \<Rightarrow> (Inr amount, s))))"

definition IncrementMissed :: "'db db_api \<Rightarrow> 'db \<Rightarrow> string \<Rightarrow> 'db outcome" where
  "IncrementMissed L s addr =
    (case GetValidator L s addr of
       Inl e \<Rightarrow> (Some e, s)
     | Inr None \<Rightarrow> (Some (Errorf ''validator %s not found'' [AStr addr]), s)
     | Inr (Some v) \<Rightarrow> putValidator L s (v\<lparr>v_ConsecutiveMissed := v_ConsecutiveMissed v + 1\<rparr>))"

definition ResetMissed :: "'db db_api \<Rightarrow> 'db \<Rightarrow> string \<Rightarrow> int64 \<Rightarrow> 'db outcome" where
  "ResetMissed L s addr epoch =
    (case GetValidator L s addr of
       Inl e \<Rightarrow> (Some e, s)
     | Inr None \<Rightarrow> (Some (Errorf ''validator %s not found'' [AStr addr]), s)
     | Inr (Some v) \<Rightarrow>
         putValidator L s (v\<lparr>v_ConsecutiveMissed := 0, v_LastActiveEpoch := epoch\<rparr>))"

section \<open>Codec round trips\<close>

lemma enc_Validator_not_null [simp]: "enc_Validator x \<noteq> JNull"
  by (simp add: enc_Validator_def)

lemma Validator_roundtrip [simp, codec]: "dec_struct Validator_fields (enc_Validator x) zero_Validator = Some x"
  by (simp add: dec_struct_JObj find_field_def fld_def Validator_fields_def enc_Validator_def zero_Validator_def)

lemma enc_UnbondingEntry_not_null [simp]: "enc_UnbondingEntry x \<noteq> JNull"
  by (simp add: enc_UnbondingEntry_def)

lemma UnbondingEntry_roundtrip [simp, codec]: "dec_struct UnbondingEntry_fields (enc_UnbondingEntry x) zero_UnbondingEntry = Some x"
  by (simp add: dec_struct_JObj find_field_def fld_def UnbondingEntry_fields_def enc_UnbondingEntry_def zero_UnbondingEntry_def)

section \<open>The state of the module\<close>

definition ub_keyof :: "UnbondingEntry \<Rightarrow> bytes" where
  "ub_keyof e = ubKey (ue_MatureSlot e) (ue_DelegatorAddr e) (ue_ValidatorAddr e)"

definition validators :: "'db db_api \<Rightarrow> 'db \<Rightarrow> string \<rightharpoonup> Validator" where
  "validators L s addr = row L Validator_fields zero_Validator s (valKey addr)"

definition validator_rows :: "'db db_api \<Rightarrow> 'db \<Rightarrow> Validator list" where
  "validator_rows L s = rows L Validator_fields zero_Validator s keyValPrefix"

definition unbonding_rows :: "'db db_api \<Rightarrow> 'db \<Rightarrow> UnbondingEntry list" where
  "unbonding_rows L s = rows L UnbondingEntry_fields zero_UnbondingEntry s keyUBPrefix"

definition total_stake :: "'db db_api \<Rightarrow> 'db \<Rightarrow> int64" where
  "total_stake L s = (case TotalStake L s of Inl _ \<Rightarrow> 0 | Inr t \<Rightarrow> t)"

definition staking_wf :: "'db db_api \<Rightarrow> 'db \<Rightarrow> bool" where
  "staking_wf L s \<longleftrightarrow>
    wf_table L keyValPrefix (\<lambda>v. valKey (v_Address v)) enc_Validator Validator_fields zero_Validator s \<and>
    wf_table L keyUBPrefix ub_keyof enc_UnbondingEntry UnbondingEntry_fields zero_UnbondingEntry s \<and>
    (case TotalStake L s of Inl _ \<Rightarrow> False | Inr _ \<Rightarrow> True)"

abbreviation "staking_ns \<equiv> {''val'', ''ub'', ''total_stake''}"

lemmas [keys] = valKey_def ubKey_def ub_keyof_def keyValPrefix_def keyUBPrefix_def keyTotalStake_def

lemma namespace_keys [simp]:
  "namespace (valKey a) = ''val''"
  "namespace (ubKey m d v) = ''ub''"
  "namespace keyTotalStake = ''total_stake''"
  "namespace keyValPrefix = ''val''"
  "namespace keyUBPrefix = ''ub''"
  by (simp_all add: namespace_def keys)

lemma valKey_inject [simp]: "valKey a = valKey b \<longleftrightarrow> a = b"
  by (simp add: keys)

lemma valKey_prefix [simp]: "prefix keyValPrefix (valKey a)"
  by (simp add: keys)

lemma ubKey_prefix [simp]: "prefix keyUBPrefix (ubKey m d v)" "prefix keyUBPrefix (ub_keyof e)"
  by (simp_all add: keys)

lemma keys_distinct [simp]:
  "valKey a \<noteq> keyTotalStake" "ubKey m d v \<noteq> keyTotalStake" "valKey a \<noteq> ubKey m d v"
  "keyTotalStake \<noteq> valKey a" "keyTotalStake \<noteq> ubKey m d v" "ubKey m d v \<noteq> valKey a"
  "\<not> prefix keyUBPrefix (valKey a)" "\<not> prefix keyUBPrefix keyTotalStake"
  "\<not> prefix keyValPrefix (ubKey m d v)" "\<not> prefix keyValPrefix keyTotalStake"
  "ub_keyof e \<noteq> keyTotalStake" "keyTotalStake \<noteq> ub_keyof e" "\<not> prefix keyValPrefix (ub_keyof e)"
  "namespace (ub_keyof e) = ''ub''"
  by (simp_all add: keys namespace_def)

text \<open>A delegator without a slash has a key of its own for every maturity and validator.\<close>

lemma ubKey_inject:
  "CHR ''/'' \<notin> set d \<Longrightarrow> CHR ''/'' \<notin> set d' \<Longrightarrow>
   ubKey m d v = ubKey m' d' v' \<longleftrightarrow> m = m' \<and> d = d' \<and> v = v'"
  by (auto simp: keys append_sep_inject pad20_no_slash)

sublocale leveldb \<subseteq> valT: table L keyValPrefix "\<lambda>v. valKey (v_Address v)" enc_Validator
    Validator_fields zero_Validator
  by unfold_locales simp_all

sublocale leveldb \<subseteq> ubT: table L keyUBPrefix ub_keyof enc_UnbondingEntry
    UnbondingEntry_fields zero_UnbondingEntry
  by unfold_locales simp_all

text \<open>The ways in which the operations change the store: one validator is written, one validator is
  written and the network total moves by a given amount, or an unbonding entry is queued.\<close>

definition put_validator :: "'db db_api \<Rightarrow> 'db \<Rightarrow> Validator \<Rightarrow> 'db" where
  "put_validator L s v = put L s (valKey (v_Address v)) (enc_Validator v)"

definition put_stake :: "'db db_api \<Rightarrow> 'db \<Rightarrow> Validator \<Rightarrow> int64 \<Rightarrow> 'db" where
  "put_stake L s v d = put L (put_validator L s v) keyTotalStake (enc_int64 (total_stake L s + d))"

definition put_unbonding :: "'db db_api \<Rightarrow> 'db \<Rightarrow> UnbondingEntry \<Rightarrow> 'db" where
  "put_unbonding L s e = put L s (ub_keyof e) (enc_UnbondingEntry e)"

context leveldb
begin

lemma TotalStake_view:
  "TotalStake L s =
    (case view L s keyTotalStake of None \<Rightarrow> Inr 0
     | Some j \<Rightarrow> (case dec_int64 j 0 of None \<Rightarrow> Inl ErrJSON | Some t \<Rightarrow> Inr t))"
  by (simp add: TotalStake_def split: option.split)

lemma TotalStake_wf: "staking_wf L s \<Longrightarrow> TotalStake L s = Inr (total_stake L s)"
  by (auto simp: staking_wf_def total_stake_def split: sum.splits)

lemma GetValidator_wf: "staking_wf L s \<Longrightarrow> GetValidator L s a = Inr (validators L s a)"
  by (simp add: staking_wf_def GetValidator_def validators_def valT.get_doc_row)

lemma putValidator_put: "putValidator L s v = (None, put_validator L s v)"
  by (simp add: put_validator_def putValidator_def)

lemma total_stake_other: "k \<noteq> keyTotalStake \<Longrightarrow> total_stake L (put L s k j) = total_stake L s"
  by (simp add: total_stake_def TotalStake_view)

lemma total_stake_put: "total_stake L (put L s keyTotalStake (enc_int64 t)) = t"
  by (simp add: total_stake_def TotalStake_view)

lemma validators_put: "validators L (put_validator L s v) = (validators L s)(v_Address v \<mapsto> v)"
  by (auto simp: put_validator_def validators_def valT.lookup_insert)

lemma validators_other: "namespace k \<noteq> ''val'' \<Longrightarrow> validators L (put L s k j) = validators L s"
  by (auto simp: validators_def row_def fun_eq_iff)

lemma validators_address:
  "staking_wf L s \<Longrightarrow> validators L s a = Some v \<Longrightarrow> v_Address v = a"
  using valT.lookup_keyof [of s "valKey a" v] by (simp add: staking_wf_def validators_def)

lemma validator_rows_iff:
  "staking_wf L s \<Longrightarrow> v \<in> set (validator_rows L s) \<longleftrightarrow> validators L s (v_Address v) = Some v"
  by (simp add: staking_wf_def validator_rows_def validators_def valT.set_all_rows)

lemma staking_wf_put_validator: "staking_wf L s \<Longrightarrow> staking_wf L (put_validator L s v)"
  by (simp add: put_validator_def staking_wf_def valT.wf_insert ubT.wf_other TotalStake_view)

lemma staking_wf_put_total:
  "staking_wf L s \<Longrightarrow> staking_wf L (put L s keyTotalStake (enc_int64 t))"
  by (simp add: staking_wf_def valT.wf_other ubT.wf_other TotalStake_view)

lemma staking_wf_put_ub: "staking_wf L s \<Longrightarrow> staking_wf L (put_unbonding L s e)"
  by (simp add: put_unbonding_def staking_wf_def valT.wf_other ubT.wf_insert TotalStake_view)

lemma staking_wf_only: "only L N s t \<Longrightarrow> N \<inter> staking_ns = {} \<Longrightarrow> staking_wf L t \<longleftrightarrow> staking_wf L s"
  using valT.only_table(1) [of N s t] ubT.only_table(1) [of N s t]
  by (auto simp: staking_wf_def only_def TotalStake_view keyValPrefix_def keyUBPrefix_def namespace_def keyTotalStake_def)

lemma staking_only:
  assumes "only L N s t" "N \<inter> staking_ns = {}"
  shows "staking_wf L t \<longleftrightarrow> staking_wf L s" and "validators L t = validators L s"
    and "validator_rows L t = validator_rows L s" and "unbonding_rows L t = unbonding_rows L s"
    and "total_stake L t = total_stake L s"
proof -
  show "staking_wf L t \<longleftrightarrow> staking_wf L s" using assms by (rule staking_wf_only)
  note T = valT.only_table(2,3) [OF assms(1)] ubT.only_table(2) [OF assms(1)]
  have k: "keyValPrefix \<noteq> []" "last keyValPrefix = CHR ''/''" "keyUBPrefix \<noteq> []" "last keyUBPrefix = CHR ''/''"
    by (simp_all add: keys)
  show "validators L t = validators L s" "validator_rows L t = validator_rows L s"
    "unbonding_rows L t = unbonding_rows L s"
    using T assms(2) k by (auto simp: validators_def validator_rows_def unbonding_rows_def fun_eq_iff)
  show "total_stake L t = total_stake L s"
    using assms by (auto simp: total_stake_def TotalStake_view only_def)
qed

lemma addToTotalStake_put:
  "staking_wf L s \<Longrightarrow>
   addToTotalStake L s d = (None, put L s keyTotalStake (enc_int64 (total_stake L s + d)))"
  by (simp add: addToTotalStake_def TotalStake_wf)

lemma total_stake_put_validator: "total_stake L (put_validator L s v) = total_stake L s"
  by (simp add: put_validator_def total_stake_other)

lemma put_then_add:
  "staking_wf L s \<Longrightarrow> addToTotalStake L (put_validator L s v) d = (None, put_stake L s v d)"
  by (simp add: addToTotalStake_put staking_wf_put_validator total_stake_put_validator put_stake_def)

lemmas staking_reads =
  GetValidator_wf TotalStake_wf putValidator_put put_then_add

lemma scan_mature:
  assumes "staking_wf L s"
  shows "scan_loop (mature_callback slot) (iter L s ''ub/'') (0, []) =
    (sum_list (map ue_Amount (filter (\<lambda>e. ue_MatureSlot e \<le>s slot) (unbonding_rows L s))),
      map ub_keyof (filter (\<lambda>e. ue_MatureSlot e \<le>s slot) (unbonding_rows L s)))"
proof -
  let ?g = "\<lambda>e (r, d). if ue_MatureSlot e \<le>s slot then (r + ue_Amount e, d @ [ub_keyof e]) else (r, d)"
  have "scan_loop (mature_callback slot) (iter L s keyUBPrefix) (0, []) =
      fold ?g (unbonding_rows L s) (0, [])"
    unfolding unbonding_rows_def
    by (rule ubT.scan_rows) (use assms in \<open>auto simp: staking_wf_def mature_callback_def unmarshal_def\<close>)
  also have "fold ?g es (r, d) =
      (r + sum_list (map ue_Amount (filter (\<lambda>e. ue_MatureSlot e \<le>s slot) es)),
       d @ map ub_keyof (filter (\<lambda>e. ue_MatureSlot e \<le>s slot) es))" for es r d
    by (induction es arbitrary: r d) (auto simp: add.assoc)
  finally show ?thesis by (simp add: keyUBPrefix_def)
qed

end

section \<open>Sequences of operations\<close>

text \<open>Every call that changes staking state, and the store it leaves.\<close>

datatype staking_op =
    OpRegister MsgRegisterValidator int64
  | OpDelegate MsgDelegate int64
  | OpUndelegate MsgUndelegate int64
  | OpProcessMature int64
  | OpUnjail string
  | OpSlash string int64
  | OpIncrementMissed string
  | OpResetMissed string int64

fun staking_exec :: "'db db_api \<Rightarrow> staking_op \<Rightarrow> 'db \<Rightarrow> 'db" where
  "staking_exec L (OpRegister msg supply) s = snd (RegisterValidator L s msg supply)"
| "staking_exec L (OpDelegate msg slot) s = snd (Delegate L s msg slot)"
| "staking_exec L (OpUndelegate msg slot) s = snd (Undelegate L s msg slot)"
| "staking_exec L (OpProcessMature slot) s = snd (ProcessMatureUnbondings L s slot)"
| "staking_exec L (OpUnjail addr) s = snd (Unjail L s addr)"
| "staking_exec L (OpSlash addr bps) s = snd (SlashBond L s addr bps)"
| "staking_exec L (OpIncrementMissed addr) s = snd (IncrementMissed L s addr)"
| "staking_exec L (OpResetMissed addr epoch) s = snd (ResetMissed L s addr epoch)"

text \<open>The sum over what matures at a slot; the active validators hold at least the minimum bond; the
  network total is what the validators hold plus what is still unbonding.\<close>

definition matured :: "'db db_api \<Rightarrow> 'db \<Rightarrow> int64 \<Rightarrow> int64" where
  "matured L s slot =
    sum_list (map ue_Amount (filter (\<lambda>e. ue_MatureSlot e \<le>s slot) (unbonding_rows L s)))"

definition active_bonded :: "'db db_api \<Rightarrow> 'db \<Rightarrow> bool" where
  "active_bonded L s \<longleftrightarrow>
    list_all (\<lambda>v. v_Status v = StatusActive \<longrightarrow> MinStake \<le>s v_Bond v) (validator_rows L s)"

definition stake_conserved :: "'db db_api \<Rightarrow> 'db \<Rightarrow> bool" where
  "stake_conserved L s \<longleftrightarrow>
    total_stake L s =
      sum_list (map v_TotalStake (validator_rows L s)) + sum_list (map ue_Amount (unbonding_rows L s))"

text \<open>By how much the network total exceeds what is accounted for, and what one call adds to that: an undelegation the
  amount of the entry that it overwrites (one with the same delegator, validator and slot), a sweep the sum it
  releases when that is not positive.\<close>

definition imbalance :: "'db db_api \<Rightarrow> 'db \<Rightarrow> int64" where
  "imbalance L s =
    total_stake L s - sum_list (map v_TotalStake (validator_rows L s)) - sum_list (map ue_Amount (unbonding_rows L s))"

definition queued :: "'db db_api \<Rightarrow> 'db \<Rightarrow> bytes \<Rightarrow> int64" where
  "queued L s k = (case row L UnbondingEntry_fields zero_UnbondingEntry s k of None \<Rightarrow> 0 | Some e \<Rightarrow> ue_Amount e)"

fun leak :: "'db db_api \<Rightarrow> 'db \<Rightarrow> staking_op \<Rightarrow> int64" where
  "leak L s (OpUndelegate msg slot) =
    (if validators L s (mu_ValidatorAddr msg) = None then 0
     else queued L s (ubKey (slot + 21 * EpochSlots) (mu_DelegatorAddr msg) (mu_ValidatorAddr msg)))"
| "leak L s (OpProcessMature slot) = (if 0 <s matured L s slot then 0 else matured L s slot)"
| "leak L s op = 0"

text \<open>Calls that leak nothing: an unbonding does not land on the key of an entry that is already queued, and what
  matures at once is not a negative amount.\<close>

fun op_guard :: "'db db_api \<Rightarrow> 'db \<Rightarrow> staking_op \<Rightarrow> bool" where
  "op_guard L s (OpUndelegate msg slot) \<longleftrightarrow>
    view L s (ubKey (slot + 21 * EpochSlots) (mu_DelegatorAddr msg) (mu_ValidatorAddr msg)) = None"
| "op_guard L s (OpProcessMature slot) \<longleftrightarrow> 0 \<le>s matured L s slot"
| "op_guard L s op \<longleftrightarrow> True"

fun staking_run :: "'db db_api \<Rightarrow> staking_op list \<Rightarrow> 'db \<Rightarrow> 'db" where
  "staking_run L [] s = s"
| "staking_run L (op # ops) s = staking_run L ops (staking_exec L op s)"

fun run_guard :: "'db db_api \<Rightarrow> 'db \<Rightarrow> staking_op list \<Rightarrow> bool" where
  "run_guard L s [] \<longleftrightarrow> True"
| "run_guard L s (op # ops) \<longleftrightarrow> op_guard L s op \<and> run_guard L (staking_exec L op s) ops"

fun leaked :: "'db db_api \<Rightarrow> 'db \<Rightarrow> staking_op list \<Rightarrow> int64" where
  "leaked L s [] = 0"
| "leaked L s (op # ops) = leak L s op + leaked L (staking_exec L op s) ops"

lemma stake_conserved_iff: "stake_conserved L s \<longleftrightarrow> imbalance L s = 0"
  by (auto simp: stake_conserved_def imbalance_def algebra_simps)

section \<open>Effects of the operations\<close>

definition sweep :: "'db db_api \<Rightarrow> 'db \<Rightarrow> int64 \<Rightarrow> 'db" where
  "sweep L s slot = snd (db_Write L s (map BDelete
      (map ub_keyof (filter (\<lambda>e. ue_MatureSlot e \<le>s slot) (unbonding_rows L s)))))"

context leveldb
begin

lemma flush_deletes: "foldl Batch_Delete new_Batch ks = map BDelete ks"
  by (induction ks rule: rev_induct) (simp_all add: new_Batch_def Batch_Delete_def)

lemma only_sweep: "only L {''ub''} s (sweep L s slot)"
  unfolding only_def sweep_def view_deletes by auto

lemma TotalStake_sweep: "TotalStake L (sweep L s slot) = TotalStake L s"
  using only_sweep [of s slot] by (simp add: only_def TotalStake_view)

lemma validators_sweep:
  "validators L (sweep L s slot) = validators L s"
  "validator_rows L (sweep L s slot) = validator_rows L s"
  using valT.only_table(2,3) [OF only_sweep]
  by (simp_all add: validators_def validator_rows_def fun_eq_iff keyValPrefix_def namespace_def valKey_def)

lemma staking_wf_sweep: "staking_wf L s \<Longrightarrow> staking_wf L (sweep L s slot)"
  unfolding staking_wf_def TotalStake_sweep
  using valT.only_table(1) [OF only_sweep]
  by (simp add: sweep_def ubT.deletes(1) keyValPrefix_def namespace_def del: map_map)

lemma unbonding_rows_sweep:
  assumes "staking_wf L s"
  shows "unbonding_rows L (sweep L s slot) = filter (\<lambda>e. \<not> ue_MatureSlot e \<le>s slot) (unbonding_rows L s)"
proof -
  let ?ks = "map ub_keyof (filter (\<lambda>e. ue_MatureSlot e \<le>s slot) (unbonding_rows L s))"
  have ub: "ubT.wft s" using assms by (simp add: staking_wf_def)
  have "ub_keyof e \<notin> set ?ks \<longleftrightarrow> \<not> ue_MatureSlot e \<le>s slot" if "e \<in> set (unbonding_rows L s)" for e
    using that ubT.distinct_all_rows [OF ub] by (auto simp: unbonding_rows_def distinct_map inj_on_def)
  then have "filter (\<lambda>e. ub_keyof e \<notin> set ?ks) (unbonding_rows L s) =
      filter (\<lambda>e. \<not> ue_MatureSlot e \<le>s slot) (unbonding_rows L s)"
    by (rule filter_cong [OF refl])
  then show ?thesis
    using ubT.deletes(2) [OF ub, of ?ks] by (simp only: unbonding_rows_def sweep_def)
qed

lemma ProcessMature_wf:
  assumes "staking_wf L s"
  shows "ProcessMatureUnbondings L s slot =
    (Inr (matured L s slot),
     if 0 <s matured L s slot
     then put L (sweep L s slot) keyTotalStake (enc_int64 (total_stake L s - matured L s slot))
     else sweep L s slot)"
proof -
  have "total_stake L (sweep L s slot) = total_stake L s"
    by (simp add: total_stake_def TotalStake_sweep)
  then show ?thesis
    using addToTotalStake_put [OF staking_wf_sweep [OF assms]]
    by (simp add: ProcessMatureUnbondings_def scan_mature [OF assms] flush_deletes
        flip: matured_def sweep_def del: map_map)
qed

lemma put_validator_wf:
  "total_stake L (put_validator L s v) = total_stake L s"
  "unbonding_rows L (put_validator L s v) = unbonding_rows L s"
  "only L staking_ns s (put_validator L s v)"
  by (simp_all add: put_validator_def total_stake_other unbonding_rows_def ubT.all_rows_other only_put)

lemma put_stake_wf:
  assumes "staking_wf L s"
  shows "staking_wf L (put_stake L s v d)"
    and "total_stake L (put_stake L s v d) = total_stake L s + d"
    and "validators L (put_stake L s v d) = (validators L s)(v_Address v \<mapsto> v)"
    and "unbonding_rows L (put_stake L s v d) = unbonding_rows L s"
    and "validator_rows L (put_stake L s v d) = validator_rows L (put_validator L s v)"
    and "only L staking_ns s (put_stake L s v d)"
  using assms put_validator_wf [of s v]
  by (simp_all add: put_stake_def staking_wf_put_total staking_wf_put_validator total_stake_put validators_put
      validators_other unbonding_rows_def validator_rows_def ubT.all_rows_other valT.all_rows_other
      only_put_trans)

lemma stake_sum_put:
  "staking_wf L s \<Longrightarrow>
   sum_list (map v_TotalStake (validator_rows L (put_validator L s v))) =
   sum_list (map v_TotalStake (validator_rows L s)) -
     (case validators L s (v_Address v) of None \<Rightarrow> 0 | Some u \<Rightarrow> v_TotalStake u) + v_TotalStake v"
  using valT.sum_insert_row [of s v_TotalStake v]
  by (simp add: staking_wf_def validator_rows_def validators_def put_validator_def)

end

lemma slash_validator_simps [simp]:
  "v_Address (slash_validator v n) = v_Address v"
  "v_Bond (slash_validator v n) = v_Bond v - n"
  "v_TotalStake (slash_validator v n) = v_TotalStake v - n"
  "v_Status (slash_validator v n) = (if v_Bond v - n <s MinStake then StatusJailed else v_Status v)"
  by (simp_all add: slash_validator_def Let_def)

definition bond_kept :: "'db db_api \<Rightarrow> 'db \<Rightarrow> Validator \<Rightarrow> bool" where
  "bond_kept L s v \<longleftrightarrow>
    (v_Status v = StatusActive \<longrightarrow>
     MinStake \<le>s v_Bond v \<or>
     (case validators L s (v_Address v) of None \<Rightarrow> False
      | Some u \<Rightarrow> v_Status u = StatusActive \<and> v_Bond u = v_Bond v))"

inductive staking_step :: "'db db_api \<Rightarrow> bool \<Rightarrow> 'db \<Rightarrow> 'db \<Rightarrow> bool" for L where
  unchanged: "staking_step L g s s"
| restake: "d = v_TotalStake v -
      (case validators L s (v_Address v) of None \<Rightarrow> 0 | Some u \<Rightarrow> v_TotalStake u) \<Longrightarrow>
    bond_kept L s v \<Longrightarrow> staking_step L g s (put_stake L s v d)"
| revise: "validators L s (v_Address v) = Some u \<Longrightarrow> v_TotalStake v = v_TotalStake u \<Longrightarrow>
    bond_kept L s v \<Longrightarrow> staking_step L g s (put_validator L s v)"
| unbond: "validators L s (v_Address v) = Some u \<Longrightarrow> v_TotalStake v = v_TotalStake u - ue_Amount e \<Longrightarrow>
    bond_kept L s v \<Longrightarrow> (g \<Longrightarrow> view L s (ub_keyof e) = None) \<Longrightarrow>
    staking_step L g s (put_unbonding L (put_validator L s v) e)"
| mature: "(g \<Longrightarrow> 0 \<le>s matured L s slot) \<Longrightarrow>
    staking_step L g s (snd (ProcessMatureUnbondings L s slot))"

context leveldb
begin

lemma Register_step:
  "staking_wf L s \<Longrightarrow> staking_step L g s (snd (RegisterValidator L s msg supply))"
  by (auto simp: RegisterValidator_def staking_reads Let_def bond_kept_def
      signed.not_less
      intro!: staking_step.intros split: option.split)

lemma Delegate_step: "staking_wf L s \<Longrightarrow> staking_step L g s (snd (Delegate L s msg slot))"
  using validators_address [of s "md_ValidatorAddr msg"]
  by (auto simp: Delegate_def staking_reads bond_kept_def intro!: staking_step.intros split: option.split)

lemma Unjail_step: "staking_wf L s \<Longrightarrow> staking_step L g s (snd (Unjail L s a))"
  using validators_address [of s a]
  by (auto simp: Unjail_def staking_reads bond_kept_def signed.not_less
      intro!: staking_step.unchanged staking_step.revise split: option.split)

lemma Missed_steps:
  assumes "staking_wf L s"
  shows "staking_step L g s (snd (IncrementMissed L s a))"
    and "staking_step L g s (snd (ResetMissed L s a epoch))"
  using assms validators_address [of s a]
  by (auto simp: IncrementMissed_def ResetMissed_def staking_reads bond_kept_def
      intro!: staking_step.unchanged staking_step.revise split: option.split)

lemma Slash_step: "staking_wf L s \<Longrightarrow> staking_step L g s (snd (SlashBond L s a bps))"
  using validators_address [of s a]
  by (auto simp: SlashBond_def staking_reads Let_def bond_kept_def signed.not_less StatusActive_def StatusJailed_def
      intro!: staking_step.unchanged staking_step.restake split: option.split)

lemma Undelegate_step:
  assumes "staking_wf L s"
  shows "staking_step L (op_guard L s (OpUndelegate msg slot)) s (snd (Undelegate L s msg slot))"
proof (cases "validators L s (mu_ValidatorAddr msg)")
  case None
  with assms show ?thesis
    by (simp add: Undelegate_def staking_reads staking_step.unchanged)
next
  case (Some u)
  have addr: "v_Address u = mu_ValidatorAddr msg"
    using assms Some by (rule validators_address)
  let ?v = "u\<lparr>v_TotalStake := v_TotalStake u - mu_Amount msg\<rparr>"
  let ?e = "\<lparr>ue_DelegatorAddr = mu_DelegatorAddr msg, ue_ValidatorAddr = mu_ValidatorAddr msg,
    ue_Amount = mu_Amount msg, ue_MatureSlot = slot + 21 * EpochSlots\<rparr>"
  have "snd (Undelegate L s msg slot) = put_unbonding L (put_validator L s ?v) ?e"
    using assms Some by (simp add: Undelegate_def staking_reads Let_def put_unbonding_def ub_keyof_def)
  moreover have "staking_step L (op_guard L s (OpUndelegate msg slot)) s
      (put_unbonding L (put_validator L s ?v) ?e)"
    using Some addr by (intro staking_step.unbond) (auto simp: bond_kept_def ub_keyof_def)
  ultimately show ?thesis by simp
qed

lemma staking_exec_step:
  "staking_wf L s \<Longrightarrow> staking_step L (op_guard L s op) s (staking_exec L op s)"
  using Undelegate_step
  by (cases op) (auto simp: Register_step Delegate_step Unjail_step Missed_steps Slash_step intro: staking_step.mature)

lemma rows_put_total:
  "unbonding_rows L (put L t keyTotalStake j) = unbonding_rows L t"
  "validator_rows L (put L t keyTotalStake j) = validator_rows L t"
  by (simp_all add: unbonding_rows_def validator_rows_def ubT.all_rows_other valT.all_rows_other)

lemma put_unbonding_wf:
  "total_stake L (put_unbonding L s e) = total_stake L s"
  "validators L (put_unbonding L s e) = validators L s"
  "validator_rows L (put_unbonding L s e) = validator_rows L s"
  by (simp_all add: put_unbonding_def total_stake_other validators_other validator_rows_def valT.all_rows_other)

lemma unbonding_sum_put:
  "staking_wf L s \<Longrightarrow>
   sum_list (map ue_Amount (unbonding_rows L (put_unbonding L s e))) =
   sum_list (map ue_Amount (unbonding_rows L s)) - queued L s (ub_keyof e) + ue_Amount e"
  using ubT.sum_insert_row [of s ue_Amount e]
  by (simp add: staking_wf_def unbonding_rows_def put_unbonding_def queued_def)

lemma queued_none: "view L s k = None \<Longrightarrow> queued L s k = 0"
  by (simp add: queued_def row_def)

lemma queued_put_validator: "queued L (put_validator L s v) (ub_keyof e) = queued L s (ub_keyof e)"
  by (simp add: queued_def row_def put_validator_def ub_keyof_def)

text \<open>Queueing an entry and taking its amount from a validator.\<close>

lemma unbond_imbalance:
  assumes "staking_wf L s" "validators L s (v_Address v) = Some u" "v_TotalStake v = v_TotalStake u - ue_Amount e"
  shows "imbalance L (put_unbonding L (put_validator L s v) e) = imbalance L s + queued L s (ub_keyof e)"
  using assms
  by (simp add: imbalance_def put_unbonding_wf put_validator_wf stake_sum_put unbonding_sum_put staking_wf_put_validator
      queued_put_validator)

lemma staking_step_wf: "staking_step L g s t \<Longrightarrow> staking_wf L s \<Longrightarrow> staking_wf L t"
  by (induction rule: staking_step.induct)
    (simp_all add: put_stake_wf staking_wf_put_validator staking_wf_put_ub ProcessMature_wf
      staking_wf_put_total staking_wf_sweep)

lemma staking_step_only: "staking_step L g s t \<Longrightarrow> staking_wf L s \<Longrightarrow> only L staking_ns s t"
proof (induction rule: staking_step.induct)
  case (unbond s v u e g)
  then show ?case
    using put_validator_wf(3) by (simp add: put_unbonding_def only_put_trans)
next
  case (mature g s slot)
  then show ?case
    using only_mono [OF only_sweep, of staking_ns] by (simp add: ProcessMature_wf only_put_trans)
qed (simp_all add: put_stake_wf put_validator_wf)

lemma active_bonded_iff:
  "staking_wf L s \<Longrightarrow> active_bonded L s \<longleftrightarrow>
   (\<forall>a v. validators L s a = Some v \<longrightarrow> v_Status v = StatusActive \<longrightarrow> MinStake \<le>s v_Bond v)"
  using validator_rows_iff validators_address by (fastforce simp: active_bonded_def list_all_iff)

lemma active_bonded_upd:
  assumes "staking_wf L s" "staking_wf L t" "active_bonded L s" "bond_kept L s v"
    and "validators L t = (validators L s)(v_Address v \<mapsto> v)"
  shows "active_bonded L t"
proof -
  have old: "MinStake \<le>s v_Bond u" if "validators L s a = Some u" "v_Status u = StatusActive" for a u
    using assms(1,3) that by (auto simp: active_bonded_iff)
  have "MinStake \<le>s v_Bond v" if "v_Status v = StatusActive"
    using assms(4) that old [of "v_Address v"] by (auto simp: bond_kept_def split: option.splits)
  with old show ?thesis
    by (auto simp: active_bonded_iff [OF assms(2)] assms(5))
qed

lemma active_bonded_same:
  "validator_rows L t = validator_rows L s \<Longrightarrow> active_bonded L t \<longleftrightarrow> active_bonded L s"
  by (simp add: active_bonded_def)

lemma staking_step_active:
  assumes "staking_step L g s t" "staking_wf L s" "active_bonded L s"
  shows "active_bonded L t"
  using assms
proof (induction rule: staking_step.induct)
  case (restake d v s g)
  then show ?case by (blast intro: active_bonded_upd put_stake_wf)
next
  case (revise s v u g)
  then show ?case by (blast intro: active_bonded_upd staking_wf_put_validator validators_put)
next
  case (unbond s v u e g)
  then have "active_bonded L (put_validator L s v)"
    by (blast intro: active_bonded_upd staking_wf_put_validator validators_put)
  then show ?case by (simp add: active_bonded_same [OF put_unbonding_wf(3)])
next
  case (mature g s slot)
  then show ?case
    by (simp add: ProcessMature_wf active_bonded_def validators_sweep rows_put_total)
qed simp

lemma matured_sum:
  "sum_list (map ue_Amount (filter (\<lambda>e. \<not> ue_MatureSlot e \<le>s slot) (unbonding_rows L s))) =
   sum_list (map ue_Amount (unbonding_rows L s)) - matured L s slot"
  by (simp add: matured_def sum_list_filter_split)

lemma mature_imbalance:
  assumes "staking_wf L s"
  shows "imbalance L (snd (ProcessMatureUnbondings L s slot)) = imbalance L s + leak L s (OpProcessMature slot)"
proof -
  have "total_stake L (sweep L s slot) = total_stake L s"
    by (simp add: total_stake_def TotalStake_sweep)
  then show ?thesis
    using assms by (simp add: ProcessMature_wf imbalance_def total_stake_put validators_sweep rows_put_total
        unbonding_rows_sweep matured_sum)
qed

lemma staking_step_imbalance:
  assumes "staking_step L g s t" "staking_wf L s" "g"
  shows "imbalance L t = imbalance L s"
  using assms
proof (induction rule: staking_step.induct)
  case (restake d v s g)
  then show ?case by (simp add: imbalance_def put_stake_wf stake_sum_put)
next
  case (revise s v u g)
  then show ?case by (simp add: imbalance_def put_validator_wf stake_sum_put)
next
  case (unbond s v u e g)
  then show ?case by (simp add: unbond_imbalance queued_none)
next
  case (mature g s slot)
  then have "leak L s (OpProcessMature slot) = 0" by (auto simp: signed.not_less)
  with mature show ?case by (simp add: mature_imbalance)
qed simp

lemmas staking_exec_wf = staking_step_wf [OF staking_exec_step]
lemmas staking_exec_only = staking_step_only [OF staking_exec_step]

lemmas staking_exec_active = staking_step_active [OF staking_exec_step]

lemma staking_run_inv:
  "staking_wf L s \<Longrightarrow> active_bonded L s \<Longrightarrow>
   staking_wf L (staking_run L ops s) \<and> active_bonded L (staking_run L ops s)"
proof (induction ops arbitrary: s)
  case (Cons op ops)
  then show ?case using staking_exec_wf [of s op] staking_exec_active [of s op] by simp
qed simp

lemma Undelegate_imbalance:
  assumes "staking_wf L s"
  shows "imbalance L (snd (Undelegate L s msg slot)) = imbalance L s + leak L s (OpUndelegate msg slot)"
proof (cases "validators L s (mu_ValidatorAddr msg)")
  case None
  with assms show ?thesis by (simp add: Undelegate_def staking_reads)
next
  case (Some u)
  let ?v = "u\<lparr>v_TotalStake := v_TotalStake u - mu_Amount msg\<rparr>"
  let ?e = "\<lparr>ue_DelegatorAddr = mu_DelegatorAddr msg, ue_ValidatorAddr = mu_ValidatorAddr msg,
    ue_Amount = mu_Amount msg, ue_MatureSlot = slot + 21 * EpochSlots\<rparr>"
  have "snd (Undelegate L s msg slot) = put_unbonding L (put_validator L s ?v) ?e"
    using assms Some by (simp add: Undelegate_def staking_reads Let_def put_unbonding_def ub_keyof_def)
  then show ?thesis
    using assms Some validators_address [OF assms Some] by (simp add: unbond_imbalance ub_keyof_def)
qed

lemma staking_exec_imbalance:
  assumes "staking_wf L s"
  shows "imbalance L (staking_exec L op s) = imbalance L s + leak L s op"
  using assms staking_step_imbalance [OF staking_exec_step, of s op] Undelegate_imbalance mature_imbalance
  by (cases op) simp_all

lemma staking_run_imbalance:
  "staking_wf L s \<Longrightarrow> imbalance L (staking_run L ops s) = imbalance L s + leaked L s ops"
proof (induction ops arbitrary: s)
  case (Cons op ops)
  then show ?case using staking_exec_wf [of s op] staking_exec_imbalance [of s op] by simp
qed simp

lemma guard_leak: "op_guard L s op \<Longrightarrow> leak L s op = 0"
  by (cases op) (auto simp: queued_none signed.not_less)

lemma guard_leaked: "run_guard L s ops \<Longrightarrow> leaked L s ops = 0"
  by (induction ops arbitrary: s) (simp_all add: guard_leak)

end

lemmas [run_eval] = RegisterValidator_def Delegate_def Undelegate_def ProcessMatureUnbondings_def
  SlashBond_def Unjail_def IncrementMissed_def ResetMissed_def GetValidator_def putValidator_def
  addToTotalStake_def TotalStake_def slash_amount_def slash_validator_def matured_def
  unbonding_rows_def validator_rows_def mature_callback_def total_stake_def validators_def
  ListActive_def ListAll_def StatusActive_def StatusJailed_def StatusUnbonding_def
  stake_conserved_def active_bonded_def

lemma staking_wf_empty: "staking_wf list_db []"
  by (simp add: staking_wf_def wf_table_def TotalStake_def List.map_filter_simps view_list_db)

text \<open>The slashed amount without wrap-around.\<close>

lemma slash_amount_exact:
  assumes "0 \<le> sint bond" "0 \<le> sint bps" "sint bps \<le> 10000" "sint bond * sint bps < 2 ^ 63"
  shows "sint (slash_amount bond bps) = sint bond * sint bps div 10000"
    and "0 \<le> sint (slash_amount bond bps)" and "sint (slash_amount bond bps) \<le> sint bond"
proof -
  have nonneg: "0 \<le> sint bond * sint bps" using assms by simp
  have prod: "sint (bond * bps) = sint bond * sint bps"
    using assms nonneg by (intro sint64_mul) linarith+
  then have quot: "sint (idiv (bond * bps) 10000) = sint bond * sint bps div 10000"
    using nonneg by (simp add: sint64_idiv)
  have "sint bond * sint bps \<le> sint bond * 10000"
    using assms by (intro mult_left_mono) auto
  then have le: "sint bond * sint bps div 10000 \<le> sint bond"
    by linarith
  then show "sint (slash_amount bond bps) = sint bond * sint bps div 10000"
    using quot by (simp add: slash_amount_def Let_def word_sless_alt)
  with nonneg le show "0 \<le> sint (slash_amount bond bps)" "sint (slash_amount bond bps) \<le> sint bond"
    by simp_all
qed

section \<open>Properties\<close>

text \<open>A validator and a short history of calls on the empty reference database, for the witnesses.\<close>

definition example_register :: MsgRegisterValidator where
  "example_register = \<lparr>mr_Address = ''v1'', mr_ConsensusPubKey = ''pk'', mr_BLSPubKey = ''bls'',
    mr_Bond = 10000000000, mr_Commission = 500, mr_Moniker = ''m'', mr_RouterEndpoint = ''http''\<rparr>"

definition example_ops :: "staking_op list" where
  "example_ops =
    [OpRegister example_register 1000000000000,
     OpDelegate \<lparr>md_DelegatorAddr = ''d'', md_ValidatorAddr = ''v1'', md_Amount = 700\<rparr> 1,
     OpUndelegate \<lparr>mu_DelegatorAddr = ''d'', mu_ValidatorAddr = ''v1'', mu_Amount = 300\<rparr> 2,
     OpSlash ''v1'' 1000,
     OpProcessMature 302402]"

definition example_validator :: Validator where
  "example_validator = \<lparr>v_Address = ''v1'', v_ConsensusPubKey = ''pk'', v_BLSPubKey = ''bls'',
    v_Bond = 10000000000, v_TotalStake = 10000000700, v_Commission = 500, v_Status = StatusActive,
    v_Moniker = ''m'', v_RouterEndpoint = ''http'', v_ConsecutiveMissed = 0, v_LastActiveEpoch = 0,
    v_KESEpoch = 0\<rparr>"

definition example_db :: "(bytes \<times> json) list" where
  "example_db = staking_run list_db (take 2 example_ops) []"

lemma active_bonded_empty: "active_bonded list_db []"
  by (simp add: run_eval)

lemma example_db_wf: "staking_wf list_db example_db"
  using listdb.staking_run_inv [OF staking_wf_empty active_bonded_empty]
  by (simp add: example_db_def)

lemma example_db_validator:
  "validators list_db example_db = [''v1'' \<mapsto> example_validator]"
  by (rule ext) (simp add: example_db_def example_ops_def example_register_def example_validator_def run_eval keys)

lemma example_db_total: "total_stake list_db example_db = 10000000700"
  by (simp add: example_db_def example_ops_def example_register_def run_eval keys)

lemmas example_eval = example_db_validator example_db_total example_validator_def

text \<open>C7: Conservation of stake, with its leaks. Along every sequence of calls that change staking state, with any
  arguments and in 64-bit arithmetic, the difference between the recorded network total and the stake of all
  validators plus everything that is still unbonding changes by exactly the amounts of the queue entries that
  undelegations overwrite and of the sweeps whose sum is not positive. So as long as no unbonding lands on the key
  of an entry that is still queued and no sweep releases a negative sum, the network total remains equal to what the
  validators hold plus what is unbonding.\<close>

theorem staking_conservation:
  assumes "leveldb L" and "staking_wf L s"
  shows "imbalance L (staking_run L ops s) = imbalance L s + leaked L s ops \<and>
    (stake_conserved L s \<and> run_guard L s ops \<longrightarrow> stake_conserved L (staking_run L ops s))"
  using leveldb.staking_run_imbalance [OF assms] leveldb.guard_leaked [OF assms(1)] by (auto simp: stake_conserved_iff)

text \<open>A second undelegation in the slot of the first one leaks the first amount.\<close>

definition example_leak :: "staking_op list" where
  "example_leak = take 3 example_ops @
     [OpUndelegate \<lparr>mu_DelegatorAddr = ''d'', mu_ValidatorAddr = ''v1'', mu_Amount = 200\<rparr> 2]"

theorem staking_conservation_witness:
  "stake_conserved list_db (staking_run list_db example_ops []) \<and>
   total_stake list_db (staking_run list_db example_ops []) = 9000000400 \<and>
   imbalance list_db (staking_run list_db example_leak []) = 300"
proof -
  have g: "run_guard list_db [] example_ops"
    by (simp add: example_ops_def example_register_def run_eval keys)
  have c: "stake_conserved list_db []"
    by (simp add: run_eval)
  have t: "total_stake list_db (staking_run list_db example_ops []) = 9000000400"
    by (simp add: example_ops_def example_register_def run_eval keys)
  have "leaked list_db [] example_leak = 300"
    by (simp add: example_leak_def example_ops_def example_register_def queued_def row_def view_def run_eval keys)
  with g c t staking_conservation [OF listdb.leveldb_axioms staking_wf_empty, of example_ops]
    staking_conservation [OF listdb.leveldb_axioms staking_wf_empty, of example_leak]
  show ?thesis by (auto simp: stake_conserved_iff)
qed

text \<open>C8: No validator is active with less than the minimum stake. Every sequence of staking calls,
  whatever its arguments, keeps the store well formed and keeps the bond of every active validator
  at or above \<open>MinStake\<close>.\<close>

theorem active_validators_bonded:
  assumes "leveldb L" and "staking_wf L s" and "active_bonded L s"
  shows "staking_wf L (staking_run L ops s) \<and> active_bonded L (staking_run L ops s)"
  using assms by (rule leveldb.staking_run_inv)

theorem active_validators_bonded_witness:
  "active_bonded list_db [] \<and> active_bonded list_db (staking_run list_db example_ops []) \<and>
   validator_rows list_db (staking_run list_db example_ops []) \<noteq> []"
proof -
  have a: "active_bonded list_db []"
    by (rule active_bonded_empty)
  have "validator_rows list_db (staking_run list_db example_ops []) \<noteq> []"
    by (simp add: example_ops_def example_register_def run_eval keys)
  with a active_validators_bonded [OF listdb.leveldb_axioms staking_wf_empty a] show ?thesis
    by blast
qed

text \<open>C9: \<open>SlashBond\<close> is exact. For a registered validator with a non-negative bond, a fraction of
  0 to 10000 basis points and no overflow of their product, the call succeeds and takes exactly
  \<open>bond * bps div 10000\<close>: that amount leaves the bond, the validator's stake and the network total, the new bond
  lies between 0 and the old one, and the validator is jailed if and only if the new bond is below
  \<open>MinStake\<close>. No other field of the validator changes, and no key of the store is written but those of the validator
  and of the network total.\<close>

theorem SlashBond_exact:
  assumes "leveldb L" and "staking_wf L s" and "validators L s a = Some v"
    and "0 \<le> sint (v_Bond v)" and "0 \<le> sint bps" and "sint bps \<le> 10000"
    and "sint (v_Bond v) * sint bps < 2 ^ 63"
  shows "\<exists>amount bond t. SlashBond L s a bps = (Inr amount, t) \<and>
    sint amount = sint (v_Bond v) * sint bps div 10000 \<and>
    sint bond = sint (v_Bond v) - sint amount \<and> 0 \<le> sint bond \<and> sint bond \<le> sint (v_Bond v) \<and>
    validators L t = (validators L s)(a \<mapsto> v\<lparr>v_Bond := bond, v_TotalStake := v_TotalStake v - amount,
      v_Status := if bond <s MinStake then StatusJailed else v_Status v\<rparr>) \<and>
    total_stake L t = total_stake L s - amount \<and>
    (\<forall>k. k \<noteq> valKey a \<and> k \<noteq> keyTotalStake \<longrightarrow> view L t k = view L s k)"
proof -
  have db: "leveldb L" by (rule assms(1))
  let ?n = "slash_amount (v_Bond v) bps"
  let ?t = "put_stake L s (slash_validator v ?n) (- ?n)"
  note n = slash_amount_exact [OF assms(4-7)]
  have addr: "v_Address v = a"
    using db assms(2,3) by (rule leveldb.validators_address)
  have run: "SlashBond L s a bps = (Inr ?n, ?t)"
    using assms(2,3) by (simp add: SlashBond_def leveldb.staking_reads [OF db] Let_def)
  have bond: "sint (v_Bond v - ?n) = sint (v_Bond v) - sint ?n"
    using n sint64_bounds(2) [of "v_Bond v"] by (intro sint64_sub) linarith+
  have v: "slash_validator v ?n = v\<lparr>v_Bond := v_Bond v - ?n, v_TotalStake := v_TotalStake v - ?n,
      v_Status := if v_Bond v - ?n <s MinStake then StatusJailed else v_Status v\<rparr>"
    by (simp add: slash_validator_def Let_def)
  have "view L ?t k = view L s k" if "k \<noteq> valKey a" "k \<noteq> keyTotalStake" for k
    using that addr by (simp add: put_stake_def put_validator_def leveldb.view_put [OF db])
  then show ?thesis
    using run n bond addr leveldb.put_stake_wf(2,3) [OF db assms(2)] v
    by (intro exI [of _ ?n] exI [of _ "v_Bond v - ?n"] exI [of _ ?t]) auto
qed

theorem SlashBond_exact_witness:
  "\<exists>t v'. SlashBond list_db example_db ''v1'' 6000 = (Inr 6000000000, t) \<and>
    validators list_db t ''v1'' = Some v' \<and> v_Bond v' = 4000000000 \<and> v_Status v' = StatusJailed"
proof -
  have v: "validators list_db example_db ''v1'' = Some example_validator"
    by (simp add: example_db_validator)
  have h: "0 \<le> sint (v_Bond example_validator)" "0 \<le> sint (6000 :: int64)" "sint (6000 :: int64) \<le> 10000"
    "sint (v_Bond example_validator) * sint (6000 :: int64) < 2 ^ 63"
    by (simp_all add: example_validator_def)
  obtain amount bond t where r: "SlashBond list_db example_db ''v1'' 6000 = (Inr amount, t)"
    and amount: "sint amount = sint (v_Bond example_validator) * sint (6000 :: int64) div 10000"
    and bond: "sint bond = sint (v_Bond example_validator) - sint amount"
    and t: "validators list_db t = (validators list_db example_db)(''v1'' \<mapsto> example_validator\<lparr>v_Bond := bond,
      v_TotalStake := v_TotalStake example_validator - amount,
      v_Status := if bond <s MinStake then StatusJailed else v_Status example_validator\<rparr>)"
    using SlashBond_exact [OF listdb.leveldb_axioms example_db_wf v h] by blast
  have "sint amount = sint (6000000000 :: int64)" "sint bond = sint (4000000000 :: int64)"
    using amount bond by (simp_all add: example_validator_def)
  then have "amount = 6000000000" "bond = 4000000000"
    by (simp_all add: signed_word_eqI)
  with r t show ?thesis by (simp add: word_sless_alt MinStake_def)
qed

text \<open>The protocol rule for a bond, over unbounded integers.\<close>

definition bond_allowed :: "int \<Rightarrow> int \<Rightarrow> bool" where
  "bond_allowed bond supply \<longleftrightarrow> 5000000000 \<le> bond \<and> (0 < supply \<longrightarrow> 100 * bond \<le> 5 * supply)"

text \<open>C10: \<open>RegisterValidator\<close> accepts exactly the bonds the protocol allows, as long as \<open>100 * bond\<close>
  and \<open>5 * supply\<close> stay within \<open>int64\<close> (beyond that the cap fails, see
  \<open>RegisterValidator_cap_overflow\<close> below). A registration then succeeds if and only if the bond is at
  least \<open>MinStake\<close>, at most 5 percent of a positive supply, and the address is free; it adds exactly the
  active validator of the message, with its bond as its stake, raises the network total by the bond and writes nothing
  else. A refused registration leaves the store as it was.\<close>

theorem RegisterValidator_iff:
  assumes "leveldb L" and "staking_wf L s"
    and "\<bar>sint (mr_Bond msg) * 100\<bar> < 2 ^ 63" and "\<bar>sint supply * 5\<bar> < 2 ^ 63"
  shows "case RegisterValidator L s msg supply of
      (None, t) \<Rightarrow>
        bond_allowed (sint (mr_Bond msg)) (sint supply) \<and> validators L s (mr_Address msg) = None \<and>
        validators L t = (validators L s)(mr_Address msg \<mapsto>
          \<lparr>v_Address = mr_Address msg, v_ConsensusPubKey = mr_ConsensusPubKey msg, v_BLSPubKey = mr_BLSPubKey msg,
           v_Bond = mr_Bond msg, v_TotalStake = mr_Bond msg, v_Commission = mr_Commission msg, v_Status = StatusActive,
           v_Moniker = mr_Moniker msg, v_RouterEndpoint = mr_RouterEndpoint msg, v_ConsecutiveMissed = 0,
           v_LastActiveEpoch = 0, v_KESEpoch = 0\<rparr>) \<and>
        total_stake L t = total_stake L s + mr_Bond msg \<and>
        (\<forall>k. k \<noteq> valKey (mr_Address msg) \<and> k \<noteq> keyTotalStake \<longrightarrow> view L t k = view L s k)
    | (Some e, t) \<Rightarrow>
        (\<not> bond_allowed (sint (mr_Bond msg)) (sint supply) \<or> validators L s (mr_Address msg) \<noteq> None) \<and> t = s"
proof -
  have db: "leveldb L" by (rule assms(1))
  have mul: "sint (mr_Bond msg * 100) = sint (mr_Bond msg) * 100" "sint (supply * 5) = sint supply * 5"
    using assms(3,4) by (auto intro: sint64_mul [of _ 100, simplified] sint64_mul [of _ 5, simplified])
  have view: "view L (put_stake L s v d) k = view L s k" if "k \<noteq> valKey (v_Address v)" "k \<noteq> keyTotalStake" for v d k
    using that by (simp add: put_stake_def put_validator_def leveldb.view_put [OF db])
  show ?thesis
    using assms(2) leveldb.put_stake_wf(2,3) [OF db assms(2)]
    by (auto simp: RegisterValidator_def leveldb.staking_reads [OF db] Let_def bond_allowed_def view
        word_sless_alt MinStake_def MaxValidatorPct_def mul split: option.split)
qed

theorem RegisterValidator_iff_witness:
  "bond_allowed 10000000000 1000000000000 \<and>
   (case RegisterValidator list_db example_db (example_register\<lparr>mr_Address := ''v2''\<rparr>) 1000000000000 of
      (None, t) \<Rightarrow> total_stake list_db t = 20000000700
    | (Some e, t) \<Rightarrow> False)"
proof -
  have h: "\<bar>sint (mr_Bond (example_register\<lparr>mr_Address := ''v2''\<rparr>)) * 100\<bar> < 2 ^ 63"
    "\<bar>sint (1000000000000 :: int64) * 5\<bar> < 2 ^ 63"
    by (simp_all add: example_register_def)
  show ?thesis
    using RegisterValidator_iff [OF listdb.leveldb_axioms example_db_wf h]
    by (auto simp: example_eval example_register_def bond_allowed_def split: prod.splits option.splits)
qed

text \<open>The 5 percent cap does not hold for every bond: the product \<open>msg.Bond*100\<close> wraps, so a
  bond of 184467440737095517 uBIGT, more than 1800 times the whole supply of the genesis document,
  is registered as an active validator.\<close>

theorem RegisterValidator_cap_overflow:
  "let msg = example_register\<lparr>mr_Address := ''whale'', mr_Bond := 184467440737095517\<rparr>;
       supply = 100000000000000
   in \<not> bond_allowed (sint (mr_Bond msg)) (sint supply) \<and>
      fst (RegisterValidator list_db [] msg supply) = None \<and>
      map_option v_Bond (validators list_db (snd (RegisterValidator list_db [] msg supply)) ''whale'') =
        Some 184467440737095517"
  by (simp add: example_register_def bond_allowed_def run_eval keys)

text \<open>C11: \<open>ProcessMatureUnbondings\<close> releases exactly what is due. It returns the sum of the queued
  amounts whose maturity slot has come, removes exactly those entries, leaves every validator as it
  was and lowers the network total by a positive sum; run again at the same slot it releases nothing
  and changes no entry.\<close>

theorem ProcessMature_exact:
  assumes "leveldb L" and "staking_wf L s"
  shows "\<exists>t u. ProcessMatureUnbondings L s slot = (Inr (matured L s slot), t) \<and>
    unbonding_rows L t = filter (\<lambda>e. slot <s ue_MatureSlot e) (unbonding_rows L s) \<and>
    validator_rows L t = validator_rows L s \<and>
    total_stake L t = total_stake L s - (if 0 <s matured L s slot then matured L s slot else 0) \<and>
    ProcessMatureUnbondings L t slot = (Inr 0, u) \<and> unbonding_rows L u = unbonding_rows L t"
proof -
  have db: "leveldb L" by (rule assms(1))
  note L = leveldb.ProcessMature_wf [OF db] leveldb.unbonding_rows_sweep [OF db] leveldb.rows_put_total [OF db]
    leveldb.validators_sweep [OF db] leveldb.total_stake_put [OF db] leveldb.staking_wf_sweep [OF db]
    leveldb.staking_wf_put_total [OF db]
  have tot: "total_stake L (sweep L s slot) = total_stake L s"
    by (simp add: total_stake_def leveldb.TotalStake_sweep [OF db])
  define t where "t = snd (ProcessMatureUnbondings L s slot)"
  have t: "unbonding_rows L t = filter (\<lambda>e. slot <s ue_MatureSlot e) (unbonding_rows L s)" "staking_wf L t"
    using assms(2) by (auto simp: t_def L signed.not_le)
  then have "matured L t slot = 0"
    by (simp add: matured_def signed.not_le [symmetric])
  with t assms(2) tot show ?thesis
    by (auto simp: t_def L signed.not_le intro!: filter_True)
qed

theorem ProcessMature_exact_witness:
  "let s = staking_run list_db (take 3 example_ops) []
   in length (unbonding_rows list_db s) = 1 \<and>
      fst (ProcessMatureUnbondings list_db s 302402) = Inr 300 \<and>
      (\<exists>t. ProcessMatureUnbondings list_db s 302402 = (Inr 300, t) \<and> unbonding_rows list_db t = [])"
proof -
  define s where "s = staking_run list_db (take 3 example_ops) []"
  have wf: "staking_wf list_db s"
    using listdb.staking_run_inv [OF staking_wf_empty active_bonded_empty] by (simp add: s_def)
  have rows: "unbonding_rows list_db s =
      [\<lparr>ue_DelegatorAddr = ''d'', ue_ValidatorAddr = ''v1'', ue_Amount = 300, ue_MatureSlot = 302402\<rparr>]"
    by (simp add: s_def example_ops_def example_register_def run_eval keys)
  have "matured list_db s 302402 = 300"
    by (simp add: matured_def rows)
  with ProcessMature_exact [OF listdb.leveldb_axioms wf, of 302402] rows show ?thesis
    by (auto simp flip: s_def)
qed

text \<open>The leak of the conservation theorem is real: a delegator who undelegates twice from
  the same validator in the same slot overwrites the first queue entry, so that amount has left the
  validator but is never released, and the network total stays too high for ever.\<close>

theorem double_undelegation_loses_stake:
  "let ops = take 3 example_ops @
        [OpUndelegate \<lparr>mu_DelegatorAddr = ''d'', mu_ValidatorAddr = ''v1'', mu_Amount = 200\<rparr> 2,
         OpProcessMature 302402];
       t = staking_run list_db ops []
   in unbonding_rows list_db t = [] \<and>
      map v_TotalStake (validator_rows list_db t) = [10000000200] \<and>
      total_stake list_db t = 10000000500 \<and> \<not> stake_conserved list_db t"
  by (simp add: example_ops_def example_register_def run_eval keys)

text \<open>C12: \<open>Unjail\<close> re-activates exactly the jailed validators that hold the minimum bond, resetting
  their missed counter; every other call fails and leaves the store as it was.\<close>

theorem Unjail_iff:
  assumes "leveldb L" and "staking_wf L s"
  shows "case Unjail L s a of
      (None, t) \<Rightarrow> \<exists>v. validators L s a = Some v \<and> v_Status v = StatusJailed \<and> MinStake \<le>s v_Bond v \<and>
        validators L t = (validators L s)(a \<mapsto> v\<lparr>v_Status := StatusActive, v_ConsecutiveMissed := 0\<rparr>) \<and>
        total_stake L t = total_stake L s
    | (Some e, t) \<Rightarrow> t = s \<and>
        (\<forall>v. validators L s a = Some v \<longrightarrow> v_Status v \<noteq> StatusJailed \<or> v_Bond v <s MinStake)"
proof -
  have db: "leveldb L" by (rule assms(1))
  show ?thesis
    using assms(2) leveldb.validators_address [OF db assms(2), of a]
    by (auto simp: Unjail_def leveldb.staking_reads [OF db] leveldb.validators_put [OF db]
        leveldb.put_validator_wf [OF db] signed.not_less split: option.split)
qed

theorem Unjail_iff_witness:
  "let s = staking_run list_db [OpSlash ''v1'' 6000] example_db
   in (case Unjail list_db s ''v1'' of (None, t) \<Rightarrow> False | (Some e, t) \<Rightarrow> t = s) \<and>
      map_option v_Bond (validators list_db s ''v1'') = Some 4000000000"
proof -
  define s where "s = staking_run list_db [OpSlash ''v1'' 6000] example_db"
  have wf: "staking_wf list_db s"
    using listdb.staking_exec_wf [OF example_db_wf example_db_wf, of "OpSlash ''v1'' 6000"]
    by (simp add: s_def)
  have v: "validators list_db s ''v1'' =
      Some (example_validator\<lparr>v_Bond := 4000000000, v_TotalStake := 4000000700, v_Status := StatusJailed\<rparr>)"
    by (simp add: s_def example_db_def example_ops_def example_register_def example_validator_def run_eval keys)
  show ?thesis
    unfolding Let_def s_def [symmetric]
    using Unjail_iff [OF listdb.leveldb_axioms wf, of "''v1''"] v
    by (auto simp: word_sle_eq MinStake_def split: prod.splits option.splits)
qed

end
