(* ===== verification/Jobs.thy ===== *)
theory Jobs
  imports Store
begin

text \<open>
  chain/modules/jobs/jobs.go: the job pipeline (commit, reveal, output commitment, deadline) and the
  dispute records with their stake-weighted votes. Jobs are stored under \<open>job/\<close>, disputes under
  \<open>dispute/\<close>, both by job id. The state field is Go's integer with the constants of the source.
\<close>

section \<open>Data\<close>

type_synonym JobState = int64

definition JobCommitted :: JobState where "JobCommitted = 0"
definition JobRevealed :: JobState where "JobRevealed = 1"
definition JobServed :: JobState where "JobServed = 2"
definition JobDisputed :: JobState where "JobDisputed = 3"
definition JobReverted :: JobState where "JobReverted = 4"
definition JobFailed :: JobState where "JobFailed = 5"

record Job =
  j_JobID :: string
  j_ModelID :: string
  j_PromptHash :: bytes
  j_UserAddr :: string
  j_Prompt :: string
  j_Params :: JobParams
  j_State :: JobState
  j_Slot :: int64
  j_Server :: string
  j_Commitment :: "OutputCommitment option"

definition zero_Job :: Job where
  "zero_Job = \<lparr>j_JobID = [], j_ModelID = [], j_PromptHash = [], j_UserAddr = [],
    j_Prompt = [], j_Params = zero_JobParams, j_State = 0, j_Slot = 0,
    j_Server = [], j_Commitment = None\<rparr>"

definition Job_fields :: "Job fields" where
  "Job_fields =
    [(''job_id'', fld dec_string j_JobID j_JobID_update),
     (''model_id'', fld dec_string j_ModelID j_ModelID_update),
     (''prompt_hash'', fld HexBytes_UnmarshalJSON j_PromptHash j_PromptHash_update),
     (''user_addr'', fld dec_string j_UserAddr j_UserAddr_update),
     (''prompt'', fld dec_string j_Prompt j_Prompt_update),
     (''params'', fld (dec_struct JobParams_fields) j_Params j_Params_update),
     (''state'', fld dec_int64 j_State j_State_update),
     (''slot'', fld dec_int64 j_Slot j_Slot_update),
     (''server'', fld dec_string j_Server j_Server_update),
     (''commitment'', fld (dec_ptr OutputCommitment_fields zero_OutputCommitment) j_Commitment j_Commitment_update)]"

definition enc_Job :: "Job \<Rightarrow> json" where
  "enc_Job x = JObj
    [(''job_id'', JStr (j_JobID x)),
     (''model_id'', JStr (j_ModelID x)),
     (''prompt_hash'', HexBytes_MarshalJSON (j_PromptHash x)),
     (''user_addr'', JStr (j_UserAddr x)),
     (''prompt'', JStr (j_Prompt x)),
     (''params'', enc_JobParams (j_Params x)),
     (''state'', enc_int64 (j_State x)),
     (''slot'', enc_int64 (j_Slot x)),
     (''server'', JStr (j_Server x)),
     (''commitment'', enc_ptr enc_OutputCommitment (j_Commitment x))]"

record DisputeRecord =
  dr_JobID :: string
  dr_ServingValidator :: string
  dr_DisputerAddr :: string
  dr_DisputeType :: string
  dr_ExpiresAtSlot :: int64
  dr_VoteDeadline :: int64
  dr_Resolved :: bool
  dr_VotesUphold :: int64
  dr_VotesDismiss :: int64
  dr_Voters :: bool_map
  dr_Immediate :: bool

definition zero_DisputeRecord :: DisputeRecord where
  "zero_DisputeRecord = \<lparr>dr_JobID = [], dr_ServingValidator = [], dr_DisputerAddr = [], dr_DisputeType = [],
    dr_ExpiresAtSlot = 0, dr_VoteDeadline = 0, dr_Resolved = False, dr_VotesUphold = 0,
    dr_VotesDismiss = 0, dr_Voters = None, dr_Immediate = False\<rparr>"

definition DisputeRecord_fields :: "DisputeRecord fields" where
  "DisputeRecord_fields =
    [(''job_id'', fld dec_string dr_JobID dr_JobID_update),
     (''serving_validator'', fld dec_string dr_ServingValidator dr_ServingValidator_update),
     (''disputer_addr'', fld dec_string dr_DisputerAddr dr_DisputerAddr_update),
     (''dispute_type'', fld dec_string dr_DisputeType dr_DisputeType_update),
     (''expires_at_slot'', fld dec_int64 dr_ExpiresAtSlot dr_ExpiresAtSlot_update),
     (''vote_deadline'', fld dec_int64 dr_VoteDeadline dr_VoteDeadline_update),
     (''resolved'', fld dec_bool dr_Resolved dr_Resolved_update),
     (''votes_uphold'', fld dec_int64 dr_VotesUphold dr_VotesUphold_update),
     (''votes_dismiss'', fld dec_int64 dr_VotesDismiss dr_VotesDismiss_update),
     (''voters'', fld dec_bool_map dr_Voters dr_Voters_update),
     (''immediate'', fld dec_bool dr_Immediate dr_Immediate_update)]"

definition enc_DisputeRecord :: "DisputeRecord \<Rightarrow> json" where
  "enc_DisputeRecord x = JObj
    [(''job_id'', JStr (dr_JobID x)),
     (''serving_validator'', JStr (dr_ServingValidator x)),
     (''disputer_addr'', JStr (dr_DisputerAddr x)),
     (''dispute_type'', JStr (dr_DisputeType x)),
     (''expires_at_slot'', enc_int64 (dr_ExpiresAtSlot x)),
     (''vote_deadline'', enc_int64 (dr_VoteDeadline x)),
     (''resolved'', JBool (dr_Resolved x)),
     (''votes_uphold'', enc_int64 (dr_VotesUphold x)),
     (''votes_dismiss'', enc_int64 (dr_VotesDismiss x)),
     (''voters'', enc_bool_map (dr_Voters x)),
     (''immediate'', JBool (dr_Immediate x))]"

section \<open>Keys and lookups\<close>

definition jobPrefix :: bytes where "jobPrefix = ''job/''"
definition disputePrefix :: bytes where "disputePrefix = ''dispute/''"

definition jobKey :: "string \<Rightarrow> bytes" where
  "jobKey jid = jobPrefix @ jid"

definition disputeKey :: "string \<Rightarrow> bytes" where
  "disputeKey jobID = ''dispute/'' @ jobID"

definition GetJob :: "'db db_api \<Rightarrow> 'db \<Rightarrow> string \<Rightarrow> error + Job option" where
  "GetJob L s jid = get_doc L Job_fields zero_Job s (jobKey jid)"

definition putJob :: "'db db_api \<Rightarrow> 'db \<Rightarrow> Job \<Rightarrow> 'db outcome" where
  "putJob L s j = store_Set L s (jobKey (j_JobID j)) (enc_Job j)"

definition GetDispute :: "'db db_api \<Rightarrow> 'db \<Rightarrow> string \<Rightarrow> error + DisputeRecord option" where
  "GetDispute L s jobID = get_doc L DisputeRecord_fields zero_DisputeRecord s (disputeKey jobID)"

definition ListOpenDisputes :: "'db db_api \<Rightarrow> 'db \<Rightarrow> int64 \<Rightarrow> DisputeRecord list \<times> error option" where
  "ListOpenDisputes L s currentSlot =
    store_Scan L s disputePrefix
      (\<lambda>_ val disputes.
         case unmarshal DisputeRecord_fields zero_DisputeRecord (Some val) of
           None \<Rightarrow> (False, disputes)
         | Some d \<Rightarrow>
             (True, if \<not> dr_Resolved d \<and> dr_VoteDeadline d \<le>s currentSlot
                    then disputes @ [d] else disputes)) []"

definition ComputeOutputHash :: "hash_fn \<Rightarrow> bytes \<Rightarrow> string \<Rightarrow> string \<Rightarrow> bytes" where
  "ComputeOutputHash keccak outputTokens jobID validatorPubKey =
    Keccak256 keccak [outputTokens, jobID, validatorPubKey]"

section \<open>The job pipeline\<close>

definition jobs_Commit :: "'db db_api \<Rightarrow> 'db \<Rightarrow> JobRequest \<Rightarrow> int64 \<Rightarrow> string \<Rightarrow> 'db outcome" where
  "jobs_Commit L s req slot server =
    (case GetJob L s (jr_JobID req) of
       Inl e \<Rightarrow> (Some e, s)
     | Inr (Some existing) \<Rightarrow> (Some (Errorf ''job %s already exists'' [AStr (jr_JobID req)]), s)
     | Inr None \<Rightarrow>
         putJob L s \<lparr>j_JobID = jr_JobID req, j_ModelID = jr_ModelID req,
           j_PromptHash = jr_PromptHash req, j_UserAddr = jr_UserAddr req, j_Prompt = [],
           j_Params = jr_Params req, j_State = JobCommitted, j_Slot = slot, j_Server = server,
           j_Commitment = None\<rparr>)"

definition Reveal :: "'db db_api \<Rightarrow> hash_fn \<Rightarrow> 'db \<Rightarrow> RevealTx \<Rightarrow> 'db outcome" where
  "Reveal L keccak s rv =
    (case GetJob L s (rv_JobID rv) of
       Inl e \<Rightarrow> (Some e, s)
     | Inr None \<Rightarrow> (Some (Errorf ''job %s not found'' [AStr (rv_JobID rv)]), s)
     | Inr (Some j) \<Rightarrow>
         if j_State j \<noteq> JobCommitted
         then (Some (Errorf ''job %s not in committed state (got %d)''
                 [AStr (rv_JobID rv), AInt (j_State j)]), s)
         else
           (case RevealTx_Validate keccak rv (j_PromptHash j) of
             Some e \<Rightarrow> (Some (Errorf ''reveal validation failed for job %s: %w''
                         [AStr (rv_JobID rv), AErr e]), s)
           | None \<Rightarrow> putJob L s (j\<lparr>j_Prompt := rv_Prompt rv, j_State := JobRevealed\<rparr>)))"

definition AddCommitment :: "'db db_api \<Rightarrow> 'db \<Rightarrow> OutputCommitment \<Rightarrow> 'db outcome" where
  "AddCommitment L s c =
    (case GetJob L s (oc_JobID c) of
       Inl e \<Rightarrow> (Some e, s)
     | Inr None \<Rightarrow> (Some (Errorf ''job %s not found'' [AStr (oc_JobID c)]), s)
     | Inr (Some j) \<Rightarrow>
         if j_State j \<noteq> JobRevealed
         then (Some (Errorf ''job %s not in revealed state'' [AStr (oc_JobID c)]), s)
         else if oc_ValidatorAddr c \<noteq> j_Server j
         then (Some (Errorf ''validator %s is not the elected server for job %s (expected %s)''
                 [AStr (oc_ValidatorAddr c), AStr (oc_JobID c), AStr (j_Server j)]), s)
         else if j_Commitment j \<noteq> None
         then (Some (Errorf ''equivocation: duplicate commitment from server %s for job %s''
                 [AStr (oc_ValidatorAddr c), AStr (oc_JobID c)]), s)
         else putJob L s (j\<lparr>j_Commitment := Some c, j_State := JobServed\<rparr>))"

text \<open>The callback of \<open>FinaliseSlot\<close> captures the two results and writes failed jobs back to the
  store while the scan runs over its snapshot; an error of that write is dropped.\<close>

definition finalise_callback ::
  "'db db_api \<Rightarrow> int64 \<Rightarrow> bytes \<Rightarrow> json \<Rightarrow> string list \<times> (string, bool) fmap \<times> 'db \<Rightarrow>
    bool \<times> (string list \<times> (string, bool) fmap \<times> 'db)" where
  "finalise_callback L slot key val acc =
    (case acc of (committed, missed, s) \<Rightarrow>
       (case unmarshal Job_fields zero_Job (Some val) of
          None \<Rightarrow> (False, (committed, missed, s))
        | Some j \<Rightarrow>
            if j_Slot j \<noteq> slot then (True, (committed, missed, s))
            else if j_Commitment j \<noteq> None then (True, (committed @ [j_Server j], missed, s))
            else if j_State j = JobRevealed
            then (True, (committed, fmupd (j_Server j) True missed,
                         snd (putJob L s (j\<lparr>j_State := JobFailed\<rparr>))))
            else (True, (committed, missed, s))))"

definition FinaliseSlot ::
  "'db db_api \<Rightarrow> 'db \<Rightarrow> int64 \<Rightarrow> (string list \<times> (string, bool) fmap \<times> error option) \<times> 'db" where
  "FinaliseSlot L s slot =
    (case store_Scan L s jobPrefix (finalise_callback L slot) ([], fmempty, s) of
       ((committed, missed, s), err) \<Rightarrow> ((committed, missed, err), s))"

section \<open>Disputes\<close>

definition OpenDispute ::
  "'db db_api \<Rightarrow> 'db \<Rightarrow> string \<Rightarrow> string \<Rightarrow> string \<Rightarrow> string \<Rightarrow> int64 \<Rightarrow> bool \<Rightarrow> 'db outcome" where
  "OpenDispute L s jobID serverAddr disputerAddr disputeType currentSlot immediate =
    (let d = \<lparr>dr_JobID = jobID, dr_ServingValidator = serverAddr, dr_DisputerAddr = disputerAddr,
              dr_DisputeType = disputeType, dr_ExpiresAtSlot = currentSlot + DisputeWindow,
              dr_VoteDeadline = currentSlot + DisputeWindow + VoteWindow, dr_Resolved = immediate,
              dr_VotesUphold = 0, dr_VotesDismiss = 0, dr_Voters = Some fmempty,
              dr_Immediate = immediate\<rparr>
     in case GetJob L s jobID of
          Inl e \<Rightarrow> (Some e, s)
        | Inr None \<Rightarrow> store_Set L s (disputeKey jobID) (enc_DisputeRecord d)
        | Inr (Some j) \<Rightarrow>
            (case putJob L s (j\<lparr>j_State := JobDisputed\<rparr>) of
               (Some e, s) \<Rightarrow> (Some e, s)
             | (None, s) \<Rightarrow> store_Set L s (disputeKey jobID) (enc_DisputeRecord d)))"

text \<open>The votes counted for a record: the voter is marked and the stake goes to one side. Reading a
  nil map gives false, writing to it is a panic.\<close>

definition jobs_CastVote ::
  "'db db_api \<Rightarrow> 'db \<Rightarrow> string \<Rightarrow> string \<Rightarrow> string \<Rightarrow> int64 \<Rightarrow> 'db outcome" where
  "jobs_CastVote L s jobID voterAddr vote voterStake =
    (case GetDispute L s jobID of
       Inl e \<Rightarrow> (Some e, s)
     | Inr None \<Rightarrow> (Some (Errorf ''no dispute found for job %s'' [AStr jobID]), s)
     | Inr (Some d) \<Rightarrow>
         if dr_Resolved d
         then (Some (Errorf ''dispute for job %s already resolved'' [AStr jobID]), s)
         else
           (case dr_Voters d of
              None \<Rightarrow> (Some (GoPanic ''assignment to entry in nil map''), s)
            | Some voters \<Rightarrow>
                if fmlookup voters voterAddr = Some True
                then (Some (Errorf ''validator %s already voted on dispute for job %s''
                        [AStr voterAddr, AStr jobID]), s)
                else
                  let d = d\<lparr>dr_Voters := Some (fmupd voterAddr True voters)\<rparr>
                  in if vote = ''uphold''
                     then store_Set L s (disputeKey jobID)
                            (enc_DisputeRecord (d\<lparr>dr_VotesUphold := dr_VotesUphold d + voterStake\<rparr>))
                     else if vote = ''dismiss''
                     then store_Set L s (disputeKey jobID)
                            (enc_DisputeRecord (d\<lparr>dr_VotesDismiss := dr_VotesDismiss d + voterStake\<rparr>))
                     else (Some (Errorf ''invalid vote: %s (expected uphold or dismiss)'' [AStr vote]), s)))"

definition ResolveDispute :: "'db db_api \<Rightarrow> 'db \<Rightarrow> string \<Rightarrow> 'db outcome" where
  "ResolveDispute L s jobID =
    (case GetDispute L s jobID of
       Inl e \<Rightarrow> (Some e, s)
     | Inr None \<Rightarrow> (Some (Errorf ''no dispute found for job %s'' [AStr jobID]), s)
     | Inr (Some d) \<Rightarrow>
         store_Set L s (disputeKey jobID) (enc_DisputeRecord (d\<lparr>dr_Resolved := True\<rparr>)))"

definition RevertJob :: "'db db_api \<Rightarrow> 'db \<Rightarrow> string \<Rightarrow> ('db, Job) outcome1" where
  "RevertJob L s jobID =
    (case GetJob L s jobID of
       Inl e \<Rightarrow> (Inl e, s)
     | Inr None \<Rightarrow> (Inl (Errorf ''job %s not found'' [AStr jobID]), s)
     | Inr (Some j) \<Rightarrow>
         let j = j\<lparr>j_State := JobReverted, j_Commitment := None\<rparr>
         in (case putJob L s j of
               (Some e, s) \<Rightarrow> (Inl e, s)
             | (None, s) \<Rightarrow> (Inr j, s)))"

section \<open>Codec round trips\<close>

lemma enc_Job_not_null [simp]: "enc_Job x \<noteq> JNull"
  by (simp add: enc_Job_def)

lemma Job_roundtrip [simp, codec]: "dec_struct Job_fields (enc_Job x) zero_Job = Some x"
  by (simp add: dec_struct_JObj find_field_def fld_def Job_fields_def enc_Job_def zero_Job_def dec_enc_ptr)

lemma enc_DisputeRecord_not_null [simp]: "enc_DisputeRecord x \<noteq> JNull"
  by (simp add: enc_DisputeRecord_def)

lemma DisputeRecord_roundtrip [simp, codec]: "dec_struct DisputeRecord_fields (enc_DisputeRecord x) zero_DisputeRecord = Some x"
  by (simp add: dec_struct_JObj find_field_def fld_def DisputeRecord_fields_def enc_DisputeRecord_def zero_DisputeRecord_def)

section \<open>The state of the module\<close>

definition jobs :: "'db db_api \<Rightarrow> 'db \<Rightarrow> string \<rightharpoonup> Job" where
  "jobs L s jid = row L Job_fields zero_Job s (jobKey jid)"

definition disputes :: "'db db_api \<Rightarrow> 'db \<Rightarrow> string \<rightharpoonup> DisputeRecord" where
  "disputes L s jid = row L DisputeRecord_fields zero_DisputeRecord s (disputeKey jid)"

definition job_rows :: "'db db_api \<Rightarrow> 'db \<Rightarrow> Job list" where
  "job_rows L s = rows L Job_fields zero_Job s jobPrefix"

definition dispute_rows :: "'db db_api \<Rightarrow> 'db \<Rightarrow> DisputeRecord list" where
  "dispute_rows L s = rows L DisputeRecord_fields zero_DisputeRecord s disputePrefix"

definition jobs_wf :: "'db db_api \<Rightarrow> 'db \<Rightarrow> bool" where
  "jobs_wf L s \<longleftrightarrow>
    wf_table L jobPrefix (\<lambda>j. jobKey (j_JobID j)) enc_Job Job_fields zero_Job s \<and>
    wf_table L disputePrefix (\<lambda>d. disputeKey (dr_JobID d)) enc_DisputeRecord DisputeRecord_fields
      zero_DisputeRecord s"

definition put_job :: "'db db_api \<Rightarrow> 'db \<Rightarrow> Job \<Rightarrow> 'db" where
  "put_job L s j = put L s (jobKey (j_JobID j)) (enc_Job j)"

definition put_dispute :: "'db db_api \<Rightarrow> 'db \<Rightarrow> DisputeRecord \<Rightarrow> 'db" where
  "put_dispute L s d = put L s (disputeKey (dr_JobID d)) (enc_DisputeRecord d)"

abbreviation "jobs_ns \<equiv> {''job'', ''dispute''}"

lemmas [keys] = jobKey_def disputeKey_def jobPrefix_def disputePrefix_def

lemma job_namespaces [simp]:
  "namespace (jobKey a) = ''job''" "namespace (disputeKey a) = ''dispute''"
  "namespace jobPrefix = ''job''" "namespace disputePrefix = ''dispute''"
  "jobPrefix \<noteq> []" "last jobPrefix = CHR ''/''" "disputePrefix \<noteq> []" "last disputePrefix = CHR ''/''"
  by (simp_all add: namespace_def keys)

lemma job_keys [simp]:
  "jobKey a = jobKey b \<longleftrightarrow> a = b" "disputeKey a = disputeKey b \<longleftrightarrow> a = b"
  "prefix jobPrefix (jobKey a)" "prefix disputePrefix (disputeKey a)"
  "jobKey a \<noteq> disputeKey b" "disputeKey b \<noteq> jobKey a"
  "\<not> prefix jobPrefix (disputeKey a)" "\<not> prefix disputePrefix (jobKey a)"
  by (simp_all add: keys)

sublocale leveldb \<subseteq> jobT: table L jobPrefix "\<lambda>j. jobKey (j_JobID j)" enc_Job Job_fields zero_Job
  by unfold_locales simp_all

sublocale leveldb \<subseteq> disT: table L disputePrefix "\<lambda>d. disputeKey (dr_JobID d)" enc_DisputeRecord
    DisputeRecord_fields zero_DisputeRecord
  by unfold_locales simp_all

context leveldb
begin

lemma GetJob_wf: "jobs_wf L s \<Longrightarrow> GetJob L s a = Inr (jobs L s a)"
  by (simp add: jobs_wf_def GetJob_def jobs_def jobT.get_doc_row)

lemma GetDispute_wf: "jobs_wf L s \<Longrightarrow> GetDispute L s a = Inr (disputes L s a)"
  by (simp add: jobs_wf_def GetDispute_def disputes_def disT.get_doc_row)

lemma putJob_put: "putJob L s j = (None, put_job L s j)"
  by (simp add: putJob_def put_job_def)

lemma jobs_id: "jobs_wf L s \<Longrightarrow> jobs L s a = Some j \<Longrightarrow> j_JobID j = a"
  using jobT.lookup_keyof [of s "jobKey a" j] by (simp add: jobs_wf_def jobs_def)

lemma disputes_id: "jobs_wf L s \<Longrightarrow> disputes L s a = Some d \<Longrightarrow> dr_JobID d = a"
  using disT.lookup_keyof [of s "disputeKey a" d] by (simp add: jobs_wf_def disputes_def)

lemma store_Set_dispute:
  "jobs_wf L s \<Longrightarrow> disputes L s a = Some d \<Longrightarrow> dr_JobID d' = dr_JobID d \<Longrightarrow>
   put L t (disputeKey a) (enc_DisputeRecord d') = put_dispute L t d'"
  using disputes_id [of s a d] by (simp add: put_dispute_def)

lemma put_job_wf:
  assumes "jobs_wf L s"
  shows "jobs_wf L (put_job L s j)"
    and "jobs L (put_job L s j) = (jobs L s)(j_JobID j \<mapsto> j)"
    and "disputes L (put_job L s j) = disputes L s"
    and "only L {''job''} s (put_job L s j)"
  using assms
  by (auto simp: put_job_def jobs_wf_def jobT.wf_insert disT.wf_other jobs_def jobT.lookup_insert
      disputes_def row_def only_put)

lemma put_dispute_wf:
  assumes "jobs_wf L s"
  shows "jobs_wf L (put_dispute L s d)"
    and "disputes L (put_dispute L s d) = (disputes L s)(dr_JobID d \<mapsto> d)"
    and "jobs L (put_dispute L s d) = jobs L s"
    and "only L {''dispute''} s (put_dispute L s d)"
  using assms
  by (auto simp: put_dispute_def jobs_wf_def disT.wf_insert jobT.wf_other disputes_def disT.lookup_insert
      jobs_def row_def only_put)

lemma job_rows_iff: "jobs_wf L s \<Longrightarrow> j \<in> set (job_rows L s) \<longleftrightarrow> jobs L s (j_JobID j) = Some j"
  by (simp add: jobs_wf_def job_rows_def jobs_def jobT.set_all_rows)

lemma dispute_rows_iff:
  "jobs_wf L s \<Longrightarrow> d \<in> set (dispute_rows L s) \<longleftrightarrow> disputes L s (dr_JobID d) = Some d"
  by (simp add: jobs_wf_def dispute_rows_def disputes_def disT.set_all_rows)

lemma distinct_job_rows: "jobs_wf L s \<Longrightarrow> distinct (map j_JobID (job_rows L s))"
  using jobT.distinct_all_rows [of s] by (auto simp: jobs_wf_def job_rows_def distinct_map inj_on_def)

lemma distinct_dispute_rows: "jobs_wf L s \<Longrightarrow> distinct (map dr_JobID (dispute_rows L s))"
  using disT.distinct_all_rows [of s] by (auto simp: jobs_wf_def dispute_rows_def distinct_map inj_on_def)

lemma jobs_only:
  assumes "only L N s t" "N \<inter> jobs_ns = {}"
  shows "jobs_wf L t \<longleftrightarrow> jobs_wf L s" and "jobs L t = jobs L s" and "disputes L t = disputes L s"
  using assms jobT.only_table(1,3) [OF assms(1)] disT.only_table(1,3) [OF assms(1)]
  by (auto simp: jobs_wf_def jobs_def disputes_def fun_eq_iff)

lemmas jobs_reads = GetJob_wf GetDispute_wf putJob_put

lemma ListOpenDisputes_wf:
  assumes "jobs_wf L s"
  shows "ListOpenDisputes L s slot =
    (filter (\<lambda>d. \<not> dr_Resolved d \<and> dr_VoteDeadline d \<le>s slot) (dispute_rows L s), None)"
proof -
  let ?p = "\<lambda>d. \<not> dr_Resolved d \<and> dr_VoteDeadline d \<le>s slot"
  have "fst (ListOpenDisputes L s slot) = fold (\<lambda>d r. if ?p d then r @ [d] else r) (dispute_rows L s) []"
    unfolding ListOpenDisputes_def store_Scan_iter fst_conv dispute_rows_def
    by (rule disT.scan_rows) (use assms in \<open>simp_all add: jobs_wf_def unmarshal_def\<close>)
  also have "fold (\<lambda>d r. if ?p d then r @ [d] else r) ds r = r @ filter ?p ds" for ds r
    by (induction ds arbitrary: r) auto
  finally show ?thesis by (simp add: ListOpenDisputes_def)
qed

end

section \<open>The life of a job\<close>

text \<open>The steps a stored job can take. The fields that identify the work (id, model, prompt hash, user,
  parameters, slot, server) never change.\<close>

inductive job_trans :: "hash_fn \<Rightarrow> Job \<Rightarrow> Job \<Rightarrow> bool" for keccak where
  reveal: "j_State j = JobCommitted \<Longrightarrow> prefix (keccak (p @ n)) (j_PromptHash j) \<Longrightarrow>
    job_trans keccak j (j\<lparr>j_Prompt := p, j_State := JobRevealed\<rparr>)"
| serve: "j_State j = JobRevealed \<Longrightarrow> j_Commitment j = None \<Longrightarrow> oc_JobID c = j_JobID j \<Longrightarrow>
    oc_ValidatorAddr c = j_Server j \<Longrightarrow> job_trans keccak j (j\<lparr>j_Commitment := Some c, j_State := JobServed\<rparr>)"
| miss: "j_State j = JobRevealed \<Longrightarrow> j_Commitment j = None \<Longrightarrow>
    job_trans keccak j (j\<lparr>j_State := JobFailed\<rparr>)"
| dispute: "job_trans keccak j (j\<lparr>j_State := JobDisputed\<rparr>)"
| revert: "job_trans keccak j (j\<lparr>j_State := JobReverted, j_Commitment := None\<rparr>)"

text \<open>A step of the store: a job is created, a job advances, or a dispute is written.\<close>

inductive jobs_step :: "'db db_api \<Rightarrow> hash_fn \<Rightarrow> 'db \<Rightarrow> 'db \<Rightarrow> bool" for L keccak where
  create: "jobs L s (j_JobID j) = None \<Longrightarrow> j_State j = JobCommitted \<Longrightarrow> j_Commitment j = None \<Longrightarrow>
    jobs_step L keccak s (put_job L s j)"
| advance: "jobs L s (j_JobID j) = Some j \<Longrightarrow> job_trans keccak j j' \<Longrightarrow> jobs_step L keccak s (put_job L s j')"
| record_dispute: "dr_Voters d \<noteq> None \<or> map_option dr_Voters (disputes L s (dr_JobID d)) = Some (dr_Voters d) \<Longrightarrow>
    jobs_step L keccak s (put_dispute L s d)"

abbreviation jobs_steps :: "'db db_api \<Rightarrow> hash_fn \<Rightarrow> 'db \<Rightarrow> 'db \<Rightarrow> bool" where
  "jobs_steps L keccak \<equiv> (jobs_step L keccak)\<^sup>*\<^sup>*"

inductive_cases job_transE: "job_trans keccak j j'"

text \<open>What every stored job satisfies: the output commitment is there exactly while the state says so
  (a disputed job may have one), it is about this job and it comes from the elected server.\<close>

definition job_ok :: "Job \<Rightarrow> bool" where
  "job_ok j \<longleftrightarrow>
    j_State j \<in> {JobCommitted, JobRevealed, JobServed, JobDisputed, JobReverted, JobFailed} \<and>
    (j_State j \<in> {JobCommitted, JobRevealed, JobReverted, JobFailed} \<longrightarrow> j_Commitment j = None) \<and>
    (j_State j = JobServed \<longrightarrow> j_Commitment j \<noteq> None) \<and>
    (case j_Commitment j of None \<Rightarrow> True
     | Some c \<Rightarrow> oc_ValidatorAddr c = j_Server j \<and> oc_JobID c = j_JobID j)"

definition prompt_ok :: "hash_fn \<Rightarrow> Job \<Rightarrow> bool" where
  "prompt_ok keccak j \<longleftrightarrow>
    (j_State j \<in> {JobRevealed, JobServed, JobFailed} \<longrightarrow>
     (\<exists>nonce. prefix (keccak (j_Prompt j @ nonce)) (j_PromptHash j)))"

definition same_work :: "Job \<Rightarrow> Job \<Rightarrow> bool" where
  "same_work j j' \<longleftrightarrow>
    j_JobID j' = j_JobID j \<and> j_ModelID j' = j_ModelID j \<and> j_PromptHash j' = j_PromptHash j \<and>
    j_UserAddr j' = j_UserAddr j \<and> j_Params j' = j_Params j \<and> j_Slot j' = j_Slot j \<and>
    j_Server j' = j_Server j"

lemmas job_states =
  JobCommitted_def JobRevealed_def JobServed_def JobDisputed_def JobReverted_def JobFailed_def

lemma job_trans_ok: "job_trans keccak j j' \<Longrightarrow> job_ok j \<Longrightarrow> job_ok j'"
  by (induction rule: job_trans.induct) (auto simp: job_ok_def job_states split: option.splits)

lemma job_trans_prompt: "job_trans keccak j j' \<Longrightarrow> prompt_ok keccak j \<Longrightarrow> prompt_ok keccak j'"
  by (induction rule: job_trans.induct) (auto simp: prompt_ok_def job_states)

lemma job_trans_same: "job_trans keccak j j' \<Longrightarrow> same_work j j'"
  by (induction rule: job_trans.induct) (simp_all add: same_work_def)

lemma job_trans_id: "job_trans keccak j j' \<Longrightarrow> j_JobID j' = j_JobID j"
  using job_trans_same by (simp add: same_work_def)

lemma job_trans_state: "job_trans keccak j j' \<Longrightarrow> j_State j' \<noteq> JobCommitted"
  by (induction rule: job_trans.induct) (simp_all add: job_states)

definition late :: "int64 \<Rightarrow> Job \<Rightarrow> bool" where
  "late slot j \<longleftrightarrow> j_Slot j = slot \<and> j_Commitment j = None \<and> j_State j = JobRevealed"

definition finalise_job :: "int64 \<Rightarrow> Job \<Rightarrow> Job" where
  "finalise_job slot j = (if late slot j then j\<lparr>j_State := JobFailed\<rparr> else j)"

text \<open>The voters of every stored dispute are a map that can be written, so that no vote panics.\<close>

definition voters_ok :: "'db db_api \<Rightarrow> 'db \<Rightarrow> bool" where
  "voters_ok L s \<longleftrightarrow> list_all (\<lambda>d. dr_Voters d \<noteq> None) (dispute_rows L s)"

definition all_jobs :: "'db db_api \<Rightarrow> (Job \<Rightarrow> bool) \<Rightarrow> 'db \<Rightarrow> bool" where
  "all_jobs L P s \<longleftrightarrow> list_all P (job_rows L s)"

datatype jobs_op =
    OpCommit JobRequest int64 string
  | OpReveal RevealTx
  | OpAddCommitment OutputCommitment
  | OpFinalise int64
  | OpOpenDispute string string string string int64 bool
  | OpCastVote string string string int64
  | OpResolveDispute string
  | OpRevertJob string

fun jobs_exec :: "'db db_api \<Rightarrow> hash_fn \<Rightarrow> jobs_op \<Rightarrow> 'db \<Rightarrow> 'db" where
  "jobs_exec L keccak (OpCommit req slot server) s = snd (jobs_Commit L s req slot server)"
| "jobs_exec L keccak (OpReveal rv) s = snd (Reveal L keccak s rv)"
| "jobs_exec L keccak (OpAddCommitment c) s = snd (AddCommitment L s c)"
| "jobs_exec L keccak (OpFinalise slot) s = snd (FinaliseSlot L s slot)"
| "jobs_exec L keccak (OpOpenDispute jid server disputer kind slot imm) s =
    snd (OpenDispute L s jid server disputer kind slot imm)"
| "jobs_exec L keccak (OpCastVote jid voter vote stake) s = snd (jobs_CastVote L s jid voter vote stake)"
| "jobs_exec L keccak (OpResolveDispute jid) s = snd (ResolveDispute L s jid)"
| "jobs_exec L keccak (OpRevertJob jid) s = snd (RevertJob L s jid)"

definition jobs_run :: "'db db_api \<Rightarrow> hash_fn \<Rightarrow> jobs_op list \<Rightarrow> 'db \<Rightarrow> 'db" where
  "jobs_run L keccak ops s = fold (jobs_exec L keccak) ops s"

context leveldb
begin

lemma all_jobs_iff:
  "jobs_wf L s \<Longrightarrow> all_jobs L P s \<longleftrightarrow> (\<forall>a j. jobs L s a = Some j \<longrightarrow> P j)"
  using job_rows_iff jobs_id by (fastforce simp: all_jobs_def list_all_iff)

lemma jobs_step_wf: "jobs_step L keccak s t \<Longrightarrow> jobs_wf L s \<Longrightarrow> jobs_wf L t \<and> only L jobs_ns s t"
  by (induction rule: jobs_step.induct)
    (auto simp: put_job_wf put_dispute_wf intro: only_mono [OF put_job_wf(4)] only_mono [OF put_dispute_wf(4)])

lemma jobs_step_inv:
  assumes "jobs_step L keccak s t" "jobs_wf L s" "all_jobs L P s"
    and "\<And>j. j_State j = JobCommitted \<Longrightarrow> j_Commitment j = None \<Longrightarrow> P j"
    and "\<And>j j'. job_trans keccak j j' \<Longrightarrow> P j \<Longrightarrow> P j'"
  shows "all_jobs L P t"
proof -
  have t: "jobs_wf L t" using jobs_step_wf assms(1,2) by blast
  have old: "P j" if "jobs L s a = Some j" for a j
    using assms(2,3) that by (auto simp: all_jobs_iff)
  have "P j" if "jobs L t a = Some j" for a j
    using assms(1)
  proof cases
    case (create k)
    with that assms(2,4) old [of a j] show ?thesis by (simp add: put_job_wf(2) split: if_splits)
  next
    case (advance k k')
    then have "P k'" by (blast intro: old assms(5))
    with advance that assms(2) old [of a j] show ?thesis by (simp add: put_job_wf(2) split: if_splits)
  next
    case (record_dispute d)
    with that assms(2) old [of a j] show ?thesis by (simp add: put_dispute_wf(3))
  qed
  then show ?thesis by (simp add: all_jobs_iff [OF t])
qed

lemma voters_ok_iff: "jobs_wf L s \<Longrightarrow> voters_ok L s \<longleftrightarrow> (\<forall>a d. disputes L s a = Some d \<longrightarrow> dr_Voters d \<noteq> None)"
  using dispute_rows_iff disputes_id by (fastforce simp: voters_ok_def list_all_iff)

lemma jobs_step_voters:
  assumes "jobs_step L keccak s t" "jobs_wf L s" "voters_ok L s"
  shows "voters_ok L t"
proof -
  have t: "jobs_wf L t" using jobs_step_wf [OF assms(1,2)] by simp
  have old: "\<forall>a d. disputes L s a = Some d \<longrightarrow> dr_Voters d \<noteq> None" using assms(2,3) by (simp add: voters_ok_iff)
  from assms(1) have "\<forall>a d. disputes L t a = Some d \<longrightarrow> dr_Voters d \<noteq> None"
  proof cases
    case (record_dispute d)
    have "dr_Voters d \<noteq> None"
      using record_dispute(2) old by (cases "disputes L s (dr_JobID d)") (simp, metis option.inject option.map(2))
    with record_dispute(1) old assms(2) show ?thesis by (simp add: put_dispute_wf(2))
  qed (use assms(2) old in \<open>simp_all add: put_job_wf(3)\<close>)
  then show ?thesis by (simp add: voters_ok_iff [OF t])
qed

lemma jobs_steps_wf: "jobs_steps L keccak s t \<Longrightarrow> jobs_wf L s \<Longrightarrow> jobs_wf L t \<and> only L jobs_ns s t"
proof (induction rule: rtranclp_induct)
  case (step t u)
  then have "jobs_wf L u \<and> only L jobs_ns t u" by (intro jobs_step_wf) simp_all
  with step show ?case using only_trans [of L jobs_ns s t u] by simp
qed simp

lemma jobs_steps_inv:
  assumes "jobs_steps L keccak s t" "jobs_wf L s" "all_jobs L P s"
    and "\<And>j. j_State j = JobCommitted \<Longrightarrow> j_Commitment j = None \<Longrightarrow> P j"
    and "\<And>j j'. job_trans keccak j j' \<Longrightarrow> P j \<Longrightarrow> P j'"
  shows "all_jobs L P t"
  using assms(1-3)
proof (induction rule: rtranclp_induct)
  case (step t u)
  then have "all_jobs L P t" by simp
  moreover have "jobs_wf L t" using jobs_steps_wf [OF step(1,4)] by simp
  ultimately show ?case using jobs_step_inv [OF step(2)] assms(4,5) by simp
qed simp

lemma jobs_steps_same:
  assumes "jobs_steps L keccak s t" "jobs_wf L s" "jobs L s a = Some j"
  shows "\<exists>j'. jobs L t a = Some j' \<and> (job_trans keccak)\<^sup>*\<^sup>* j j'"
  using assms
proof (induction rule: rtranclp_induct)
  case (step t u)
  then obtain j' where j': "jobs L t a = Some j'" "(job_trans keccak)\<^sup>*\<^sup>* j j'" by blast
  have t: "jobs_wf L t" using jobs_steps_wf [OF step(1,4)] by simp
  from step(2) show ?case
  proof cases
    case (create k)
    with j' t show ?thesis by (auto simp: put_job_wf)
  next
    case (advance k k')
    with j' t show ?thesis
      by (cases "j_JobID k = a") (auto simp: put_job_wf job_trans_id intro: rtranclp.rtrancl_into_rtrancl)
  next
    case (record_dispute d)
    with j' t show ?thesis by (simp add: put_dispute_wf)
  qed
qed blast

end

section \<open>Effects of the operations\<close>

definition fail_late :: "'db db_api \<Rightarrow> int64 \<Rightarrow> Job \<Rightarrow> 'db \<Rightarrow> 'db" where
  "fail_late L slot j s = (if late slot j then put_job L s (j\<lparr>j_State := JobFailed\<rparr>) else s)"

definition mark_late :: "int64 \<Rightarrow> Job \<Rightarrow> (string, bool) fmap \<Rightarrow> (string, bool) fmap" where
  "mark_late slot j m = (if late slot j then fmupd (j_Server j) True m else m)"

text \<open>The record a new dispute gets.\<close>

definition new_dispute :: "string \<Rightarrow> string \<Rightarrow> string \<Rightarrow> string \<Rightarrow> int64 \<Rightarrow> bool \<Rightarrow> DisputeRecord" where
  "new_dispute jid server disputer kind slot imm =
    \<lparr>dr_JobID = jid, dr_ServingValidator = server, dr_DisputerAddr = disputer, dr_DisputeType = kind,
     dr_ExpiresAtSlot = slot + DisputeWindow, dr_VoteDeadline = slot + DisputeWindow + VoteWindow,
     dr_Resolved = imm, dr_VotesUphold = 0, dr_VotesDismiss = 0, dr_Voters = Some fmempty,
     dr_Immediate = imm\<rparr>"

lemma mark_late_lookup:
  "fmlookup (fold (mark_late slot) js m) a =
    (if \<exists>j \<in> set js. late slot j \<and> j_Server j = a then Some True else fmlookup m a)"
  by (induction js arbitrary: m) (auto simp: mark_late_def)

context leveldb
begin

lemma FinaliseSlot_fold:
  assumes "jobs_wf L s"
  shows "FinaliseSlot L s slot =
    ((map j_Server (filter (\<lambda>j. j_Slot j = slot \<and> j_Commitment j \<noteq> None) (job_rows L s)),
      fold (mark_late slot) (job_rows L s) fmempty, None),
     fold (fail_late L slot) (job_rows L s) s)"
proof -
  let ?served = "\<lambda>j. j_Slot j = slot \<and> j_Commitment j \<noteq> None"
  let ?g = "\<lambda>j (c, m, t). (if ?served j then c @ [j_Server j] else c, mark_late slot j m, fail_late L slot j t)"
  have "scan_loop (finalise_callback L slot) (iter L s jobPrefix) ([], fmempty, s) =
      fold ?g (job_rows L s) ([], fmempty, s)"
    unfolding job_rows_def
    by (rule jobT.scan_rows)
      (use assms in \<open>auto simp: jobs_wf_def finalise_callback_def unmarshal_def late_def mark_late_def
        fail_late_def putJob_put split: prod.split\<close>)
  also have "fold ?g js (c, m, t) =
      (c @ map j_Server (filter ?served js), fold (mark_late slot) js m, fold (fail_late L slot) js t)" for js c m t
    by (induction js arbitrary: c m t) auto
  finally show ?thesis by (simp add: FinaliseSlot_def)
qed

lemma fail_late_steps:
  "jobs_wf L s \<Longrightarrow> distinct (map j_JobID js) \<Longrightarrow> (\<And>j. j \<in> set js \<Longrightarrow> jobs L s (j_JobID j) = Some j) \<Longrightarrow>
   jobs_steps L keccak s (fold (fail_late L slot) js s) \<and>
   disputes L (fold (fail_late L slot) js s) = disputes L s \<and>
   jobs L (fold (fail_late L slot) js s) =
     (\<lambda>a. if a \<in> j_JobID ` set js then map_option (finalise_job slot) (jobs L s a) else jobs L s a)"
proof (induction js arbitrary: s)
  case (Cons j js)
  let ?t = "fail_late L slot j s"
  have t: "jobs_wf L ?t" "disputes L ?t = disputes L s"
    "jobs L ?t = (jobs L s)(j_JobID j \<mapsto> finalise_job slot j)"
    using Cons.prems by (auto simp: fail_late_def put_job_wf finalise_job_def fun_upd_idem_iff)
  have s: "(jobs_step L keccak)\<^sup>*\<^sup>* s ?t"
    using Cons.prems by (auto simp: fail_late_def late_def intro!: jobs_step.advance job_trans.miss)
  have "jobs L ?t (j_JobID k) = Some k" if "k \<in> set js" for k
  proof -
    have "j_JobID k \<noteq> j_JobID j" using Cons.prems(2) that by (auto simp: rev_image_eqI)
    then show ?thesis using Cons.prems(3) [of k] that by (simp add: t)
  qed
  with Cons.IH [OF t(1)] Cons.prems(2) s t Cons.prems(3) [of j] show ?case
    by (auto simp: fun_eq_iff elim: rtranclp_trans)
qed simp

lemma FinaliseSlot_state:
  assumes "jobs_wf L s"
  shows "jobs_steps L keccak s (snd (FinaliseSlot L s slot))"
    and "disputes L (snd (FinaliseSlot L s slot)) = disputes L s"
    and "jobs L (snd (FinaliseSlot L s slot)) = map_option (finalise_job slot) \<circ> jobs L s"
proof -
  note F = fail_late_steps [OF assms distinct_job_rows [OF assms], of keccak slot]
  have "a \<in> j_JobID ` set (job_rows L s)" if "jobs L s a = Some j" for a j
    using that assms jobs_id [OF assms that] by (force simp: job_rows_iff)
  then have "(if a \<in> j_JobID ` set (job_rows L s) then map_option (finalise_job slot) (jobs L s a) else jobs L s a) =
      map_option (finalise_job slot) (jobs L s a)" for a
    by (cases "jobs L s a") auto
  then show "jobs_steps L keccak s (snd (FinaliseSlot L s slot))"
    "disputes L (snd (FinaliseSlot L s slot)) = disputes L s"
    "jobs L (snd (FinaliseSlot L s slot)) = map_option (finalise_job slot) \<circ> jobs L s"
    using F assms by (auto simp: FinaliseSlot_fold job_rows_iff fun_eq_iff)
qed

lemma one_step: "jobs_step L keccak s t \<Longrightarrow> jobs_steps L keccak s t"
  by (rule r_into_rtranclp)

lemma Commit_steps: "jobs_wf L s \<Longrightarrow> jobs_steps L keccak s (snd (jobs_Commit L s req slot server))"
  by (auto simp: jobs_Commit_def jobs_reads intro!: one_step jobs_step.create split: option.split)

lemma Reveal_steps: "jobs_wf L s \<Longrightarrow> jobs_steps L keccak s (snd (Reveal L keccak s rv))"
  using jobs_id [of s "rv_JobID rv"]
  by (auto simp: Reveal_def jobs_reads RevealTx_Validate_iff
      intro!: one_step jobs_step.advance job_trans.reveal split: option.split)

lemma AddCommitment_steps: "jobs_wf L s \<Longrightarrow> jobs_steps L keccak s (snd (AddCommitment L s c))"
  using jobs_id [of s "oc_JobID c"]
  by (auto simp: AddCommitment_def jobs_reads intro!: one_step jobs_step.advance job_trans.serve split: option.split)

lemma RevertJob_steps: "jobs_wf L s \<Longrightarrow> jobs_steps L keccak s (snd (RevertJob L s a))"
  using jobs_id [of s a]
  by (auto simp: RevertJob_def jobs_reads Let_def intro!: one_step jobs_step.advance job_trans.revert split: option.split)

lemma OpenDispute_put:
  "jobs_wf L s \<Longrightarrow>
   OpenDispute L s jid server disputer kind slot imm =
     (None, put_dispute L (case jobs L s jid of None \<Rightarrow> s | Some j \<Rightarrow> put_job L s (j\<lparr>j_State := JobDisputed\<rparr>))
       (new_dispute jid server disputer kind slot imm))"
  by (simp add: OpenDispute_def jobs_reads Let_def new_dispute_def put_dispute_def split: option.split)

lemma OpenDispute_steps:
  assumes "jobs_wf L s"
  shows "jobs_steps L keccak s (snd (OpenDispute L s jid server disputer kind slot imm))"
proof (cases "jobs L s jid")
  case None
  with assms show ?thesis by (simp add: OpenDispute_put one_step jobs_step.record_dispute new_dispute_def)
next
  case (Some j)
  then have "jobs_step L keccak s (put_job L s (j\<lparr>j_State := JobDisputed\<rparr>))"
    using jobs_id [OF assms Some] by (auto intro: jobs_step.advance job_trans.dispute)
  moreover have "jobs_step L keccak u (put_dispute L u (new_dispute jid server disputer kind slot imm))" for u
    by (rule jobs_step.record_dispute) (simp add: new_dispute_def)
  ultimately show ?thesis
    using assms Some by (simp add: OpenDispute_put) (blast intro: rtranclp.rtrancl_into_rtrancl one_step)
qed

lemma CastVote_steps: "jobs_wf L s \<Longrightarrow> jobs_steps L keccak s (snd (jobs_CastVote L s jid voter vote stake))"
  using store_Set_dispute [of s jid]
  by (auto simp: jobs_CastVote_def jobs_reads Let_def intro!: one_step jobs_step.record_dispute split: option.split)

lemma ResolveDispute_steps:
  assumes "jobs_wf L s"
  shows "jobs_steps L keccak s (snd (ResolveDispute L s jid))"
proof (cases "disputes L s jid")
  case None
  with assms show ?thesis by (simp add: ResolveDispute_def jobs_reads)
next
  case (Some d)
  have "jobs_step L keccak s (put_dispute L s (d\<lparr>dr_Resolved := True\<rparr>))"
    by (rule jobs_step.record_dispute) (use Some disputes_id [OF assms Some] in simp)
  with assms Some store_Set_dispute [OF assms Some, of "d\<lparr>dr_Resolved := True\<rparr>"] show ?thesis
    by (simp add: ResolveDispute_def jobs_reads one_step)
qed

lemma jobs_exec_steps: "jobs_wf L s \<Longrightarrow> jobs_steps L keccak s (jobs_exec L keccak op s)"
  by (cases op)
    (simp_all add: Commit_steps Reveal_steps AddCommitment_steps FinaliseSlot_state OpenDispute_steps
      CastVote_steps ResolveDispute_steps RevertJob_steps)

lemma jobs_run_steps: "jobs_wf L s \<Longrightarrow> jobs_steps L keccak s (jobs_run L keccak ops s)"
  unfolding jobs_run_def
proof (induction ops arbitrary: s)
  case (Cons op ops)
  have "jobs_steps L keccak s (jobs_exec L keccak op s)"
    using Cons.prems by (rule jobs_exec_steps)
  moreover have "jobs_wf L (jobs_exec L keccak op s)"
    using jobs_steps_wf [OF calculation Cons.prems] by simp
  ultimately show ?case
    using Cons.IH [of "jobs_exec L keccak op s"] rtranclp_trans [of "jobs_step L keccak"] by simp
qed simp

end

definition vote_record :: "DisputeRecord \<Rightarrow> (string, bool) fmap \<Rightarrow> string \<Rightarrow> string \<Rightarrow> int64 \<Rightarrow> DisputeRecord" where
  "vote_record d m voter vote stake = d\<lparr>dr_Voters := Some (fmupd voter True m),
    dr_VotesUphold := dr_VotesUphold d + (if vote = ''uphold'' then stake else 0),
    dr_VotesDismiss := dr_VotesDismiss d + (if vote = ''dismiss'' then stake else 0)\<rparr>"

lemma vote_record_simps [simp]:
  "dr_JobID (vote_record d m voter vote stake) = dr_JobID d"
  "dr_Voters (vote_record d m voter vote stake) = Some (fmupd voter True m)"
  "dr_Resolved (vote_record d m voter vote stake) = dr_Resolved d"
  by (simp_all add: vote_record_def)

context leveldb
begin

lemma CastVote_ok:
  assumes "jobs_wf L s" "disputes L s jid = Some d" "dr_Voters d = Some m"
    and "\<not> dr_Resolved d \<and> fmlookup m voter \<noteq> Some True \<and> vote \<in> {''uphold'', ''dismiss''}"
  shows "jobs_CastVote L s jid voter vote stake = (None, put_dispute L s (vote_record d m voter vote stake))"
proof -
  have "put L s (disputeKey jid) (enc_DisputeRecord (vote_record d m voter vote stake)) =
      put_dispute L s (vote_record d m voter vote stake)"
    using store_Set_dispute [OF assms(1,2)] by simp
  with assms show ?thesis
    by (auto simp: jobs_CastVote_def jobs_reads vote_record_def)
qed

lemma CastVote_bad:
  assumes "jobs_wf L s" "disputes L s jid = Some d" "dr_Voters d = Some m"
    and "\<not> (\<not> dr_Resolved d \<and> fmlookup m voter \<noteq> Some True \<and> vote \<in> {''uphold'', ''dismiss''})"
  shows "\<exists>e. jobs_CastVote L s jid voter vote stake = (Some e, s)"
  using assms by (simp add: jobs_CastVote_def jobs_reads Let_def) blast

end

lemmas [run_eval] = jobs_run_def jobs_Commit_def Reveal_def AddCommitment_def FinaliseSlot_def
  finalise_callback_def OpenDispute_def jobs_CastVote_def ResolveDispute_def RevertJob_def GetJob_def
  GetDispute_def putJob_def ListOpenDisputes_def jobs_def disputes_def job_rows_def dispute_rows_def
  job_states all_jobs_def

lemma jobs_wf_empty: "jobs_wf list_db []"
  by (simp add: jobs_wf_def wf_table_def List.map_filter_simps)

section \<open>Properties\<close>

text \<open>Three jobs for the witnesses: the first is served, the second is revealed but not served when the
  slot ends, the third is never revealed.\<close>

definition example_request :: "string \<Rightarrow> JobRequest" where
  "example_request jid = \<lparr>jr_JobID = jid, jr_ModelID = ''llama'', jr_PromptHash = pad_hash ''hin'',
    jr_UserAddr = ''u'', jr_Params = \<lparr>p_Temperature = FInt 0, p_MaxTokens = 8\<rparr>\<rparr>"

definition example_output :: OutputCommitment where
  "example_output = \<lparr>oc_JobID = ''a'', oc_ValidatorAddr = ''v1'', oc_OutputHash = ''h'', oc_Slot = 5,
    oc_Signature = []\<rparr>"

definition example_job :: "string \<Rightarrow> JobState \<Rightarrow> OutputCommitment option \<Rightarrow> Job" where
  "example_job jid st c = \<lparr>j_JobID = jid, j_ModelID = ''llama'', j_PromptHash = pad_hash ''hin'',
    j_UserAddr = ''u'', j_Prompt = (if st = JobCommitted then [] else ''hi''),
    j_Params = \<lparr>p_Temperature = FInt 0, p_MaxTokens = 8\<rparr>, j_State = st, j_Slot = 5,
    j_Server = ''v1'', j_Commitment = c\<rparr>"

definition example_jobs_ops :: "jobs_op list" where
  "example_jobs_ops =
    [OpCommit (example_request ''a'') 5 ''v1'', OpCommit (example_request ''b'') 5 ''v1'',
     OpCommit (example_request ''c'') 5 ''v1'',
     OpReveal \<lparr>rv_JobID = ''a'', rv_Prompt = ''hi'', rv_Nonce = ''n''\<rparr>,
     OpReveal \<lparr>rv_JobID = ''b'', rv_Prompt = ''hi'', rv_Nonce = ''n''\<rparr>,
     OpAddCommitment example_output]"

definition example_jobs :: "(bytes \<times> json) list" where
  "example_jobs = jobs_run list_db pad_hash example_jobs_ops []"

lemmas example_jobs_eval = example_jobs_def example_jobs_ops_def example_request_def example_job_def
  example_output_def

lemma example_jobs_rows:
  "job_rows list_db example_jobs =
    [example_job ''a'' JobServed (Some example_output), example_job ''b'' JobRevealed None,
     example_job ''c'' JobCommitted None]"
  by (simp add: example_jobs_eval run_eval keys)

lemma example_jobs_wf: "jobs_wf list_db example_jobs"
  unfolding example_jobs_def
  using listdb.jobs_steps_wf [OF listdb.jobs_run_steps [OF jobs_wf_empty] jobs_wf_empty] by blast

lemma example_jobs_lookup:
  "jobs list_db example_jobs ''a'' = Some (example_job ''a'' JobServed (Some example_output))"
  "jobs list_db example_jobs ''b'' = Some (example_job ''b'' JobRevealed None)"
  "jobs list_db example_jobs ''c'' = Some (example_job ''c'' JobCommitted None)"
  using listdb.job_rows_iff [OF example_jobs_wf, of "example_job ''a'' JobServed (Some example_output)"]
    listdb.job_rows_iff [OF example_jobs_wf, of "example_job ''b'' JobRevealed None"]
    listdb.job_rows_iff [OF example_jobs_wf, of "example_job ''c'' JobCommitted None"]
  by (simp_all add: example_jobs_rows, simp_all add: example_job_def)

text \<open>C13: The job state machine. Whatever sequence of job and dispute calls runs, every stored job
  keeps the invariant \<open>job_ok\<close>: a committed, revealed, failed or reverted job has no output
  commitment, a served job has one, and an output commitment is always one for this job from the
  validator elected to serve it.\<close>

theorem jobs_invariant:
  assumes "leveldb L" and "jobs_wf L s" and "all_jobs L job_ok s"
  shows "jobs_wf L (jobs_run L keccak ops s) \<and> all_jobs L job_ok (jobs_run L keccak ops s)"
proof -
  note run = leveldb.jobs_run_steps [OF assms(1,2), of keccak ops]
  have "job_ok j" if "j_State j = JobCommitted" "j_Commitment j = None" for j
    using that by (simp add: job_ok_def job_states)
  with leveldb.jobs_steps_inv [OF assms(1) run assms(2,3)] leveldb.jobs_steps_wf [OF assms(1) run assms(2)]
  show ?thesis using job_trans_ok by blast
qed

theorem jobs_invariant_witness:
  "all_jobs list_db job_ok [] \<and> all_jobs list_db job_ok example_jobs \<and> length (job_rows list_db example_jobs) = 3"
proof -
  have a: "all_jobs list_db job_ok []"
    by (simp add: run_eval)
  have "length (job_rows list_db example_jobs) = 3"
    by (simp add: example_jobs_rows)
  with a jobs_invariant [OF listdb.leveldb_axioms jobs_wf_empty a, of pad_hash example_jobs_ops] show ?thesis
    by (simp add: example_jobs_def)
qed

text \<open>C14: A job is bound to what was committed. Through every sequence of job and dispute calls a
  stored job stays stored with the same model, prompt hash, user, parameters, slot and server, it
  never returns to the committed state, and while it is revealed, served or failed its prompt is one
  whose hash (with some nonce) the committed prompt hash starts with.\<close>

theorem job_binding:
  assumes "leveldb L" and "jobs_wf L s" and "jobs L s a = Some j" and "prompt_ok keccak j"
  shows "\<exists>j'. jobs L (jobs_run L keccak ops s) a = Some j' \<and> same_work j j' \<and> prompt_ok keccak j' \<and>
    (j_State j \<noteq> JobCommitted \<longrightarrow> j_State j' \<noteq> JobCommitted)"
proof -
  obtain j' where j': "jobs L (jobs_run L keccak ops s) a = Some j'" "(job_trans keccak)\<^sup>*\<^sup>* j j'"
    using leveldb.jobs_steps_same [OF assms(1) leveldb.jobs_run_steps [OF assms(1,2)] assms(2,3)] by blast
  from j'(2) have "same_work j j' \<and> prompt_ok keccak j' \<and> (j_State j \<noteq> JobCommitted \<longrightarrow> j_State j' \<noteq> JobCommitted)"
  proof (induction rule: rtranclp_induct)
    case base
    show ?case using assms(4) by (simp add: same_work_def)
  next
    case (step y z)
    then show ?case
      using job_trans_same [OF step(2)] job_trans_prompt [OF step(2)] job_trans_state [OF step(2)]
      by (simp add: same_work_def)
  qed
  with j'(1) show ?thesis by blast
qed

theorem job_binding_witness:
  "\<exists>j'. jobs list_db (jobs_run list_db pad_hash [OpRevertJob ''a'', OpReveal \<lparr>rv_JobID = ''a'', rv_Prompt = ''x'', rv_Nonce = []\<rparr>]
      example_jobs) ''a'' = Some j' \<and> j_Server j' = ''v1'' \<and> j_State j' \<noteq> JobCommitted"
proof -
  have p: "prompt_ok pad_hash (example_job ''a'' JobServed (Some example_output))"
    by (auto simp: prompt_ok_def example_job_def job_states pad_hash_def intro!: exI [of _ "''n''"])
  show ?thesis
    using job_binding [OF listdb.leveldb_axioms example_jobs_wf example_jobs_lookup(1) p]
    by (fastforce simp: same_work_def example_job_def job_states)
qed

text \<open>C15: \<open>AddCommitment\<close> accepts an output exactly once and only from the elected server: it
  succeeds if and only if the job exists, is revealed and the committer is its server; then the job
  is served with this commitment. In every other case the store is unchanged. The code's third test,
  for an equivocating server, never decides anything on a store that satisfies the invariant.\<close>

theorem AddCommitment_iff:
  assumes "leveldb L" and "jobs_wf L s" and "all_jobs L job_ok s"
  shows "case AddCommitment L s c of
      (None, t) \<Rightarrow> \<exists>j. jobs L s (oc_JobID c) = Some j \<and> j_State j = JobRevealed \<and> j_Server j = oc_ValidatorAddr c \<and>
        jobs L t = (jobs L s)(oc_JobID c \<mapsto> j\<lparr>j_Commitment := Some c, j_State := JobServed\<rparr>)
    | (Some e, t) \<Rightarrow> t = s \<and>
        (\<forall>j. jobs L s (oc_JobID c) = Some j \<longrightarrow> j_State j \<noteq> JobRevealed \<or> j_Server j \<noteq> oc_ValidatorAddr c)"
proof (cases "jobs L s (oc_JobID c)")
  case None
  with assms(2) show ?thesis by (simp add: AddCommitment_def leveldb.jobs_reads [OF assms(1)])
next
  case (Some j)
  then have "job_ok j" "j_JobID j = oc_JobID c"
    using assms(3) leveldb.jobs_id [OF assms(1,2)] by (auto simp: leveldb.all_jobs_iff [OF assms(1,2)])
  with Some assms(2) show ?thesis
    by (auto simp: AddCommitment_def leveldb.jobs_reads [OF assms(1)] leveldb.put_job_wf [OF assms(1)] job_ok_def)
qed

theorem AddCommitment_iff_witness:
  "fst (AddCommitment list_db example_jobs (example_output\<lparr>oc_JobID := ''b''\<rparr>)) = None \<and>
   snd (AddCommitment list_db example_jobs example_output) = example_jobs"
proof -
  have ok: "all_jobs list_db job_ok example_jobs"
    by (simp add: all_jobs_def example_jobs_rows job_ok_def example_job_def example_output_def job_states)
  show ?thesis
    using AddCommitment_iff [OF listdb.leveldb_axioms example_jobs_wf ok, of "example_output\<lparr>oc_JobID := ''b''\<rparr>"]
      AddCommitment_iff [OF listdb.leveldb_axioms example_jobs_wf ok, of example_output]
    by (auto simp: example_jobs_lookup example_output_def example_job_def job_states
        split: prod.splits option.splits)
qed

text \<open>C16: \<open>FinaliseSlot\<close> is exact. It reports the servers of the slot's committed jobs in key
  order, marks as missed exactly the servers of the slot's jobs that are revealed without a commitment,
  turns exactly those jobs into failed ones, and changes no other job and no dispute. A job of the slot
  that was never revealed stays as it is.\<close>

theorem FinaliseSlot_exact:
  assumes "leveldb L" and "jobs_wf L s"
  shows "\<exists>committed missed t. FinaliseSlot L s slot = ((committed, missed, None), t) \<and>
    committed = map j_Server (filter (\<lambda>j. j_Slot j = slot \<and> j_Commitment j \<noteq> None) (job_rows L s)) \<and>
    (\<forall>a. fmlookup missed a = (if \<exists>j \<in> set (job_rows L s). late slot j \<and> j_Server j = a then Some True else None)) \<and>
    (\<forall>a. jobs L t a = (case jobs L s a of None \<Rightarrow> None
        | Some j \<Rightarrow> Some (if late slot j then j\<lparr>j_State := JobFailed\<rparr> else j))) \<and>
    disputes L t = disputes L s"
proof -
  note F = leveldb.FinaliseSlot_fold [OF assms, of slot] leveldb.FinaliseSlot_state(2,3) [OF assms, of slot]
  show ?thesis
    using F(2,3) unfolding F(1)
    by (auto simp: mark_late_lookup finalise_job_def split: option.split)
qed

theorem FinaliseSlot_exact_witness:
  "\<exists>missed t. FinaliseSlot list_db example_jobs 5 = (([''v1''], missed, None), t) \<and>
    fmlookup missed ''v1'' = Some True \<and>
    map_option j_State (jobs list_db t ''a'') = Some JobServed \<and>
    map_option j_State (jobs list_db t ''b'') = Some JobFailed \<and>
    map_option j_State (jobs list_db t ''c'') = Some JobCommitted"
  using FinaliseSlot_exact [OF listdb.leveldb_axioms example_jobs_wf, of 5]
  by (fastforce simp: example_jobs_rows example_jobs_lookup late_def example_job_def job_states)

text \<open>One vote per voter. \<open>CastVote\<close> on an open dispute succeeds exactly when the voter has not
  voted yet and the vote is one of the two; it then adds the voter and moves exactly one of the two
  sums by the given stake, so that a second vote of the same voter fails. A resolved dispute accepts
  no vote, and a failed call leaves the store unchanged.\<close>

theorem CastVote_exact:
  assumes "leveldb L" and "jobs_wf L s" and "disputes L s jid = Some d" and "dr_Voters d = Some m"
  shows "case jobs_CastVote L s jid voter vote stake of
      (None, t) \<Rightarrow> \<not> dr_Resolved d \<and> fmlookup m voter \<noteq> Some True \<and> vote \<in> {''uphold'', ''dismiss''} \<and>
        disputes L t = (disputes L s)(jid \<mapsto> d\<lparr>dr_Voters := Some (fmupd voter True m),
          dr_VotesUphold := dr_VotesUphold d + (if vote = ''uphold'' then stake else 0),
          dr_VotesDismiss := dr_VotesDismiss d + (if vote = ''dismiss'' then stake else 0)\<rparr>) \<and>
        jobs L t = jobs L s \<and> (\<forall>vote' stake'. fst (jobs_CastVote L t jid voter vote' stake') \<noteq> None)
    | (Some e, t) \<Rightarrow> t = s \<and>
        (dr_Resolved d \<or> fmlookup m voter = Some True \<or> vote \<notin> {''uphold'', ''dismiss''})"
proof (cases "\<not> dr_Resolved d \<and> fmlookup m voter \<noteq> Some True \<and> vote \<in> {''uphold'', ''dismiss''}")
  case True
  let ?t = "put_dispute L s (vote_record d m voter vote stake)"
  have run: "jobs_CastVote L s jid voter vote stake = (None, ?t)"
    using leveldb.CastVote_ok [OF assms] True by blast
  have d: "disputes L ?t = (disputes L s)(jid \<mapsto> vote_record d m voter vote stake)" "jobs L ?t = jobs L s"
    using leveldb.put_dispute_wf(2,3) [OF assms(1,2)] leveldb.disputes_id [OF assms(1-3)] by simp_all
  have "fst (jobs_CastVote L ?t jid voter vote' stake') \<noteq> None" for vote' stake'
    using leveldb.CastVote_bad [OF assms(1) leveldb.put_dispute_wf(1) [OF assms(1,2)],
        of "vote_record d m voter vote stake" jid "vote_record d m voter vote stake" "fmupd voter True m"
          voter vote' stake'] d by auto
  with True run d show ?thesis by (simp add: vote_record_def)
next
  case False
  then obtain e where "jobs_CastVote L s jid voter vote stake = (Some e, s)"
    using leveldb.CastVote_bad [OF assms] by blast
  with False show ?thesis by auto
qed

definition example_dispute :: DisputeRecord where
  "example_dispute = new_dispute ''a'' ''v1'' ''o'' ''observer'' 6 False"

theorem CastVote_exact_witness:
  "let s = put_dispute list_db example_jobs example_dispute;
       t = snd (jobs_CastVote list_db s ''a'' ''v2'' ''uphold'' 7)
   in map_option dr_VotesUphold (disputes list_db t ''a'') = Some 7 \<and>
      fst (jobs_CastVote list_db t ''a'' ''v2'' ''dismiss'' 7) \<noteq> None"
proof -
  let ?s = "put_dispute list_db example_jobs example_dispute"
  have wf: "jobs_wf list_db ?s"
    by (rule listdb.put_dispute_wf [OF example_jobs_wf])
  have d: "disputes list_db ?s ''a'' = Some example_dispute" "dr_Voters example_dispute = Some fmempty"
    "\<not> dr_Resolved example_dispute" "dr_VotesUphold example_dispute = 0"
    by (simp_all add: listdb.put_dispute_wf [OF example_jobs_wf] example_dispute_def new_dispute_def)
  show ?thesis
    using CastVote_exact [OF listdb.leveldb_axioms wf d(1,2), of "''v2''" "''uphold''" 7] d
    by (auto simp: Let_def split: prod.splits option.splits)
qed

end
