(* ===== verification/Slashing.thy ===== *)
theory Slashing
  imports Staking Jobs
begin

text \<open>
  chain/modules/slashing/slashing.go: disputes of users (decided at once by recomputing the output hash)
  and of observers (decided by a stake-weighted vote after the deadline), and the penalties that follow.
  The handler has no state of its own; it calls the staking and the jobs modules on the shared store.
\<close>

section \<open>Operations\<close>

record Event =
  e_ValidatorAddr :: string
  e_AmountSlashed :: int64
  e_Reason :: string
  e_JobID :: string

definition ProcessUserDispute ::
  "'db db_api \<Rightarrow> hash_fn \<Rightarrow> 'db \<Rightarrow> DisputeTx \<Rightarrow> int64 \<Rightarrow> ('db, Event option) outcome1" where
  "ProcessUserDispute L keccak s tx currentSlot =
    (case GetJob L s (dt_JobID tx) of
       Inl e \<Rightarrow> (Inl e, s)
     | Inr None \<Rightarrow> (Inl (Errorf ''job %s not found'' [AStr (dt_JobID tx)]), s)
     | Inr (Some j) \<Rightarrow>
         (case j_Commitment j of
            None \<Rightarrow> (Inl (Errorf ''no commitment found for job %s'' [AStr (dt_JobID tx)]), s)
          | Some c \<Rightarrow>
              if oc_ValidatorAddr c \<noteq> dt_ValidatorAddr tx
              then (Inl (Errorf ''validator %s is not the server for job %s''
                      [AStr (dt_ValidatorAddr tx), AStr (dt_JobID tx)]), s)
              else
                (case GetValidator L s (dt_ValidatorAddr tx) of
                   Inl e \<Rightarrow> (Inl e, s)
                 | Inr None \<Rightarrow> (Inl (Errorf ''validator %s not found'' [AStr (dt_ValidatorAddr tx)]), s)
                 | Inr (Some v) \<Rightarrow>
                     let expected = ComputeOutputHash keccak (dt_PlaintextOutput tx) (dt_JobID tx) (v_BLSPubKey v)
                     in if expected = oc_OutputHash c then (Inr None, s)
                        else
                          (case SlashBond L s (dt_ValidatorAddr tx) SlashMalicious of
                             (Inl e, s) \<Rightarrow> (Inl e, s)
                           | (Inr amount, s) \<Rightarrow>
                               (case OpenDispute L s (dt_JobID tx) (dt_ValidatorAddr tx) (dt_ValidatorAddr tx)
                                       ''user'' currentSlot True of
                                  (Some e, s) \<Rightarrow> (Inl e, s)
                                | (None, s) \<Rightarrow>
                                    (case RevertJob L s (dt_JobID tx) of
                                       (Inl e, s) \<Rightarrow> (Inl e, s)
                                     | (Inr _, s) \<Rightarrow>
                                         (Inr (Some \<lparr>e_ValidatorAddr = dt_ValidatorAddr tx,
                                            e_AmountSlashed = amount, e_Reason = ''user_dispute_proven'',
                                            e_JobID = dt_JobID tx\<rparr>), s)))))))"

definition ProcessObserverDispute ::
  "'db db_api \<Rightarrow> 'db \<Rightarrow> ObserverDisputeTx \<Rightarrow> int64 \<Rightarrow> 'db outcome" where
  "ProcessObserverDispute L s tx currentSlot =
    (case GetJob L s (od_JobID tx) of
       Inl e \<Rightarrow> (Some e, s)
     | Inr None \<Rightarrow> (Some (Errorf ''job %s not found'' [AStr (od_JobID tx)]), s)
     | Inr (Some j) \<Rightarrow>
         if j_Commitment j = None
         then (Some (Errorf ''no commitment to dispute for job %s'' [AStr (od_JobID tx)]), s)
         else
           (case GetValidator L s (od_ObserverAddr tx) of
              Inl e \<Rightarrow> (Some e, s)
            | Inr observer \<Rightarrow>
                if (case observer of None \<Rightarrow> True | Some v \<Rightarrow> v_Status v \<noteq> StatusActive)
                then (Some (Errorf ''observer %s is not an active validator'' [AStr (od_ObserverAddr tx)]), s)
                else if od_ObserverAddr tx = j_Server j
                then (Some (Errorf ''server cannot dispute its own job'' []), s)
                else OpenDispute L s (od_JobID tx) (j_Server j) (od_ObserverAddr tx) ''observer'' currentSlot False))"

definition CastVote :: "'db db_api \<Rightarrow> 'db \<Rightarrow> DisputeVoteTx \<Rightarrow> 'db outcome" where
  "CastVote L s tx =
    (case GetValidator L s (dv_VoterAddr tx) of
       Inl e \<Rightarrow> (Some e, s)
     | Inr None \<Rightarrow> (Some (Errorf ''voter %s is not an active validator'' [AStr (dv_VoterAddr tx)]), s)
     | Inr (Some v) \<Rightarrow>
         if v_Status v \<noteq> StatusActive
         then (Some (Errorf ''voter %s is not an active validator'' [AStr (dv_VoterAddr tx)]), s)
         else jobs_CastVote L s (dv_JobID tx) (dv_VoterAddr tx) (dv_Vote tx) (v_TotalStake v))"

text \<open>The loop of \<open>TallyExpiredDisputes\<close>; an error drops the events collected so far.\<close>

definition vote_threshold :: "int64 \<Rightarrow> int64" where
  "vote_threshold totalStake = idiv (totalStake * DisputeVoteThresholdBPS) 10000"

fun tally_loop ::
  "'db db_api \<Rightarrow> int64 \<Rightarrow> 'db \<Rightarrow> Event list \<Rightarrow> DisputeRecord list \<Rightarrow> ('db, Event list) outcome1" where
  "tally_loop L totalStake s events [] = (Inr events, s)"
| "tally_loop L totalStake s events (d # ds) =
    (let threshold = vote_threshold totalStake in
     if threshold <s dr_VotesUphold d
     then
       (case SlashBond L s (dr_ServingValidator d) SlashMismatch of
          (Inl e, s) \<Rightarrow> (Inl e, s)
        | (Inr amount, s) \<Rightarrow>
            (case RevertJob L s (dr_JobID d) of
               (Inl e, s) \<Rightarrow> (Inl e, s)
             | (Inr _, s) \<Rightarrow>
                 (case ResolveDispute L s (dr_JobID d) of
                    (Some e, s) \<Rightarrow> (Inl e, s)
                  | (None, s) \<Rightarrow>
                      tally_loop L totalStake s
                        (events @ [\<lparr>e_ValidatorAddr = dr_ServingValidator d, e_AmountSlashed = amount,
                           e_Reason = ''observer_dispute_upheld'', e_JobID = dr_JobID d\<rparr>]) ds)))
     else
       (case ResolveDispute L s (dr_JobID d) of
          (Some e, s) \<Rightarrow> (Inl e, s)
        | (None, s) \<Rightarrow> tally_loop L totalStake s events ds))"

definition TallyExpiredDisputes :: "'db db_api \<Rightarrow> 'db \<Rightarrow> int64 \<Rightarrow> ('db, Event list) outcome1" where
  "TallyExpiredDisputes L s currentSlot =
    (case ListOpenDisputes L s currentSlot of
       (_, Some e) \<Rightarrow> (Inl e, s)
     | (ds, None) \<Rightarrow>
         (case TotalStake L s of
            Inl e \<Rightarrow> (Inl e, s)
          | Inr totalStake \<Rightarrow> if totalStake = 0 then (Inr [], s) else tally_loop L totalStake s [] ds))"

definition ProcessEquivocation :: "'db db_api \<Rightarrow> 'db \<Rightarrow> string \<Rightarrow> string \<Rightarrow> ('db, Event) outcome1" where
  "ProcessEquivocation L s validatorAddr jobID =
    (case SlashBond L s validatorAddr SlashMalicious of
       (Inl e, s) \<Rightarrow> (Inl e, s)
     | (Inr amount, s) \<Rightarrow>
         (Inr \<lparr>e_ValidatorAddr = validatorAddr, e_AmountSlashed = amount, e_Reason = ''equivocation'',
               e_JobID = jobID\<rparr>, s))"

section \<open>The ledger: staking and jobs together\<close>

definition core_wf :: "'db db_api \<Rightarrow> 'db \<Rightarrow> bool" where
  "core_wf L s \<longleftrightarrow> staking_wf L s \<and> jobs_wf L s"

definition slash_by :: "int64 \<Rightarrow> Validator \<Rightarrow> Validator" where
  "slash_by bps v = slash_validator v (slash_amount (v_Bond v) bps)"

definition revert_job :: "Job \<Rightarrow> Job" where
  "revert_job j = j\<lparr>j_State := JobReverted, j_Commitment := None\<rparr>"

definition resolve :: "DisputeRecord \<Rightarrow> DisputeRecord" where
  "resolve d = d\<lparr>dr_Resolved := True\<rparr>"

definition put_slash :: "'db db_api \<Rightarrow> 'db \<Rightarrow> Validator \<Rightarrow> int64 \<Rightarrow> 'db" where
  "put_slash L s v bps = put_stake L s (slash_by bps v) (- slash_amount (v_Bond v) bps)"

lemma slash_by_address [simp]: "v_Address (slash_by bps v) = v_Address v"
  by (simp add: slash_by_def)

lemma ids [simp]: "j_JobID (revert_job j) = j_JobID j" "dr_JobID (resolve d) = dr_JobID d"
  by (simp_all add: revert_job_def resolve_def)

context leveldb
begin

lemma put_job_core:
  assumes "core_wf L s"
  shows "core_wf L (put_job L s j)" and "validators L (put_job L s j) = validators L s"
    and "total_stake L (put_job L s j) = total_stake L s"
    and "jobs L (put_job L s j) = (jobs L s)(j_JobID j \<mapsto> j)" and "disputes L (put_job L s j) = disputes L s"
  using assms put_job_wf [of s j] staking_only [of "{''job''}" s "put_job L s j"] by (auto simp: core_wf_def)

lemma put_dispute_core:
  assumes "core_wf L s"
  shows "core_wf L (put_dispute L s d)" and "validators L (put_dispute L s d) = validators L s"
    and "total_stake L (put_dispute L s d) = total_stake L s"
    and "jobs L (put_dispute L s d) = jobs L s" and "disputes L (put_dispute L s d) = (disputes L s)(dr_JobID d \<mapsto> d)"
  using assms put_dispute_wf [of s d] staking_only [of "{''dispute''}" s "put_dispute L s d"] by (auto simp: core_wf_def)

lemma put_slash_core:
  assumes "core_wf L s"
  shows "core_wf L (put_slash L s v bps)"
    and "validators L (put_slash L s v bps) = (validators L s)(v_Address v \<mapsto> slash_by bps v)"
    and "total_stake L (put_slash L s v bps) = total_stake L s - slash_amount (v_Bond v) bps"
    and "jobs L (put_slash L s v bps) = jobs L s" and "disputes L (put_slash L s v bps) = disputes L s"
proof -
  note P = put_stake_wf [of s "slash_by bps v" "- slash_amount (v_Bond v) bps"]
  have "only L staking_ns s (put_slash L s v bps)" using P assms by (simp add: put_slash_def core_wf_def)
  from jobs_only [OF this] P assms
  show "core_wf L (put_slash L s v bps)"
    "validators L (put_slash L s v bps) = (validators L s)(v_Address v \<mapsto> slash_by bps v)"
    "total_stake L (put_slash L s v bps) = total_stake L s - slash_amount (v_Bond v) bps"
    "jobs L (put_slash L s v bps) = jobs L s" "disputes L (put_slash L s v bps) = disputes L s"
    by (simp_all add: core_wf_def put_slash_def)
qed

lemmas core_puts = put_job_core put_dispute_core put_slash_core

lemma core_reads:
  assumes "core_wf L s"
  shows "GetJob L s a = Inr (jobs L s a)" and "GetDispute L s a = Inr (disputes L s a)"
    and "GetValidator L s a = Inr (validators L s a)" and "TotalStake L s = Inr (total_stake L s)"
    and "validators L s a = Some v \<Longrightarrow> v_Address v = a" and "jobs L s a = Some j \<Longrightarrow> j_JobID j = a"
    and "disputes L s a = Some d \<Longrightarrow> dr_JobID d = a"
  using assms validators_address jobs_id disputes_id
  by (auto simp: core_wf_def jobs_reads staking_reads)

lemma SlashBond_core:
  "core_wf L s \<Longrightarrow> validators L s a = Some v \<Longrightarrow>
   SlashBond L s a bps = (Inr (slash_amount (v_Bond v) bps), put_slash L s v bps)"
  by (simp add: SlashBond_def core_wf_def staking_reads Let_def put_slash_def slash_by_def)

lemma SlashBond_unknown:
  "core_wf L s \<Longrightarrow> validators L s a = None \<Longrightarrow>
   SlashBond L s a bps = (Inl (Errorf ''validator %s not found'' [AStr a]), s)"
  by (simp add: SlashBond_def core_wf_def staking_reads)

lemma RevertJob_core:
  "core_wf L s \<Longrightarrow> jobs L s a = Some j \<Longrightarrow> RevertJob L s a = (Inr (revert_job j), put_job L s (revert_job j))"
  by (simp add: RevertJob_def core_wf_def jobs_reads Let_def revert_job_def)

lemma ResolveDispute_core:
  "core_wf L s \<Longrightarrow> disputes L s a = Some d \<Longrightarrow> ResolveDispute L s a = (None, put_dispute L s (resolve d))"
  using disputes_id [of s a d]
  by (simp add: ResolveDispute_def core_wf_def jobs_reads resolve_def put_dispute_def)

lemma OpenDispute_core:
  "core_wf L s \<Longrightarrow> jobs L s jid = Some j \<Longrightarrow>
   OpenDispute L s jid server disputer kind slot imm =
     (None, put_dispute L (put_job L s (j\<lparr>j_State := JobDisputed\<rparr>))
       (new_dispute jid server disputer kind slot imm))"
  by (simp add: core_wf_def OpenDispute_put)

lemmas core_ops = SlashBond_core RevertJob_core ResolveDispute_core OpenDispute_core

end

section \<open>The tally\<close>

definition upheld :: "int64 \<Rightarrow> DisputeRecord \<Rightarrow> bool" where
  "upheld T d \<longleftrightarrow> vote_threshold T <s dr_VotesUphold d"

text \<open>What the tally of a dispute needs: an upheld one names a registered validator and a stored job.\<close>

definition tally_ready :: "'db db_api \<Rightarrow> 'db \<Rightarrow> int64 \<Rightarrow> DisputeRecord \<Rightarrow> bool" where
  "tally_ready L s T d \<longleftrightarrow>
    (upheld T d \<longrightarrow> validators L s (dr_ServingValidator d) \<noteq> None \<and> jobs L s (dr_JobID d) \<noteq> None)"

definition slash_count :: "int64 \<Rightarrow> DisputeRecord list \<Rightarrow> string \<Rightarrow> nat" where
  "slash_count T ds a = length (filter (\<lambda>d. upheld T d \<and> dr_ServingValidator d = a) ds)"

definition expired :: "'db db_api \<Rightarrow> 'db \<Rightarrow> int64 \<Rightarrow> DisputeRecord list" where
  "expired L s slot = filter (\<lambda>d. \<not> dr_Resolved d \<and> dr_VoteDeadline d \<le>s slot) (dispute_rows L s)"

context leveldb
begin

lemma tally_one:
  assumes wf: "core_wf L s" and d: "disputes L s (dr_JobID d) = Some d" and r: "tally_ready L s T d"
  obtains t evs where
    "\<And>ev ds. tally_loop L T s ev (d # ds) = tally_loop L T t (ev @ evs) ds" "core_wf L t"
    "map (\<lambda>e. (e_ValidatorAddr e, e_JobID e)) evs = (if upheld T d then [(dr_ServingValidator d, dr_JobID d)] else [])"
    "disputes L t = (disputes L s)(dr_JobID d \<mapsto> resolve d)"
    "jobs L t = (if upheld T d then (jobs L s)(dr_JobID d := map_option revert_job (jobs L s (dr_JobID d))) else jobs L s)"
    "validators L t = (if upheld T d then (validators L s)(dr_ServingValidator d :=
       map_option (slash_by SlashMismatch) (validators L s (dr_ServingValidator d))) else validators L s)"
proof (cases "upheld T d")
  case True
  with r obtain v j where v: "validators L s (dr_ServingValidator d) = Some v" and j: "jobs L s (dr_JobID d) = Some j"
    by (auto simp: tally_ready_def)
  let ?e = "\<lparr>e_ValidatorAddr = dr_ServingValidator d, e_AmountSlashed = slash_amount (v_Bond v) SlashMismatch,
    e_Reason = ''observer_dispute_upheld'', e_JobID = dr_JobID d\<rparr>"
  let ?s1 = "put_slash L s v SlashMismatch"
  let ?s2 = "put_job L ?s1 (revert_job j)"
  have 1: "core_wf L ?s1" "jobs L ?s1 (dr_JobID d) = Some j" using wf j by (simp_all add: core_puts)
  then have 2: "core_wf L ?s2" "disputes L ?s2 (dr_JobID d) = Some d" using wf d by (simp_all add: core_puts)
  have "tally_loop L T s ev (d # ds) = tally_loop L T (put_dispute L ?s2 (resolve d)) (ev @ [?e]) ds" for ev ds
    using True by (simp add: upheld_def SlashBond_core [OF wf v] RevertJob_core [OF 1] ResolveDispute_core [OF 2])
  then show thesis
    by (rule that) (use True v j wf 1 2 core_reads(5) [OF wf v] core_reads(6) [OF wf j] in \<open>simp_all add: core_puts\<close>)
next
  case False
  have "tally_loop L T s ev (d # ds) = tally_loop L T (put_dispute L s (resolve d)) (ev @ []) ds" for ev ds
    using False by (simp add: upheld_def ResolveDispute_core [OF wf d])
  then show thesis
    by (rule that) (use False wf in \<open>simp_all add: core_puts\<close>)
qed

lemma tally_all:
  assumes "core_wf L s" "distinct (map dr_JobID ds)" "\<And>d. d \<in> set ds \<Longrightarrow> disputes L s (dr_JobID d) = Some d"
    and "\<And>d. d \<in> set ds \<Longrightarrow> tally_ready L s T d"
  shows "\<exists>t evs. tally_loop L T s ev (ds @ rest) = tally_loop L T t (ev @ evs) rest \<and> core_wf L t \<and>
    map (\<lambda>e. (e_ValidatorAddr e, e_JobID e)) evs =
      map (\<lambda>d. (dr_ServingValidator d, dr_JobID d)) (filter (upheld T) ds) \<and>
    (\<forall>a. disputes L t a = (if a \<in> dr_JobID ` set ds then map_option resolve (disputes L s a) else disputes L s a)) \<and>
    (\<forall>a. jobs L t a = (if a \<in> dr_JobID ` set (filter (upheld T) ds) then map_option revert_job (jobs L s a) else jobs L s a)) \<and>
    (\<forall>a. validators L t a = map_option (slash_by SlashMismatch ^^ slash_count T ds a) (validators L s a))"
  using assms
proof (induction ds arbitrary: s ev)
  case Nil
  then show ?case by (intro exI [of _ s] exI [of _ "[]"]) (simp add: slash_count_def option.map_id0 [unfolded id_def])
next
  case (Cons d ds)
  have d: "disputes L s (dr_JobID d) = Some d" "tally_ready L s T d" using Cons.prems by auto
  obtain t evs where one: "\<And>ev ds. tally_loop L T s ev (d # ds) = tally_loop L T t (ev @ evs) ds"
    and wf: "core_wf L t"
    and evs: "map (\<lambda>e. (e_ValidatorAddr e, e_JobID e)) evs = (if upheld T d then [(dr_ServingValidator d, dr_JobID d)] else [])"
    and dis: "disputes L t = (disputes L s)(dr_JobID d \<mapsto> resolve d)"
    and job: "jobs L t = (if upheld T d then (jobs L s)(dr_JobID d := map_option revert_job (jobs L s (dr_JobID d))) else jobs L s)"
    and val: "validators L t = (if upheld T d then (validators L s)(dr_ServingValidator d :=
       map_option (slash_by SlashMismatch) (validators L s (dr_ServingValidator d))) else validators L s)"
    using tally_one [OF Cons.prems(1) d] by blast
  have new: "dr_JobID d \<notin> dr_JobID ` set ds" using Cons.prems(2) by simp
  have "disputes L t (dr_JobID c) = Some c" if "c \<in> set ds" for c
    using that new Cons.prems(3) [of c] dis by (auto simp: rev_image_eqI)
  moreover have "tally_ready L t T c" if "c \<in> set ds" for c
    using that Cons.prems(4) [of c] job val by (auto simp: tally_ready_def)
  ultimately obtain u evs' where IH: "tally_loop L T t (ev @ evs) (ds @ rest) = tally_loop L T u ((ev @ evs) @ evs') rest" "core_wf L u"
    "map (\<lambda>e. (e_ValidatorAddr e, e_JobID e)) evs' =
      map (\<lambda>d. (dr_ServingValidator d, dr_JobID d)) (filter (upheld T) ds)"
    "\<And>a. disputes L u a = (if a \<in> dr_JobID ` set ds then map_option resolve (disputes L t a) else disputes L t a)"
    "\<And>a. jobs L u a = (if a \<in> dr_JobID ` set (filter (upheld T) ds) then map_option revert_job (jobs L t a) else jobs L t a)"
    "\<And>a. validators L u a = map_option (slash_by SlashMismatch ^^ slash_count T ds a) (validators L t a)"
    using Cons.IH [OF wf, of "ev @ evs"] Cons.prems(2) by auto
  have new': "dr_JobID d \<notin> dr_JobID ` set (filter (upheld T) ds)" using new by auto
  have "validators L u a = map_option (slash_by SlashMismatch ^^ slash_count T (d # ds) a) (validators L s a)" for a
    by (auto simp: IH(6) val slash_count_def option.map_comp comp_def funpow_swap1)
  moreover have "disputes L u a = (if a \<in> dr_JobID ` set (d # ds) then map_option resolve (disputes L s a) else disputes L s a)" for a
    using d(1) new by (cases "a = dr_JobID d") (auto simp: IH(4) dis)
  moreover have "jobs L u a = (if a \<in> dr_JobID ` set (filter (upheld T) (d # ds)) then map_option revert_job (jobs L s a) else jobs L s a)" for a
    using new' by (cases "a = dr_JobID d") (auto simp: IH(5) job)
  ultimately show ?case
    using one [of ev "ds @ rest"] IH(1-3) evs by (intro exI [of _ u] exI [of _ "evs @ evs'"]) auto
qed

lemma Tally_core:
  assumes "core_wf L s"
  shows "TallyExpiredDisputes L s slot =
    (if total_stake L s = 0 then (Inr [], s) else tally_loop L (total_stake L s) s [] (expired L s slot))"
proof -
  have "jobs_wf L s" using assms by (simp add: core_wf_def)
  then show ?thesis
    using assms by (simp add: TallyExpiredDisputes_def ListOpenDisputes_wf core_reads expired_def)
qed

text \<open>An upheld dispute that names no registered server or no job stops the tally, after the slash.\<close>

lemma tally_stuck:
  assumes "core_wf L s" "\<not> tally_ready L s T d"
  shows "\<exists>e t. (\<forall>ev ds. tally_loop L T s ev (d # ds) = (Inl e, t)) \<and> disputes L t = disputes L s \<and> jobs L t = jobs L s \<and>
    validators L t = (validators L s)(dr_ServingValidator d :=
       map_option (slash_by SlashMismatch) (validators L s (dr_ServingValidator d)))"
proof (cases "validators L s (dr_ServingValidator d)")
  case None
  then obtain e where "SlashBond L s (dr_ServingValidator d) SlashMismatch = (Inl e, s)"
    using assms(1) by (simp add: SlashBond_unknown)
  then show ?thesis
    using None assms(2) by (intro exI [of _ e] exI [of _ s]) (simp add: tally_ready_def upheld_def fun_upd_idem)
next
  case (Some v)
  let ?t = "put_slash L s v SlashMismatch"
  have t: "core_wf L ?t" "jobs L ?t (dr_JobID d) = None"
    using assms Some by (simp_all add: core_puts tally_ready_def)
  then obtain e where "RevertJob L ?t (dr_JobID d) = (Inl e, ?t)" by (simp add: RevertJob_def core_reads)
  then have "tally_loop L T s ev (d # ds) = (Inl e, ?t)" for ev ds
    using assms(2) by (simp add: tally_ready_def upheld_def SlashBond_core [OF assms(1) Some])
  then show ?thesis
    using assms(1) Some core_reads(5) [OF assms(1) Some]
    by (intro exI [of _ e] exI [of _ ?t]) (simp add: core_puts del: tally_loop.simps)
qed

text \<open>An upheld dispute against an address that is not registered stops the tally: the disputes behind it are
  not looked at, in this slot and in every later one.\<close>

lemma tally_blocked:
  assumes "core_wf L s" "total_stake L s \<noteq> 0" "expired L s slot = d # ds" "upheld (total_stake L s) d"
    and "validators L s (dr_ServingValidator d) = None"
  shows "\<exists>e. TallyExpiredDisputes L s slot = (Inl e, s)"
  using assms by (simp add: Tally_core upheld_def SlashBond_unknown)

lemma expired_rows:
  assumes "core_wf L s"
  shows "distinct (map dr_JobID (expired L s slot))"
    and "d \<in> set (expired L s slot) \<longleftrightarrow>
      disputes L s (dr_JobID d) = Some d \<and> \<not> dr_Resolved d \<and> dr_VoteDeadline d \<le>s slot"
proof -
  have wf: "jobs_wf L s" using assms by (simp add: core_wf_def)
  show "distinct (map dr_JobID (expired L s slot))"
    unfolding expired_def by (rule distinct_map_filter [OF distinct_dispute_rows [OF wf]])
  show "d \<in> set (expired L s slot) \<longleftrightarrow>
      disputes L s (dr_JobID d) = Some d \<and> \<not> dr_Resolved d \<and> dr_VoteDeadline d \<le>s slot"
    by (auto simp: expired_def dispute_rows_iff [OF wf])
qed

text \<open>The whole tally: the disputes before the first one that stops it, and that one.\<close>

lemma Tally_effect:
  fixes slot :: int64
  assumes wf: "core_wf L s" and T: "total_stake L s \<noteq> 0"
  defines "ds \<equiv> takeWhile (tally_ready L s (total_stake L s)) (expired L s slot)"
    and "stuck \<equiv> dropWhile (tally_ready L s (total_stake L s)) (expired L s slot)"
  shows "\<exists>r evs t. TallyExpiredDisputes L s slot = (r, t) \<and> (if stuck = [] then r = Inr evs else isl r) \<and>
    map (\<lambda>e. (e_ValidatorAddr e, e_JobID e)) evs =
      map (\<lambda>d. (dr_ServingValidator d, dr_JobID d)) (filter (upheld (total_stake L s)) ds) \<and>
    (\<forall>a. disputes L t a = (if a \<in> dr_JobID ` set ds then map_option resolve (disputes L s a) else disputes L s a)) \<and>
    (\<forall>a. jobs L t a = (if a \<in> dr_JobID ` set (filter (upheld (total_stake L s)) ds)
      then map_option revert_job (jobs L s a) else jobs L s a)) \<and>
    (\<forall>a. validators L t a = map_option (slash_by SlashMismatch ^^
      (slash_count (total_stake L s) ds a + (if stuck \<noteq> [] \<and> dr_ServingValidator (hd stuck) = a then 1 else 0))) (validators L s a))"
proof -
  note E = expired_rows [OF wf, where slot = slot]
  let ?T = "total_stake L s"
  have split: "expired L s slot = ds @ stuck" by (simp add: ds_def stuck_def)
  have "distinct (map dr_JobID ds)" using E(1) unfolding split by simp
  moreover have "disputes L s (dr_JobID d) = Some d" "tally_ready L s ?T d" if "d \<in> set ds" for d
    using that E(2) [of d] set_takeWhileD [of d] by (auto simp: ds_def)
  ultimately obtain t evs where t: "tally_loop L ?T s [] (ds @ stuck) = tally_loop L ?T t ([] @ evs) stuck" "core_wf L t"
    "map (\<lambda>e. (e_ValidatorAddr e, e_JobID e)) evs = map (\<lambda>d. (dr_ServingValidator d, dr_JobID d)) (filter (upheld ?T) ds)"
    "\<And>a. disputes L t a = (if a \<in> dr_JobID ` set ds then map_option resolve (disputes L s a) else disputes L s a)"
    "\<And>a. jobs L t a = (if a \<in> dr_JobID ` set (filter (upheld ?T) ds) then map_option revert_job (jobs L s a) else jobs L s a)"
    "\<And>a. validators L t a = map_option (slash_by SlashMismatch ^^ slash_count ?T ds a) (validators L s a)"
    using tally_all [OF wf, of ds ?T "[]" stuck] by blast
  have run: "TallyExpiredDisputes L s slot = tally_loop L ?T t evs stuck"
    using t(1) T by (simp add: Tally_core [OF wf] split)
  show ?thesis
  proof (cases stuck)
    case Nil
    then show ?thesis using run t by (intro exI [of _ "Inr evs"] exI [of _ evs] exI [of _ t]) simp
  next
    case (Cons d rest)
    then have "\<not> tally_ready L s ?T d" using hd_dropWhile [of "tally_ready L s ?T" "expired L s slot"] by (auto simp: stuck_def)
    then have nr: "\<not> tally_ready L t ?T d" by (auto simp: tally_ready_def t(5,6) split: if_splits)
    obtain e u where u: "\<And>ev ds. tally_loop L ?T t ev (d # ds) = (Inl e, u)"
      "disputes L u = disputes L t" "jobs L u = jobs L t"
      "validators L u = (validators L t)(dr_ServingValidator d :=
         map_option (slash_by SlashMismatch) (validators L t (dr_ServingValidator d)))"
      using tally_stuck [OF t(2) nr] by blast
    have "validators L u a = map_option (slash_by SlashMismatch ^^
      (slash_count ?T ds a + (if stuck \<noteq> [] \<and> dr_ServingValidator (hd stuck) = a then 1 else 0))) (validators L s a)" for a
      by (simp add: u(4) t(6) Cons option.map_comp comp_def)
    moreover have "TallyExpiredDisputes L s slot = (Inl e, u)" using run u(1) Cons by simp
    moreover have "if stuck = [] then Inl e = Inr evs else isl (Inl e)" using Cons by simp
    ultimately show ?thesis using t(3-5) unfolding u(2,3) [symmetric] by blast
  qed
qed

end

section \<open>Steps of the ledger\<close>

text \<open>Every call of the handler is a sequence of staking calls and of job steps, the steps of the ledger.\<close>

inductive core_step :: "'db db_api \<Rightarrow> hash_fn \<Rightarrow> 'db \<Rightarrow> 'db \<Rightarrow> bool" for L keccak where
  stake: "core_step L keccak s (staking_exec L op s)"
| job: "jobs_step L keccak s t \<Longrightarrow> core_step L keccak s t"

abbreviation core_steps :: "'db db_api \<Rightarrow> hash_fn \<Rightarrow> 'db \<Rightarrow> 'db \<Rightarrow> bool" where
  "core_steps L keccak \<equiv> (core_step L keccak)\<^sup>*\<^sup>*"

abbreviation "core_ns \<equiv> staking_ns \<union> jobs_ns"

definition core_inv :: "'db db_api \<Rightarrow> hash_fn \<Rightarrow> 'db \<Rightarrow> bool" where
  "core_inv L keccak s \<longleftrightarrow>
    core_wf L s \<and> active_bonded L s \<and> all_jobs L job_ok s \<and> all_jobs L (prompt_ok keccak) s \<and> voters_ok L s"

context leveldb
begin

lemma core_step_wf: "core_step L keccak s t \<Longrightarrow> core_wf L s \<Longrightarrow> core_wf L t"
proof (induction rule: core_step.induct)
  case (stake s op)
  then show ?case
    using staking_exec_wf [of s op] jobs_only(1) [OF staking_exec_only [of s op]] by (auto simp: core_wf_def)
next
  case (job s t)
  then have "jobs_wf L t" "only L jobs_ns s t"
    using jobs_step_wf [of keccak s t] by (simp_all add: core_wf_def)
  with job show ?case using staking_only(1) [of jobs_ns s t] by (simp add: core_wf_def)
qed

lemma core_step_only: "core_step L keccak s t \<Longrightarrow> core_wf L s \<Longrightarrow> only L core_ns s t"
proof (induction rule: core_step.induct)
  case (stake s op)
  then show ?case using only_mono [OF staking_exec_only [of s op]] by (auto simp: core_wf_def)
next
  case (job s t)
  then show ?case using only_mono [of L jobs_ns s t core_ns] jobs_step_wf [of keccak s t] by (auto simp: core_wf_def)
qed

lemma all_jobs_same: "jobs_wf L s \<Longrightarrow> jobs_wf L t \<Longrightarrow> jobs L t = jobs L s \<Longrightarrow> all_jobs L P t \<longleftrightarrow> all_jobs L P s"
  by (simp add: all_jobs_iff)

lemma voters_ok_same: "jobs_wf L s \<Longrightarrow> jobs_wf L t \<Longrightarrow> disputes L t = disputes L s \<Longrightarrow> voters_ok L t \<longleftrightarrow> voters_ok L s"
  by (simp add: voters_ok_iff)

lemma core_step_inv: "core_step L keccak s t \<Longrightarrow> core_inv L keccak s \<Longrightarrow> core_inv L keccak t"
proof (induction rule: core_step.induct)
  case (stake s op)
  then have wf: "staking_wf L s" "jobs_wf L s" "core_wf L (staking_exec L op s)"
    using core_step_wf [OF core_step.stake] by (auto simp: core_inv_def core_wf_def)
  have "jobs L (staking_exec L op s) = jobs L s" "disputes L (staking_exec L op s) = disputes L s"
    using jobs_only(2,3) [OF staking_exec_only [OF wf(1) wf(1)]] by simp_all
  with stake wf all_jobs_same [of s "staking_exec L op s"] voters_ok_same [of s "staking_exec L op s"] show ?case
    using staking_exec_active [of s op] by (simp add: core_inv_def core_wf_def)
next
  case (job s t)
  then have wf: "staking_wf L s" "jobs_wf L s" "core_wf L t" "only L jobs_ns s t"
    using core_step_wf [OF core_step.job [OF job(1)]] jobs_step_wf [OF job(1)] by (auto simp: core_inv_def core_wf_def)
  have "active_bonded L t"
    using job staking_only(3) [OF wf(4)] by (simp add: core_inv_def active_bonded_def)
  moreover have "all_jobs L job_ok t"
    by (rule jobs_step_inv [OF job(1) wf(2)])
      (use job job_trans_ok in \<open>auto simp: core_inv_def job_ok_def job_states\<close>)
  moreover have "all_jobs L (prompt_ok keccak) t"
    by (rule jobs_step_inv [OF job(1) wf(2)])
      (use job job_trans_prompt in \<open>auto simp: core_inv_def prompt_ok_def job_states\<close>)
  moreover have "voters_ok L t"
    using jobs_step_voters [OF job(1) wf(2)] job(2) by (simp add: core_inv_def)
  ultimately show ?case using wf by (simp add: core_inv_def)
qed

lemma core_only:
  assumes "only L N s t" "N \<inter> core_ns = {}"
  shows "core_wf L t \<longleftrightarrow> core_wf L s" and "core_wf L s \<Longrightarrow> core_inv L keccak t \<longleftrightarrow> core_inv L keccak s"
proof -
  have d: "N \<inter> staking_ns = {}" "N \<inter> jobs_ns = {}" using assms(2) by auto
  note st = staking_only [OF assms(1) d(1)] and jb = jobs_only [OF assms(1) d(2)]
  show wf: "core_wf L t \<longleftrightarrow> core_wf L s" using st(1) jb(1) by (simp add: core_wf_def)
  assume "core_wf L s"
  with wf have "jobs_wf L s" "jobs_wf L t" by (simp_all add: core_wf_def)
  with wf show "core_inv L keccak t \<longleftrightarrow> core_inv L keccak s"
    by (simp add: core_inv_def active_bonded_def st(3) all_jobs_same [OF _ _ jb(2)] voters_ok_same [OF _ _ jb(3)])
qed

lemma core_steps_wf: "core_steps L keccak s t \<Longrightarrow> core_wf L s \<Longrightarrow> core_wf L t"
  by (induction rule: rtranclp_induct) (auto intro: core_step_wf)

lemma core_steps_inv: "core_steps L keccak s t \<Longrightarrow> core_inv L keccak s \<Longrightarrow> core_inv L keccak t"
  by (induction rule: rtranclp_induct) (auto intro: core_step_inv)

lemma jobs_core: "jobs_steps L keccak s t \<Longrightarrow> core_steps L keccak s t"
  by (induction rule: rtranclp_induct) (auto intro: rtranclp.rtrancl_into_rtrancl core_step.job)

lemma stake_core: "core_steps L keccak s (staking_exec L op s)"
  by (blast intro: core_step.stake)

lemma slash_steps: "SlashBond L s a bps = (r, t) \<Longrightarrow> core_steps L keccak s t"
  using stake_core [of keccak s "OpSlash a bps"] by simp

lemma job_op_steps: "jobs_exec L keccak op s = t \<Longrightarrow> core_wf L s \<Longrightarrow> core_steps L keccak s t"
  using jobs_exec_steps [of s keccak op] by (auto simp: core_wf_def intro: jobs_core)

lemma UserDispute_steps:
  assumes "core_wf L s"
  shows "core_steps L keccak s (snd (ProcessUserDispute L keccak s tx slot))"
proof (cases "ProcessUserDispute L keccak s tx slot = (fst (ProcessUserDispute L keccak s tx slot), s)")
  case True
  then show ?thesis by (metis rtranclp.rtrancl_refl snd_conv)
next
  case False
  then obtain j c v where h: "jobs L s (dt_JobID tx) = Some j" "j_Commitment j = Some c"
      "oc_ValidatorAddr c = dt_ValidatorAddr tx" "validators L s (dt_ValidatorAddr tx) = Some v"
      "ComputeOutputHash keccak (dt_PlaintextOutput tx) (dt_JobID tx) (v_BLSPubKey v) \<noteq> oc_OutputHash c"
    using assms by (auto simp: ProcessUserDispute_def core_reads Let_def split: option.splits if_splits)
  define s1 where "s1 = put_slash L s v SlashMalicious"
  define s2 where "s2 = snd (OpenDispute L s1 (dt_JobID tx) (dt_ValidatorAddr tx) (dt_ValidatorAddr tx) ''user'' slot True)"
  define s3 where "s3 = snd (RevertJob L s2 (dt_JobID tx))"
  have s1: "core_steps L keccak s s1" "core_wf L s1" "jobs L s1 (dt_JobID tx) = Some j"
    using assms h slash_steps [OF SlashBond_core [OF assms h(4), of SlashMalicious]] by (simp_all add: s1_def core_puts)
  have s2: "core_steps L keccak s1 s2" "core_wf L s2" "jobs L s2 (dt_JobID tx) \<noteq> None"
    using s1 core_reads(6) [OF s1(2,3)]
    by (auto simp: s2_def OpenDispute_core core_puts
        intro!: job_op_steps [of keccak "OpOpenDispute (dt_JobID tx) (dt_ValidatorAddr tx) (dt_ValidatorAddr tx) ''user'' slot True"])
  have s3: "core_steps L keccak s2 s3"
    using s2 by (auto simp: s3_def intro!: job_op_steps [of keccak "OpRevertJob (dt_JobID tx)"])
  have "snd (ProcessUserDispute L keccak s tx slot) = s3"
    using h assms s1 s2 by (auto simp: ProcessUserDispute_def core_reads SlashBond_core OpenDispute_core
        RevertJob_core s3_def s2_def simp flip: s1_def)
  with s1 s2 s3 show ?thesis by (metis rtranclp_trans)
qed

lemma ObserverDispute_steps:
  assumes "core_wf L s"
  shows "core_steps L keccak s (snd (ProcessObserverDispute L s tx slot))"
proof -
  have "core_steps L keccak s (snd (OpenDispute L s a b c d slot imm))" for a b c d imm
    by (rule job_op_steps [of keccak "OpOpenDispute a b c d slot imm"]) (simp_all add: assms)
  then show ?thesis
    using assms by (auto simp: ProcessObserverDispute_def core_reads split: option.splits)
qed

lemma CastVote_core_steps:
  assumes "core_wf L s"
  shows "core_steps L keccak s (snd (CastVote L s tx))"
proof -
  have "core_steps L keccak s (snd (jobs_CastVote L s a b c n))" for a b c n
    by (rule job_op_steps [of keccak "OpCastVote a b c n"]) (simp_all add: assms)
  then show ?thesis
    using assms by (auto simp: CastVote_def core_reads split: option.splits)
qed

lemma tally_loop_steps: "core_wf L s \<Longrightarrow> core_steps L keccak s (snd (tally_loop L T s ev ds))"
proof (induction ds arbitrary: s ev)
  case (Cons d ds)
  have resolve: "core_steps L keccak t (snd (ResolveDispute L t a))" if "core_wf L t" for t a
    by (rule job_op_steps [of keccak "OpResolveDispute a"]) (simp_all add: that)
  have revert: "core_steps L keccak t (snd (RevertJob L t a))" if "core_wf L t" for t a
    by (rule job_op_steps [of keccak "OpRevertJob a"]) (simp_all add: that)
  have slash: "core_steps L keccak t (snd (SlashBond L t a bps))" for t a bps
    using stake_core [of keccak t "OpSlash a bps"] by simp
  define s1 where "s1 = snd (SlashBond L s (dr_ServingValidator d) SlashMismatch)"
  define s2 where "s2 = snd (RevertJob L s1 (dr_JobID d))"
  define s3 where "s3 = snd (ResolveDispute L s2 (dr_JobID d))"
  define t3 where "t3 = snd (ResolveDispute L s (dr_JobID d))"
  have s1: "core_steps L keccak s s1" "core_wf L s1"
    using slash core_steps_wf [OF slash Cons.prems] by (simp_all add: s1_def)
  have s2: "core_steps L keccak s s2" "core_wf L s2"
    using rtranclp_trans [OF s1(1) revert [OF s1(2)]] core_steps_wf Cons.prems unfolding s2_def by blast+
  have s3: "core_steps L keccak s s3" "core_wf L s3"
    using rtranclp_trans [OF s2(1) resolve [OF s2(2)]] core_steps_wf Cons.prems unfolding s3_def by blast+
  have t3: "core_steps L keccak s t3" "core_wf L t3"
    using resolve [OF Cons.prems] core_steps_wf Cons.prems unfolding t3_def by blast+
  have rest: "core_steps L keccak s (snd (tally_loop L T u ev ds))" if "core_steps L keccak s u" "core_wf L u" for u ev
    using rtranclp_trans [OF that(1) Cons.IH [OF that(2)]] .
  show ?case
    using s1 s2 s3 t3 rest
    by (auto simp: s1_def s2_def s3_def t3_def Let_def split: prod.splits sum.splits option.splits)
qed simp

lemma Tally_steps: "core_wf L s \<Longrightarrow> core_steps L keccak s (snd (TallyExpiredDisputes L s slot))"
  by (simp add: Tally_core tally_loop_steps)

end

lemmas [run_eval] = ProcessUserDispute_def ProcessObserverDispute_def CastVote_def TallyExpiredDisputes_def
  vote_threshold_def ProcessEquivocation_def ComputeOutputHash_def


lemma full_slash:
  assumes "0 \<le> sint (v_Bond v)" "sint (v_Bond v) * 10000 < 2 ^ 63"
  shows "slash_amount (v_Bond v) SlashMalicious = v_Bond v"
    and "v_Bond (slash_by SlashMalicious v) = 0" and "v_Status (slash_by SlashMalicious v) = StatusJailed"
    and "v_TotalStake (slash_by SlashMalicious v) = v_TotalStake v - v_Bond v"
proof -
  have "sint (slash_amount (v_Bond v) SlashMalicious) = sint (v_Bond v)"
    using slash_amount_exact(1) [of "v_Bond v" SlashMalicious] assms by (simp add: SlashMalicious_def)
  then show n: "slash_amount (v_Bond v) SlashMalicious = v_Bond v" by (rule signed_word_eqI)
  show "v_Bond (slash_by SlashMalicious v) = 0" "v_Status (slash_by SlashMalicious v) = StatusJailed"
    "v_TotalStake (slash_by SlashMalicious v) = v_TotalStake v - v_Bond v"
    by (simp_all add: slash_by_def n MinStake_def word_sless_alt)
qed

context leveldb
begin

lemma UserDispute_match:
  assumes "core_wf L s" "jobs L s (dt_JobID tx) = Some j" "j_Commitment j = Some c"
    and "oc_ValidatorAddr c = dt_ValidatorAddr tx" "validators L s (dt_ValidatorAddr tx) = Some v"
    and "ComputeOutputHash keccak (dt_PlaintextOutput tx) (dt_JobID tx) (v_BLSPubKey v) = oc_OutputHash c"
  shows "ProcessUserDispute L keccak s tx slot = (Inr None, s)"
  using assms by (simp add: ProcessUserDispute_def core_reads)

lemma UserDispute_fraud:
  assumes "core_wf L s" "jobs L s (dt_JobID tx) = Some j" "j_Commitment j = Some c"
    and "oc_ValidatorAddr c = dt_ValidatorAddr tx" "validators L s (dt_ValidatorAddr tx) = Some v"
    and "ComputeOutputHash keccak (dt_PlaintextOutput tx) (dt_JobID tx) (v_BLSPubKey v) \<noteq> oc_OutputHash c"
  obtains t where "ProcessUserDispute L keccak s tx slot =
      (Inr (Some \<lparr>e_ValidatorAddr = dt_ValidatorAddr tx, e_AmountSlashed = slash_amount (v_Bond v) SlashMalicious,
        e_Reason = ''user_dispute_proven'', e_JobID = dt_JobID tx\<rparr>), t)"
    and "validators L t = (validators L s)(dt_ValidatorAddr tx \<mapsto> slash_by SlashMalicious v)"
    and "total_stake L t = total_stake L s - slash_amount (v_Bond v) SlashMalicious"
    and "jobs L t = (jobs L s)(dt_JobID tx \<mapsto> revert_job j)"
    and "disputes L t = (disputes L s)(dt_JobID tx \<mapsto>
      new_dispute (dt_JobID tx) (dt_ValidatorAddr tx) (dt_ValidatorAddr tx) ''user'' slot True)"
proof
  let ?s1 = "put_slash L s v SlashMalicious"
  let ?j = "j\<lparr>j_State := JobDisputed\<rparr>"
  let ?d = "new_dispute (dt_JobID tx) (dt_ValidatorAddr tx) (dt_ValidatorAddr tx) ''user'' slot True"
  let ?s2 = "put_dispute L (put_job L ?s1 ?j) ?d"
  let ?t = "put_job L ?s2 (revert_job ?j)"
  note ids = core_reads(6) [OF assms(1,2)] core_reads(5) [OF assms(1,5)]
  have d: "dr_JobID ?d = dt_JobID tx" by (simp add: new_dispute_def)
  have r: "revert_job ?j = revert_job j" by (simp add: revert_job_def)
  have 1: "core_wf L ?s1" "jobs L ?s1 (dt_JobID tx) = Some j" using assms by (simp_all add: core_puts)
  have 2: "core_wf L ?s2" "jobs L ?s2 (dt_JobID tx) = Some ?j" using assms 1 ids by (simp_all add: core_puts)
  show "ProcessUserDispute L keccak s tx slot =
      (Inr (Some \<lparr>e_ValidatorAddr = dt_ValidatorAddr tx, e_AmountSlashed = slash_amount (v_Bond v) SlashMalicious,
        e_Reason = ''user_dispute_proven'', e_JobID = dt_JobID tx\<rparr>), ?t)"
    using assms SlashBond_core [OF assms(1,5), of SlashMalicious] OpenDispute_core [OF 1] RevertJob_core [OF 2]
    by (simp add: ProcessUserDispute_def core_reads)
  show "validators L ?t = (validators L s)(dt_ValidatorAddr tx \<mapsto> slash_by SlashMalicious v)"
    "total_stake L ?t = total_stake L s - slash_amount (v_Bond v) SlashMalicious"
    "jobs L ?t = (jobs L s)(dt_JobID tx \<mapsto> revert_job j)" "disputes L ?t = (disputes L s)(dt_JobID tx \<mapsto> ?d)"
    using 1 2 ids d r assms(1) by (simp_all add: core_puts)
qed

end

section \<open>Properties\<close>

text \<open>A ledger for the witnesses: the validator \<open>v1\<close> holds the stake, \<open>v2\<close> is another active validator,
  and \<open>v1\<close> has served job \<open>a\<close> with the hash of its output \<open>42\<close>.\<close>

definition example_ledger :: "(bytes \<times> json) list" where
  "example_ledger =
    jobs_run list_db pad_hash (butlast example_jobs_ops @
        [OpAddCommitment (example_output\<lparr>oc_OutputHash := ComputeOutputHash pad_hash ''42'' ''a'' ''bls''\<rparr>)])
      (staking_run list_db [OpRegister (example_register\<lparr>mr_Address := ''v2''\<rparr>) 1000000000000] example_db)"

lemma example_ledger_inv: "core_inv list_db pad_hash example_ledger"
proof -
  have base: "core_inv list_db pad_hash []"
    by (simp add: core_inv_def core_wf_def staking_wf_empty jobs_wf_empty active_bonded_empty all_jobs_def voters_ok_def run_eval)
  have stake: "core_inv list_db pad_hash (staking_run list_db ops s)" if "core_inv list_db pad_hash s" for ops s
    using that
  proof (induction ops arbitrary: s)
    case (Cons op ops)
    then show ?case using listdb.core_step_inv [OF core_step.stake] by simp
  qed simp
  have "core_inv list_db pad_hash (jobs_run list_db pad_hash ops s)" if "core_inv list_db pad_hash s" for ops s
    using that listdb.core_steps_inv [OF listdb.jobs_core [OF listdb.jobs_run_steps]]
    by (simp add: core_inv_def core_wf_def)
  with base stake show ?thesis unfolding example_ledger_def example_db_def by blast
qed

lemma example_ledger_wf: "core_wf list_db example_ledger"
  using example_ledger_inv by (simp add: core_inv_def)

lemma example_ledger_eval:
  "jobs list_db example_ledger ''a'' = Some (example_job ''a'' JobServed
     (Some (example_output\<lparr>oc_OutputHash := ComputeOutputHash pad_hash ''42'' ''a'' ''bls''\<rparr>)))"
  "validators list_db example_ledger ''v1'' = Some example_validator"
  "map_option v_Status (validators list_db example_ledger ''v2'') = Some StatusActive"
  "total_stake list_db example_ledger = 20000000700"
  by (simp_all add: example_ledger_def example_db_def example_ops_def example_register_def example_validator_def
      example_jobs_ops_def example_request_def example_job_def example_output_def run_eval keys)



text \<open>A user dispute does not establish fraud. The disputed plaintext is not tied to what the server
  returned, so anyone can take the whole bond of an honest server: if the server committed to the hash of
  its real output, a dispute with any other text (of a different hash) jails the server with no bond left,
  and only a dispute that presents the true output is harmless.\<close>

theorem honest_server_slashed:
  assumes "leveldb L" and "core_wf L s"
    and "jobs L s jid = Some j" and "j_Commitment j = Some c" and "oc_ValidatorAddr c = a"
    and "validators L s a = Some v" and "0 \<le> sint (v_Bond v)" and "sint (v_Bond v) * 10000 < 2 ^ 63"
    and honest: "oc_OutputHash c = ComputeOutputHash keccak output jid (v_BLSPubKey v)"
    and other: "ComputeOutputHash keccak fake jid (v_BLSPubKey v) \<noteq> ComputeOutputHash keccak output jid (v_BLSPubKey v)"
  shows "let dispute = (\<lambda>p. ProcessUserDispute L keccak s \<lparr>dt_JobID = jid, dt_ValidatorAddr = a, dt_PlaintextOutput = p\<rparr> slot)
    in dispute output = (Inr None, s) \<and>
       (\<exists>v'. validators L (snd (dispute fake)) a = Some v' \<and> v_Bond v' = 0 \<and> v_Status v' = StatusJailed)"
proof -
  let ?tx = "\<lambda>p. \<lparr>dt_JobID = jid, dt_ValidatorAddr = a, dt_PlaintextOutput = p\<rparr>"
  have h: "jobs L s (dt_JobID (?tx p)) = Some j" "oc_ValidatorAddr c = dt_ValidatorAddr (?tx p)"
    "validators L s (dt_ValidatorAddr (?tx p)) = Some v" for p
    using assms by simp_all
  have "ProcessUserDispute L keccak s (?tx output) slot = (Inr None, s)"
    using leveldb.UserDispute_match [OF assms(1,2) h(1) assms(4) h(2,3)] honest by simp
  moreover have "validators L (snd (ProcessUserDispute L keccak s (?tx fake) slot)) a = Some (slash_by SlashMalicious v)"
  proof -
    have "ComputeOutputHash keccak (dt_PlaintextOutput (?tx fake)) (dt_JobID (?tx fake)) (v_BLSPubKey v) \<noteq> oc_OutputHash c"
      using honest other by simp
    then show ?thesis
      by (rule leveldb.UserDispute_fraud [OF assms(1,2) h(1) assms(4) h(2,3), where slot = slot]) simp
  qed
  ultimately show ?thesis
    using full_slash(2,3) [OF assms(7,8)] by simp
qed

theorem honest_server_slashed_witness:
  "\<exists>v'. validators list_db (snd (ProcessUserDispute list_db pad_hash example_ledger
      \<lparr>dt_JobID = ''a'', dt_ValidatorAddr = ''v1'', dt_PlaintextOutput = ''lie''\<rparr> 6)) ''v1'' = Some v' \<and>
    v_Bond v' = 0 \<and> v_Status v' = StatusJailed"
proof -
  let ?c = "example_output\<lparr>oc_OutputHash := ComputeOutputHash pad_hash ''42'' ''a'' ''bls''\<rparr>"
  have h: "j_Commitment (example_job ''a'' JobServed (Some ?c)) = Some ?c" "oc_ValidatorAddr ?c = ''v1''"
    "0 \<le> sint (v_Bond example_validator)" "sint (v_Bond example_validator) * 10000 < 2 ^ 63"
    "oc_OutputHash ?c = ComputeOutputHash pad_hash ''42'' ''a'' (v_BLSPubKey example_validator)"
    "ComputeOutputHash pad_hash ''lie'' ''a'' (v_BLSPubKey example_validator) \<noteq>
      ComputeOutputHash pad_hash ''42'' ''a'' (v_BLSPubKey example_validator)"
    by (simp_all add: example_job_def example_output_def example_validator_def run_eval)
  show ?thesis
    using honest_server_slashed [OF listdb.leveldb_axioms example_ledger_wf example_ledger_eval(1) h(1,2)
        example_ledger_eval(2) h(3-6), of 6] by (simp add: Let_def)
qed



text \<open>C19: The tally is exact. Without any stake in the network it does nothing. Otherwise it goes through the
  disputes that are past their deadline and unresolved, in key order, up to the first upheld one that names
  a server that is not registered or a job that is not stored. The disputes before it are tallied: they become
  resolved, there is one event per upheld one, exactly the upheld jobs are reverted, and a validator loses a
  tenth of its bond once for every upheld dispute against it. If there is no such obstacle these are all expired disputes
  and the events are returned; at the obstacle the tally fails, its server (if registered) is slashed once more, and
  it and the disputes behind it stay as they were.\<close>

theorem TallyExpiredDisputes_exact:
  assumes "leveldb L" and "core_wf L s"
  shows "let T = total_stake L s;
      ds = takeWhile (tally_ready L s T) (expired L s slot);
      stuck = dropWhile (tally_ready L s T) (expired L s slot)
    in if T = 0 then TallyExpiredDisputes L s slot = (Inr [], s)
    else \<exists>r evs t. TallyExpiredDisputes L s slot = (r, t) \<and> (if stuck = [] then r = Inr evs else isl r) \<and>
      map (\<lambda>e. (e_ValidatorAddr e, e_JobID e)) evs =
        map (\<lambda>d. (dr_ServingValidator d, dr_JobID d)) (filter (upheld T) ds) \<and>
      (\<forall>a. disputes L t a = (if a \<in> dr_JobID ` set ds then map_option resolve (disputes L s a) else disputes L s a)) \<and>
      (\<forall>a. jobs L t a = (if a \<in> dr_JobID ` set (filter (upheld T) ds)
        then map_option revert_job (jobs L s a) else jobs L s a)) \<and>
      (\<forall>a. validators L t a = map_option (slash_by SlashMismatch ^^
        (slash_count T ds a + (if stuck \<noteq> [] \<and> dr_ServingValidator (hd stuck) = a then 1 else 0))) (validators L s a))"
proof (cases "total_stake L s = 0")
  case True
  then show ?thesis by (simp add: leveldb.Tally_core [OF assms])
next
  case False
  show ?thesis
    using leveldb.Tally_effect [OF assms False, of slot] unfolding Let_def if_not_P [OF False] .
qed

text \<open>A dispute on the served job with all the stake of \<open>v1\<close> and \<open>v2\<close> behind it.\<close>

definition example_disputed :: "(bytes \<times> json) list" where
  "example_disputed = put_dispute list_db example_ledger
    (new_dispute ''a'' ''v1'' ''v2'' ''observer'' 6 False\<lparr>dr_VotesUphold := 20000000700\<rparr>)"

lemma example_disputed_eval:
  "core_wf list_db example_disputed"
  "validators list_db example_disputed = validators list_db example_ledger"
  "jobs list_db example_disputed = jobs list_db example_ledger"
  "total_stake list_db example_disputed = 20000000700"
  "disputes list_db example_disputed ''a'' =
    Some (new_dispute ''a'' ''v1'' ''v2'' ''observer'' 6 False\<lparr>dr_VotesUphold := 20000000700\<rparr>)"
  using listdb.put_dispute_core [OF example_ledger_wf] example_ledger_eval(4)
  by (simp_all add: example_disputed_def new_dispute_def)

lemma example_disputed_expired:
  "expired list_db example_disputed 16 =
    [new_dispute ''a'' ''v1'' ''v2'' ''observer'' 6 False\<lparr>dr_VotesUphold := 20000000700\<rparr>]"
  by (simp add: expired_def example_disputed_def put_dispute_def new_dispute_def example_ledger_def example_db_def
      example_ops_def example_register_def example_jobs_ops_def example_request_def example_output_def run_eval keys)

theorem TallyExpiredDisputes_exact_witness:
  "\<exists>t evs. TallyExpiredDisputes list_db example_disputed 16 = (Inr evs, t) \<and>
    map e_ValidatorAddr evs = [''v1''] \<and> map_option dr_Resolved (disputes list_db t ''a'') = Some True \<and>
    map_option j_State (jobs list_db t ''a'') = Some JobReverted \<and>
    map_option v_Bond (validators list_db t ''v1'') = Some 9000000000"
proof -
  let ?T = "20000000700 :: int64" and ?E = "expired list_db example_disputed 16"
  have up: "filter (upheld ?T) ?E = ?E"
    by (simp add: example_disputed_expired upheld_def run_eval)
  have all: "takeWhile (tally_ready list_db example_disputed ?T) ?E = ?E" "dropWhile (tally_ready list_db example_disputed ?T) ?E = []"
    by (simp_all add: example_disputed_expired tally_ready_def example_disputed_eval example_ledger_eval new_dispute_def)
  have count: "slash_count ?T ?E ''v1'' = 1"
    by (simp add: example_disputed_expired slash_count_def upheld_def new_dispute_def run_eval)
  have v: "v_Bond (slash_by SlashMismatch example_validator) = 9000000000"
    by (simp add: slash_by_def example_validator_def run_eval)
  have T: "?T \<noteq> 0" by simp
  from TallyExpiredDisputes_exact [OF listdb.leveldb_axioms example_disputed_eval(1), of 16]
  obtain t evs where t: "TallyExpiredDisputes list_db example_disputed 16 = (Inr evs, t)"
    "map (\<lambda>e. (e_ValidatorAddr e, e_JobID e)) evs =
      map (\<lambda>d. (dr_ServingValidator d, dr_JobID d)) (filter (upheld ?T) ?E)"
    "disputes list_db t ''a'' = (if ''a'' \<in> dr_JobID ` set ?E then map_option resolve (disputes list_db example_disputed ''a'')
      else disputes list_db example_disputed ''a'')"
    "jobs list_db t ''a'' = (if ''a'' \<in> dr_JobID ` set (filter (upheld ?T) ?E)
      then map_option revert_job (jobs list_db example_disputed ''a'') else jobs list_db example_disputed ''a'')"
    "validators list_db t ''v1'' = map_option (slash_by SlashMismatch ^^ (slash_count ?T ?E ''v1'' + 0))
      (validators list_db example_disputed ''v1'')"
    unfolding Let_def example_disputed_eval(4) all if_not_P [OF T] by auto
  have "map e_ValidatorAddr evs = map fst (map (\<lambda>e. (e_ValidatorAddr e, e_JobID e)) evs)" by simp
  also have "\<dots> = [''v1'']"
    unfolding t(2) up by (simp add: example_disputed_expired new_dispute_def)
  finally show ?thesis
    using t(1,3,4,5) unfolding up count
    by (simp add: v example_disputed_eval example_disputed_expired example_ledger_eval new_dispute_def resolve_def
        revert_job_def DisputeWindow_def VoteWindow_def)
qed




text \<open>Votes do not survive a second observer dispute. The record of a dispute is overwritten when
  another observer dispute arrives for the same job: the votes cast so far are gone and the deadline moves,
  so that a dispute with all the stake behind it is tallied as dismissed and the server keeps its bond.\<close>

theorem reopened_dispute_loses_votes:
  "let t = snd (ProcessObserverDispute list_db example_disputed
        \<lparr>od_JobID = ''a'', od_ObserverAddr = ''v2'', od_ObserverOutputHash = [], od_Signature = []\<rparr> 15)
   in map_option dr_VotesUphold (disputes list_db t ''a'') = Some 0 \<and>
      map_option dr_VoteDeadline (disputes list_db t ''a'') = Some 25 \<and>
      fst (TallyExpiredDisputes list_db t 16) = Inr [] \<and> fst (TallyExpiredDisputes list_db t 25) = Inr []"
  by (simp add: example_disputed_def put_dispute_def new_dispute_def example_ledger_def example_db_def
      example_ops_def example_register_def example_jobs_ops_def example_request_def example_output_def run_eval keys)

end
