(* ===== verification/GoSort.thy ===== *)
theory GoSort
  imports Prelude "HOL-Library.Multiset"
begin

text \<open>
  Go's \<open>sort.Slice\<close>, as the programs of this repository rely on it: the result is a permutation of
  the slice, and it is sorted if the comparison is a strict weak order. The order of elements that the
  comparison does not separate is not specified, so the operation is a parameter (locale \<open>go_sort\<close>).
  Insertion sort, which is what the library runs on short slices, is an instance.
\<close>

definition strict_weak :: "('a \<Rightarrow> 'a \<Rightarrow> bool) \<Rightarrow> 'a set \<Rightarrow> bool" where
  "strict_weak lt A \<longleftrightarrow>
    (\<forall>x \<in> A. \<not> lt x x) \<and>
    (\<forall>x \<in> A. \<forall>y \<in> A. \<forall>z \<in> A. lt x y \<longrightarrow> lt y z \<longrightarrow> lt x z) \<and>
    (\<forall>x \<in> A. \<forall>y \<in> A. \<forall>z \<in> A. lt x z \<longrightarrow> lt x y \<or> lt y z)"

locale go_sort =
  fixes sort_slice :: "('a \<Rightarrow> 'a \<Rightarrow> bool) \<Rightarrow> 'a list \<Rightarrow> 'a list"
  assumes mset_sort: "mset (sort_slice lt xs) = mset xs"
    and sorted_sort: "strict_weak lt (set xs) \<Longrightarrow> sorted_wrt (\<lambda>x y. \<not> lt y x) (sort_slice lt xs)"
begin

lemma set_sort [simp]: "set (sort_slice lt xs) = set xs"
  using mset_sort [of lt xs] by (metis set_mset_mset)

lemma length_sort [simp]: "length (sort_slice lt xs) = length xs"
  using mset_sort [of lt xs] by (metis size_mset)

text \<open>When a key that is injective on the slice decides the comparison, the result is determined.\<close>

lemma sort_slice_key:
  fixes key :: "'a \<Rightarrow> 'k :: linorder"
  assumes lt: "\<And>x y. x \<in> set xs \<Longrightarrow> y \<in> set xs \<Longrightarrow> lt x y \<longleftrightarrow> key x < key y"
    and inj: "inj_on key (set xs)" and "distinct xs"
  shows "sort_slice lt xs = sort_key key xs"
proof (rule map_sorted_distinct_set_unique [of key])
  have weak: "strict_weak lt (set xs)"
    using lt by (auto simp: strict_weak_def)
  have "sorted_wrt (\<lambda>x y. key x \<le> key y) (sort_slice lt xs)"
    by (rule sorted_wrt_mono_rel [OF _ sorted_sort [OF weak]]) (use lt in \<open>auto simp: not_less\<close>)
  then show "sorted (map key (sort_slice lt xs))" by (simp add: sorted_wrt_map)
  have d: "distinct (sort_slice lt xs)"
    using assms(3) mset_sort [of lt xs] by (metis mset_eq_imp_distinct_iff)
  then show "distinct (map key (sort_slice lt xs))" using inj by (simp add: distinct_map)
  show "distinct (map key (sort_key key xs))" using inj assms(3) by (simp add: distinct_map)
qed (use inj in simp_all)

end

fun insert_by :: "('a \<Rightarrow> 'a \<Rightarrow> bool) \<Rightarrow> 'a \<Rightarrow> 'a list \<Rightarrow> 'a list" where
  "insert_by lt x [] = [x]"
| "insert_by lt x (y # ys) = (if lt y x then y # insert_by lt x ys else x # y # ys)"

definition insertion_sort :: "('a \<Rightarrow> 'a \<Rightarrow> bool) \<Rightarrow> 'a list \<Rightarrow> 'a list" where
  "insertion_sort lt xs = foldr (insert_by lt) xs []"

lemma mset_insert_by: "mset (insert_by lt x ys) = add_mset x (mset ys)"
  by (induction ys) auto

lemma mset_insertion_sort: "mset (insertion_sort lt xs) = mset xs"
  by (induction xs) (simp_all add: insertion_sort_def mset_insert_by)

lemma strict_weakD:
  assumes "strict_weak lt A" "x \<in> A" "y \<in> A" "z \<in> A"
  shows "\<not> lt x x" and "lt x y \<Longrightarrow> lt y z \<Longrightarrow> lt x z" and "lt x z \<Longrightarrow> lt x y \<or> lt y z"
proof -
  note weak = assms(1) [unfolded strict_weak_def]
  show "\<not> lt x x" using conjunct1 [OF weak] assms(2) by blast
  show "lt x y \<Longrightarrow> lt y z \<Longrightarrow> lt x z" using conjunct1 [OF conjunct2 [OF weak]] assms(2-4) by meson
  show "lt x z \<Longrightarrow> lt x y \<or> lt y z" using conjunct2 [OF conjunct2 [OF weak]] assms(2-4) by meson
qed

lemma strict_weak_mono: "strict_weak lt A \<Longrightarrow> B \<subseteq> A \<Longrightarrow> strict_weak lt B"
  unfolding strict_weak_def by (meson subsetD)

lemma sorted_insert_by:
  assumes "strict_weak lt (insert x (set ys))" "sorted_wrt (\<lambda>x y. \<not> lt y x) ys"
  shows "sorted_wrt (\<lambda>x y. \<not> lt y x) (insert_by lt x ys)"
  using assms
proof (induction ys)
  case (Cons y ys)
  have set: "set (insert_by lt x ys) = insert x (set ys)" using mset_insert_by [of lt x ys]
    by (metis set_mset_add_mset_insert set_mset_mset)
  have weak: "strict_weak lt (insert x (set ys))" using Cons.prems(1) by (rule strict_weak_mono) auto
  note W = strict_weakD [OF Cons.prems(1)]
  show ?case
  proof (cases "lt y x")
    case True
    then have "\<not> lt x y" using W(1,2) [of y x y] by auto
    with True Cons weak set show ?thesis by auto
  next
    case False
    then have "\<not> lt z x" if "z \<in> set ys" for z
      using W(3) [of z y x] that Cons.prems(2) by auto
    with False Cons.prems show ?thesis by auto
  qed
qed simp

lemma sorted_insertion_sort:
  "strict_weak lt (set xs) \<Longrightarrow> sorted_wrt (\<lambda>x y. \<not> lt y x) (insertion_sort lt xs)"
proof (induction xs)
  case (Cons x xs)
  have set: "set (insertion_sort lt xs) = set xs"
    using mset_insertion_sort [of lt xs] by (metis set_mset_mset)
  have "strict_weak lt (set xs)" using Cons.prems by (rule strict_weak_mono) auto
  with Cons set sorted_insert_by [of lt x "insertion_sort lt xs"] show ?case
    by (simp add: insertion_sort_def)
qed (simp add: insertion_sort_def)

interpretation insertion: go_sort insertion_sort
  by unfold_locales (simp_all add: mset_insertion_sort sorted_insertion_sort)

lemmas [run_eval] = insertion_sort_def

end
