(* ===== verification/Vrf.thy ===== *)
theory Vrf
  imports Staking GoSort
begin

text \<open>
  chain/modules/vrf/vrf.go: the election of the proposer and the serving validator of a slot by sorting
  the active validators by a hash of the epoch seed, the slot and their address. The sort of the slice is
  a parameter with the contract of \<open>sort.Slice\<close> (locale \<open>go_sort\<close>).
\<close>

section \<open>Operations\<close>

record Proof =
  pf_ValidatorAddr :: string
  pf_Hash :: bytes
  pf_Stake :: int64

text \<open>The loop of the comparison over the bytes both hashes have; no difference is a tie.\<close>

fun compare_hash :: "bytes \<Rightarrow> bytes \<Rightarrow> bool option" where
  "compare_hash (a # as) (b # bs) = (if a \<noteq> b then Some (a < b) else compare_hash as bs)"
| "compare_hash _ _ = None"

definition proof_less :: "Proof \<Rightarrow> Proof \<Rightarrow> bool" where
  "proof_less p q =
    (case compare_hash (pf_Hash p) (pf_Hash q) of
       Some b \<Rightarrow> b
     | None \<Rightarrow> pf_Stake q <s pf_Stake p)"

fun vrf_proofs :: "hash_fn \<Rightarrow> bytes \<Rightarrow> bytes \<Rightarrow> Validator list \<Rightarrow> Proof list" where
  "vrf_proofs keccak epochSeed slotBytes [] = []"
| "vrf_proofs keccak epochSeed slotBytes (v # vs) =
    (if v_Status v \<noteq> StatusActive then vrf_proofs keccak epochSeed slotBytes vs
     else \<lparr>pf_ValidatorAddr = v_Address v,
           pf_Hash = Keccak256 keccak [epochSeed, slotBytes, v_Address v],
           pf_Stake = v_TotalStake v\<rparr> # vrf_proofs keccak epochSeed slotBytes vs)"

definition ElectSlot ::
  "((Proof \<Rightarrow> Proof \<Rightarrow> bool) \<Rightarrow> Proof list \<Rightarrow> Proof list) \<Rightarrow> hash_fn \<Rightarrow> bytes \<Rightarrow> int64 \<Rightarrow> Validator list \<Rightarrow>
    string \<times> string" where
  "ElectSlot sort_slice keccak epochSeed slot vs =
    (let slotBytes = be64 slot;
         proofs = sort_slice proof_less (vrf_proofs keccak epochSeed slotBytes vs)
     in case proofs of
          [] \<Rightarrow> ([], [])
        | [p] \<Rightarrow> (pf_ValidatorAddr p, pf_ValidatorAddr p)
        | p # q # _ \<Rightarrow> (pf_ValidatorAddr p, pf_ValidatorAddr q))"

definition EpochSeed :: "hash_fn \<Rightarrow> bytes \<Rightarrow> int64 \<Rightarrow> bytes" where
  "EpochSeed keccak lastBlockHash epoch = Keccak256 keccak [lastBlockHash, be64 epoch]"

section \<open>The comparison\<close>

definition active :: "Validator list \<Rightarrow> Validator list" where
  "active vs = filter (\<lambda>v. v_Status v = StatusActive) vs"

definition vrf_hash :: "hash_fn \<Rightarrow> bytes \<Rightarrow> int64 \<Rightarrow> string \<Rightarrow> bytes" where
  "vrf_hash keccak epochSeed slot addr = keccak (epochSeed @ be64 slot @ addr)"

lemma vrf_proofs_map:
  "vrf_proofs keccak seed (be64 slot) vs =
    map (\<lambda>v. \<lparr>pf_ValidatorAddr = v_Address v, pf_Hash = vrf_hash keccak seed slot (v_Address v),
              pf_Stake = v_TotalStake v\<rparr>) (active vs)"
  by (induction vs) (simp_all add: active_def vrf_hash_def Keccak256_concat)

lemma compare_hash_lex:
  "length a = length b \<Longrightarrow> compare_hash a b = (if a = b then None else Some (a < b))"
  by (induction a b rule: compare_hash.induct) auto

lemma proof_less_iff:
  assumes "length (pf_Hash p) = length (pf_Hash q)"
  shows "proof_less p q \<longleftrightarrow>
    pf_Hash p < pf_Hash q \<or> (pf_Hash p = pf_Hash q \<and> pf_Stake q <s pf_Stake p)"
  using assms by (auto simp: proof_less_def compare_hash_lex)

lemma proof_less_weak:
  assumes "\<And>p. p \<in> A \<Longrightarrow> length (pf_Hash p) = n"
  shows "strict_weak proof_less A"
proof -
  have "proof_less p q \<longleftrightarrow> pf_Hash p < pf_Hash q \<or> (pf_Hash p = pf_Hash q \<and> sint (pf_Stake q) < sint (pf_Stake p))"
    if "p \<in> A" "q \<in> A" for p q
    using proof_less_iff [of p q] assms that by (simp add: word_sless_alt)
  then show ?thesis
    unfolding strict_weak_def by (auto dest: less_trans)
qed

section \<open>Elections\<close>

text \<open>What an election is among the active validators, without a sort: the proposer's hash is minimal,
  the server's is minimal among the others, and a single active validator has both roles.\<close>

definition elected :: "(string \<Rightarrow> bytes) \<Rightarrow> string list \<Rightarrow> string \<times> string \<Rightarrow> bool" where
  "elected h addrs r \<longleftrightarrow>
    (case r of (proposer, server) \<Rightarrow>
      proposer \<in> set addrs \<and> server \<in> set addrs \<and>
      list_all (\<lambda>a. h proposer \<le> h a) addrs \<and>
      list_all (\<lambda>a. a = proposer \<or> h server \<le> h a) addrs \<and>
      (proposer = server \<longleftrightarrow> length addrs = 1))"

definition elect_spec :: "(string \<Rightarrow> bytes) \<Rightarrow> string list \<Rightarrow> string \<times> string" where
  "elect_spec h addrs =
    (case sort_key h addrs of [] \<Rightarrow> ([], []) | [a] \<Rightarrow> (a, a) | a # b # _ \<Rightarrow> (a, b))"

lemma elected_sorted:
  assumes "sorted_wrt (\<lambda>a b. h a \<le> h b) as" "distinct as" "set as = set bs" "length as = length bs" "bs \<noteq> []"
  shows "elected h bs (case as of [] \<Rightarrow> ([], []) | [a] \<Rightarrow> (a, a) | a # b # _ \<Rightarrow> (a, b))"
proof -
  have "as \<noteq> []" using assms(4,5) by auto
  with assms(1,2) show ?thesis
    unfolding elected_def list_all_iff assms(3) [symmetric] assms(4) [symmetric] by (auto split: list.split)
qed

lemma sorted_proofs:
  assumes "go_sort sort_slice" and "hash32 keccak"
  shows "sorted_wrt (\<lambda>p q. pf_Hash p \<le> pf_Hash q) (sort_slice proof_less (vrf_proofs keccak seed (be64 slot) vs))"
proof -
  let ?ps = "vrf_proofs keccak seed (be64 slot) vs"
  have len: "length (pf_Hash p) = 32" if "p \<in> set ?ps" for p
    using that hash32D [OF assms(2)] by (auto simp: vrf_proofs_map vrf_hash_def)
  have "pf_Hash p \<le> pf_Hash q" if "p \<in> set ?ps" "q \<in> set ?ps" "\<not> proof_less q p" for p q
    using that len [of p] len [of q] proof_less_iff [of q p] by (simp add: not_less)
  with go_sort.sorted_sort [OF assms(1) proof_less_weak [OF len]] show ?thesis
    by (rule sorted_wrt_mono_rel [rotated]) (auto simp: go_sort.set_sort [OF assms(1)])
qed

lemma ElectSlot_sorted:
  assumes "go_sort sort_slice"
  obtains ps where "mset ps = mset (vrf_proofs keccak seed (be64 slot) vs)"
    "ps = sort_slice proof_less (vrf_proofs keccak seed (be64 slot) vs)"
    "ElectSlot sort_slice keccak seed slot vs = (case map pf_ValidatorAddr ps of [] \<Rightarrow> ([], []) | [a] \<Rightarrow> (a, a) | a # b # _ \<Rightarrow> (a, b))"
proof (rule that [OF _ refl])
  show "mset (sort_slice proof_less (vrf_proofs keccak seed (be64 slot) vs)) = mset (vrf_proofs keccak seed (be64 slot) vs)"
    using go_sort.mset_sort [OF assms] .
qed (simp add: ElectSlot_def split: list.split)

lemma vrf_proofs_inj:
  assumes "distinct (map v_Address (active vs))" "inj_on (vrf_hash keccak seed slot) (set (map v_Address (active vs)))"
  shows "inj_on pf_Hash (set (vrf_proofs keccak seed (be64 slot) vs))" and "distinct (vrf_proofs keccak seed (be64 slot) vs)"
  using assms by (auto simp: vrf_proofs_map inj_on_def distinct_map)

lemma ElectSlot_spec:
  assumes "go_sort sort_slice" and "hash32 keccak" and "distinct (map v_Address (active vs))"
    and "inj_on (vrf_hash keccak seed slot) (set (map v_Address (active vs)))"
  shows "ElectSlot sort_slice keccak seed slot vs = elect_spec (vrf_hash keccak seed slot) (map v_Address (active vs))"
proof -
  let ?h = "vrf_hash keccak seed slot"
  let ?ps = "vrf_proofs keccak seed (be64 slot) vs"
  let ?as = "map v_Address (active vs)"
  note inj = vrf_proofs_inj [OF assms(3,4)]
  have "proof_less p q \<longleftrightarrow> pf_Hash p < pf_Hash q" if "p \<in> set ?ps" "q \<in> set ?ps" for p q
  proof -
    have "length (pf_Hash p) = length (pf_Hash q)" using that hash32D [OF assms(2)] by (auto simp: vrf_proofs_map vrf_hash_def)
    moreover have "pf_Hash p \<noteq> pf_Hash q \<or> p = q" using that inj(1) by (auto simp: inj_on_def)
    ultimately show ?thesis by (auto simp: proof_less_iff)
  qed
  then have "sort_slice proof_less ?ps = sort_key pf_Hash ?ps"
    using go_sort.sort_slice_key [OF assms(1) _ inj] by simp
  moreover have "map pf_ValidatorAddr (sort_key pf_Hash ?ps) = sort_key ?h ?as"
  proof (rule map_sorted_distinct_set_unique [of ?h])
    have h: "map ?h (map pf_ValidatorAddr (sort_key pf_Hash ?ps)) = map pf_Hash (sort_key pf_Hash ?ps)"
      by (auto simp: vrf_proofs_map)
    show "sorted (map ?h (map pf_ValidatorAddr (sort_key pf_Hash ?ps)))"
      "distinct (map ?h (map pf_ValidatorAddr (sort_key pf_Hash ?ps)))"
      unfolding h using inj by (simp_all add: distinct_map)
    show s: "set (map pf_ValidatorAddr (sort_key pf_Hash ?ps)) = set (sort_key ?h ?as)"
      by (force simp: vrf_proofs_map)
    show "inj_on ?h (set (map pf_ValidatorAddr (sort_key pf_Hash ?ps)) \<union> set (sort_key ?h ?as))"
      unfolding s using assms(4) by simp
    show "distinct (map ?h (sort_key ?h ?as))"
      using assms(3,4) by (simp add: distinct_map)
  qed simp
  moreover obtain ps where "ps = sort_slice proof_less ?ps" "ElectSlot sort_slice keccak seed slot vs =
      (case map pf_ValidatorAddr ps of [] \<Rightarrow> ([], []) | [a] \<Rightarrow> (a, a) | a # b # _ \<Rightarrow> (a, b))"
    using ElectSlot_sorted [OF assms(1)] by blast
  ultimately show ?thesis by (simp only: elect_spec_def)
qed

section \<open>Properties\<close>

definition example_set :: "Validator list" where
  "example_set =
    [zero_Validator\<lparr>v_Address := ''c''\<rparr>, zero_Validator\<lparr>v_Address := ''a'', v_Status := StatusJailed\<rparr>,
     zero_Validator\<lparr>v_Address := ''b''\<rparr>, zero_Validator\<lparr>v_Address := ''d''\<rparr>]"

text \<open>C21: An election chooses active validators only. With 32-byte hashes and distinct addresses, and at
  least one active validator, the proposer and the server are active members of the set; the proposer has
  the least hash, the server the least hash of the others, and they differ unless only one validator is
  active. With no active validator both are empty. This holds for every permutation the sort may return.\<close>

theorem ElectSlot_elected:
  assumes "go_sort sort_slice" and "hash32 keccak" and "distinct (map v_Address (active vs))"
  shows "if active vs = [] then ElectSlot sort_slice keccak seed slot vs = ([], [])
    else elected (vrf_hash keccak seed slot) (map v_Address (active vs)) (ElectSlot sort_slice keccak seed slot vs)"
proof -
  obtain ps where ps: "mset ps = mset (vrf_proofs keccak seed (be64 slot) vs)"
    "ps = sort_slice proof_less (vrf_proofs keccak seed (be64 slot) vs)"
    "ElectSlot sort_slice keccak seed slot vs =
      (case map pf_ValidatorAddr ps of [] \<Rightarrow> ([], []) | [a] \<Rightarrow> (a, a) | a # b # _ \<Rightarrow> (a, b))"
    using ElectSlot_sorted [OF assms(1)] by blast
  let ?as = "map v_Address (active vs)"
  let ?h = "vrf_hash keccak seed slot"
  have hash: "pf_Hash p = ?h (pf_ValidatorAddr p)" if "p \<in> set ps" for p
    using that mset_eq_setD [OF ps(1)] by (auto simp: vrf_proofs_map)
  have "mset (map pf_ValidatorAddr ps) = mset ?as"
    using ps(1) by (metis (mono_tags, lifting) map_map mset_map vrf_proofs_map comp_def map_cong Proof.select_convs(1))
  then have m: "set (map pf_ValidatorAddr ps) = set ?as" "length (map pf_ValidatorAddr ps) = length ?as"
    "distinct (map pf_ValidatorAddr ps)"
    using assms(3) mset_eq_setD mset_eq_length mset_eq_imp_distinct_iff by blast+
  have "sorted_wrt (\<lambda>a b. ?h a \<le> ?h b) (map pf_ValidatorAddr ps)"
    using sorted_proofs [OF assms(1,2), of seed slot vs] unfolding ps(2) [symmetric] sorted_wrt_map
    by (rule sorted_wrt_mono_rel [rotated]) (use hash in simp)
  from elected_sorted [OF this m(3,1,2)] m ps(3) show ?thesis by auto
qed

theorem ElectSlot_elected_witness:
  "ElectSlot insertion_sort pad_hash [] 1 example_set = (''b'', ''c'') \<and>
   elected (vrf_hash pad_hash [] 1) [''c'', ''b'', ''d''] (''b'', ''c'')"
proof -
  have a: "map v_Address (active example_set) = [''c'', ''b'', ''d'']"
    by (simp add: active_def example_set_def zero_Validator_def StatusActive_def StatusJailed_def)
  have d: "distinct (map v_Address (active example_set))" by (simp add: a)
  have "ElectSlot insertion_sort pad_hash [] 1 example_set = (''b'', ''c'')"
    by (simp add: ElectSlot_def example_set_def zero_Validator_def proof_less_def run_eval)
  moreover have "active example_set \<noteq> []" using a by auto
  ultimately show ?thesis
    using ElectSlot_elected [OF insertion.go_sort_axioms hash32_pad_hash d, where seed = "[]" and slot = 1] by (simp add: a)
qed

text \<open>C22: Elections are deterministic across nodes. When no two active validators have the same hash, the
  result depends only on the set of active addresses: two nodes that list the validators in different
  orders, with different stakes and with different sort implementations, elect the same pair, namely the
  first two addresses in hash order. In particular the stake of a validator has no influence on its chance.\<close>

theorem ElectSlot_deterministic:
  assumes "go_sort sort_slice" and "go_sort sort_slice'" and "hash32 keccak"
    and "distinct (map v_Address (active vs))" and "distinct (map v_Address (active vs'))"
    and "set (map v_Address (active vs)) = set (map v_Address (active vs'))"
    and "inj_on (vrf_hash keccak seed slot) (set (map v_Address (active vs)))"
  shows "ElectSlot sort_slice keccak seed slot vs = elect_spec (vrf_hash keccak seed slot) (map v_Address (active vs)) \<and>
    ElectSlot sort_slice keccak seed slot vs = ElectSlot sort_slice' keccak seed slot vs'"
proof -
  let ?h = "vrf_hash keccak seed slot"
  note spec = ElectSlot_spec [where keccak = keccak and seed = seed and slot = slot, OF _ assms(3)]
  have "sort_key ?h (map v_Address (active vs)) = sort_key ?h (map v_Address (active vs'))"
    by (rule map_sorted_distinct_set_unique [of ?h])
      (use assms(4-7) in \<open>simp_all add: distinct_map\<close>)
  with spec [OF assms(1,4,7)] spec [OF assms(2,5)] assms(6,7) show ?thesis
    by (simp add: elect_spec_def)
qed

theorem ElectSlot_deterministic_witness:
  "ElectSlot insertion_sort pad_hash [] 1 example_set =
   ElectSlot insertion_sort pad_hash [] 1 (map (v_TotalStake_update (\<lambda>_. 7)) (rev example_set))"
proof -
  let ?vs' = "map (v_TotalStake_update (\<lambda>_. 7)) (rev example_set)"
  have a: "map v_Address (active example_set) = [''c'', ''b'', ''d'']" "map v_Address (active ?vs') = [''d'', ''b'', ''c'']"
    by (simp_all add: active_def example_set_def zero_Validator_def StatusActive_def StatusJailed_def)
  have h: "distinct (map v_Address (active example_set))" "distinct (map v_Address (active ?vs'))"
    "set (map v_Address (active example_set)) = set (map v_Address (active ?vs'))"
    "inj_on (vrf_hash pad_hash [] 1) (set (map v_Address (active example_set)))"
    unfolding a by (auto simp: vrf_hash_def run_eval)
  show ?thesis
    using ElectSlot_deterministic [OF insertion.go_sort_axioms insertion.go_sort_axioms hash32_pad_hash h] by blast
qed

end
