(* ===== verification/Rewards.thy ===== *)
theory Rewards
  imports Staking
begin

text \<open>
  chain/modules/rewards/rewards.go: the per-epoch statistics of the validators, stored under
  \<open>epoch_stats/\<close> by epoch and address, and the computation of the rewards of an epoch from them. A missing
  document stands for statistics that are all zero.
\<close>

section \<open>Data\<close>

record EpochStats =
  es_ValidatorAddr :: string
  es_JobsServed :: int64
  es_JobsObserved :: int64
  es_JobsSlashed :: int64
  es_BlocksReverted :: int64
  es_DisputesWon :: int64
  es_Epoch :: int64

definition zero_EpochStats :: EpochStats where
  "zero_EpochStats = \<lparr>es_ValidatorAddr = [], es_JobsServed = 0, es_JobsObserved = 0, es_JobsSlashed = 0,
    es_BlocksReverted = 0, es_DisputesWon = 0, es_Epoch = 0\<rparr>"

definition EpochStats_fields :: "EpochStats fields" where
  "EpochStats_fields =
    [(''validator_addr'', fld dec_string es_ValidatorAddr es_ValidatorAddr_update),
     (''jobs_served'', fld dec_int64 es_JobsServed es_JobsServed_update),
     (''jobs_observed'', fld dec_int64 es_JobsObserved es_JobsObserved_update),
     (''jobs_slashed'', fld dec_int64 es_JobsSlashed es_JobsSlashed_update),
     (''blocks_reverted'', fld dec_int64 es_BlocksReverted es_BlocksReverted_update),
     (''disputes_won'', fld dec_int64 es_DisputesWon es_DisputesWon_update),
     (''epoch'', fld dec_int64 es_Epoch es_Epoch_update)]"

definition enc_EpochStats :: "EpochStats \<Rightarrow> json" where
  "enc_EpochStats x = JObj
    [(''validator_addr'', JStr (es_ValidatorAddr x)),
     (''jobs_served'', enc_int64 (es_JobsServed x)),
     (''jobs_observed'', enc_int64 (es_JobsObserved x)),
     (''jobs_slashed'', enc_int64 (es_JobsSlashed x)),
     (''blocks_reverted'', enc_int64 (es_BlocksReverted x)),
     (''disputes_won'', enc_int64 (es_DisputesWon x)),
     (''epoch'', enc_int64 (es_Epoch x))]"

record EpochReward =
  er_ValidatorAddr :: string
  er_ServingReward :: int64
  er_ObserverReward :: int64
  er_DelegatorReward :: int64
  er_BountyReward :: int64

definition InflationRateBPS :: int64 where "InflationRateBPS = 500"
definition JobFeeUBIGT :: int64 where "JobFeeUBIGT = 1000000"

definition statsPrefix :: bytes where "statsPrefix = ''epoch_stats/''"

definition statsKey :: "int64 \<Rightarrow> string \<Rightarrow> bytes" where
  "statsKey epoch addr = ''epoch_stats/'' @ pad20 epoch @ ''/'' @ addr"

section \<open>Statistics\<close>

definition getStats :: "'db db_api \<Rightarrow> 'db \<Rightarrow> string \<Rightarrow> int64 \<Rightarrow> error + EpochStats" where
  "getStats L s addr epoch =
    (case store_Get L s (statsKey epoch addr) of
       Inl e \<Rightarrow> Inl e
     | Inr None \<Rightarrow> Inr (zero_EpochStats\<lparr>es_ValidatorAddr := addr, es_Epoch := epoch\<rparr>)
     | Inr (Some data) \<Rightarrow>
         (case unmarshal EpochStats_fields zero_EpochStats (Some data) of
            None \<Rightarrow> Inl ErrJSON
          | Some st \<Rightarrow> Inr st))"

definition putStats :: "'db db_api \<Rightarrow> 'db \<Rightarrow> EpochStats \<Rightarrow> 'db outcome" where
  "putStats L s st = store_Set L s (statsKey (es_Epoch st) (es_ValidatorAddr st)) (enc_EpochStats st)"

definition RecordJobServed :: "'db db_api \<Rightarrow> 'db \<Rightarrow> string \<Rightarrow> int64 \<Rightarrow> 'db outcome" where
  "RecordJobServed L s validatorAddr epoch =
    (case getStats L s validatorAddr epoch of
       Inl e \<Rightarrow> (Some e, s)
     | Inr stats \<Rightarrow> putStats L s (stats\<lparr>es_JobsServed := es_JobsServed stats + 1\<rparr>))"

definition RecordJobObserved :: "'db db_api \<Rightarrow> 'db \<Rightarrow> string \<Rightarrow> int64 \<Rightarrow> 'db outcome" where
  "RecordJobObserved L s validatorAddr epoch =
    (case getStats L s validatorAddr epoch of
       Inl e \<Rightarrow> (Some e, s)
     | Inr stats \<Rightarrow> putStats L s (stats\<lparr>es_JobsObserved := es_JobsObserved stats + 1\<rparr>))"

definition RecordJobSlashed :: "'db db_api \<Rightarrow> 'db \<Rightarrow> string \<Rightarrow> int64 \<Rightarrow> 'db outcome" where
  "RecordJobSlashed L s validatorAddr epoch =
    (case getStats L s validatorAddr epoch of
       Inl e \<Rightarrow> (Some e, s)
     | Inr stats \<Rightarrow> putStats L s (stats\<lparr>es_JobsSlashed := es_JobsSlashed stats + 1\<rparr>))"

definition RecordBlockReverted :: "'db db_api \<Rightarrow> 'db \<Rightarrow> string \<Rightarrow> int64 \<Rightarrow> 'db outcome" where
  "RecordBlockReverted L s validatorAddr epoch =
    (case getStats L s validatorAddr epoch of
       Inl e \<Rightarrow> (Some e, s)
     | Inr stats \<Rightarrow> putStats L s (stats\<lparr>es_BlocksReverted := es_BlocksReverted stats + 1\<rparr>))"

definition RecordDisputeWon :: "'db db_api \<Rightarrow> 'db \<Rightarrow> string \<Rightarrow> int64 \<Rightarrow> 'db outcome" where
  "RecordDisputeWon L s validatorAddr epoch =
    (case getStats L s validatorAddr epoch of
       Inl e \<Rightarrow> (Some e, s)
     | Inr stats \<Rightarrow> putStats L s (stats\<lparr>es_DisputesWon := es_DisputesWon stats + 1\<rparr>))"

section \<open>Distribution\<close>

text \<open>The first loop of \<open>DistributeEpoch\<close>: the totals of the effectively served jobs, of the observations
  and of the disputes won.\<close>

fun epoch_totals ::
  "'db db_api \<Rightarrow> 'db \<Rightarrow> int64 \<Rightarrow> Validator list \<Rightarrow> int64 \<times> int64 \<times> int64 \<Rightarrow> error + int64 \<times> int64 \<times> int64" where
  "epoch_totals L s epoch [] acc = Inr acc"
| "epoch_totals L s epoch (v # vs) (totalEffectiveServed, totalObserved, totalDisputesWon) =
    (case getStats L s (v_Address v) epoch of
       Inl e \<Rightarrow> Inl e
     | Inr st \<Rightarrow>
         let effective = es_JobsServed st - es_JobsSlashed st - es_BlocksReverted st;
             effective = (if effective <s 0 then 0 else effective)
         in epoch_totals L s epoch vs
              (totalEffectiveServed + effective, totalObserved + es_JobsObserved st,
               totalDisputesWon + es_DisputesWon st))"

text \<open>The body of the second loop: the reward of one validator. The pools are those for serving, observers,
  delegators and bounties.\<close>

definition validator_reward ::
  "int64 \<times> int64 \<times> int64 \<times> int64 \<Rightarrow> int64 \<times> int64 \<times> int64 \<Rightarrow> Validator \<Rightarrow> EpochStats \<Rightarrow> EpochReward" where
  "validator_reward pools totals v st =
    (case (pools, totals) of
       ((servingPool, observerPool, delegatorPool, bountyPool),
        (totalEffectiveServed, totalObserved, totalDisputesWon)) \<Rightarrow>
         let effectiveServed = es_JobsServed st - es_JobsSlashed st - es_BlocksReverted st;
             r = \<lparr>er_ValidatorAddr = v_Address v, er_ServingReward = 0, er_ObserverReward = 0,
                  er_DelegatorReward = 0, er_BountyReward = 0\<rparr>;
             r = (if 0 <s effectiveServed \<and> 0 <s totalEffectiveServed
                  then r\<lparr>er_ServingReward := idiv (servingPool * effectiveServed) totalEffectiveServed\<rparr> else r);
             r = (if 0 <s es_JobsObserved st \<and> 0 <s totalObserved
                  then r\<lparr>er_ObserverReward := idiv (observerPool * es_JobsObserved st) totalObserved\<rparr> else r);
             r = (if 0 <s effectiveServed \<and> 0 <s totalEffectiveServed
                  then let delShare = idiv (delegatorPool * effectiveServed) totalEffectiveServed;
                           valCommission = idiv (delShare * v_Commission v) 10000
                       in r\<lparr>er_ServingReward := er_ServingReward r + valCommission,
                            er_DelegatorReward := delShare - valCommission\<rparr>
                  else r)
         in if 0 <s es_DisputesWon st \<and> 0 <s totalDisputesWon
            then r\<lparr>er_BountyReward := idiv (bountyPool * es_DisputesWon st) totalDisputesWon\<rparr> else r)"

definition has_reward :: "EpochReward \<Rightarrow> bool" where
  "has_reward r \<longleftrightarrow> 0 <s er_ServingReward r \<or> 0 <s er_ObserverReward r \<or> 0 <s er_DelegatorReward r \<or>
    0 <s er_BountyReward r"

fun epoch_rewards ::
  "'db db_api \<Rightarrow> 'db \<Rightarrow> int64 \<Rightarrow> int64 \<times> int64 \<times> int64 \<times> int64 \<Rightarrow> int64 \<times> int64 \<times> int64 \<Rightarrow> Validator list \<Rightarrow>
    EpochReward list \<Rightarrow> error + EpochReward list" where
  "epoch_rewards L s epoch pools totals [] rewards = Inr rewards"
| "epoch_rewards L s epoch pools totals (v # vs) rewards =
    (case getStats L s (v_Address v) epoch of
       Inl e \<Rightarrow> Inl e
     | Inr st \<Rightarrow>
         let r = validator_reward pools totals v st
         in epoch_rewards L s epoch pools totals vs (if has_reward r then rewards @ [r] else rewards))"

definition epoch_pool :: "int64 \<Rightarrow> int64 \<Rightarrow> int64" where
  "epoch_pool totalSupply jobCount =
    (let annualInflation = idiv (totalSupply * InflationRateBPS) 10000;
         epochInflation = idiv annualInflation 365;
         jobFeePool = jobCount * JobFeeUBIGT
     in epochInflation + jobFeePool)"

definition DistributeEpoch ::
  "'db db_api \<Rightarrow> 'db \<Rightarrow> int64 \<Rightarrow> int64 \<Rightarrow> int64 \<Rightarrow> error + EpochReward list" where
  "DistributeEpoch L s epoch totalSupply jobCount =
    (let pool = epoch_pool totalSupply jobCount;
         servingPool = idiv (pool * RewardServingBPS) 10000;
         observerPool = idiv (pool * RewardObserverBPS) 10000;
         delegatorPool = idiv (pool * RewardDelegatorBPS) 10000;
         bountyPool = idiv (pool * RewardBountyBPS) 10000
     in case ListAll L s of
          (_, Some e) \<Rightarrow> Inl e
        | (vs, None) \<Rightarrow>
            (case epoch_totals L s epoch vs (0, 0, 0) of
               Inl e \<Rightarrow> Inl e
             | Inr totals \<Rightarrow>
                 if fst totals = 0 \<and> fst (snd totals) = 0 then Inr []
                 else epoch_rewards L s epoch (servingPool, observerPool, delegatorPool, bountyPool) totals vs []))"

section \<open>Codec round trips\<close>

lemma enc_EpochStats_not_null [simp]: "enc_EpochStats x \<noteq> JNull"
  by (simp add: enc_EpochStats_def)

lemma EpochStats_roundtrip [simp, codec]: "dec_struct EpochStats_fields (enc_EpochStats x) zero_EpochStats = Some x"
  by (simp add: dec_struct_JObj find_field_def fld_def EpochStats_fields_def enc_EpochStats_def zero_EpochStats_def)

section \<open>The state of the module\<close>

text \<open>The statistics of a validator in an epoch, with the default of a missing document.\<close>

definition stats :: "'db db_api \<Rightarrow> 'db \<Rightarrow> int64 \<Rightarrow> string \<Rightarrow> EpochStats" where
  "stats L s epoch addr =
    (case row L EpochStats_fields zero_EpochStats s (statsKey epoch addr) of
       None \<Rightarrow> zero_EpochStats\<lparr>es_ValidatorAddr := addr, es_Epoch := epoch\<rparr>
     | Some st \<Rightarrow> st)"

definition stats_keyof :: "EpochStats \<Rightarrow> bytes" where
  "stats_keyof st = statsKey (es_Epoch st) (es_ValidatorAddr st)"

definition rewards_wf :: "'db db_api \<Rightarrow> 'db \<Rightarrow> bool" where
  "rewards_wf L s \<longleftrightarrow> wf_table L statsPrefix stats_keyof enc_EpochStats EpochStats_fields zero_EpochStats s"

definition put_stats :: "'db db_api \<Rightarrow> 'db \<Rightarrow> EpochStats \<Rightarrow> 'db" where
  "put_stats L s st = put L s (stats_keyof st) (enc_EpochStats st)"

lemmas [keys] = statsKey_def statsPrefix_def stats_keyof_def

lemma stats_keys [simp]:
  "namespace (statsKey e a) = ''epoch_stats''" "namespace statsPrefix = ''epoch_stats''"
  "namespace (stats_keyof st) = ''epoch_stats''"
  "prefix statsPrefix (statsKey e a)" "prefix statsPrefix (stats_keyof st)"
  "statsPrefix \<noteq> []" "last statsPrefix = CHR ''/''"
  by (simp_all add: namespace_def keys)

lemma statsKey_inject [simp]: "statsKey e a = statsKey e' a' \<longleftrightarrow> e = e' \<and> a = a'"
  by (simp add: keys append_sep_inject pad20_no_slash)

sublocale leveldb \<subseteq> statT: table L statsPrefix stats_keyof enc_EpochStats EpochStats_fields zero_EpochStats
  by unfold_locales simp_all

text \<open>The effectively served jobs of the first loop.\<close>

definition effective :: "EpochStats \<Rightarrow> int64" where
  "effective st =
    (let e = es_JobsServed st - es_JobsSlashed st - es_BlocksReverted st in if e <s 0 then 0 else e)"

context leveldb
begin

lemma stats_key:
  assumes "rewards_wf L s"
  shows "es_ValidatorAddr (stats L s epoch addr) = addr" and "es_Epoch (stats L s epoch addr) = epoch"
  using statT.lookup_keyof [of s "statsKey epoch addr"] assms
  by (auto simp: stats_def rewards_wf_def stats_keyof_def split: option.split)

lemma getStats_wf:
  assumes "rewards_wf L s"
  shows "getStats L s addr epoch = Inr (stats L s epoch addr)"
proof -
  have "view L s (statsKey epoch addr) =
      map_option enc_EpochStats (row L EpochStats_fields zero_EpochStats s (statsKey epoch addr))"
    using statT.view_row [of s "statsKey epoch addr"] assms by (simp add: rewards_wf_def)
  then show ?thesis
    by (simp add: getStats_def stats_def unmarshal_def split: option.split)
qed

lemma putStats_put: "putStats L s st = (None, put_stats L s st)"
  by (simp add: putStats_def put_stats_def stats_keyof_def)

lemma put_stats_wf:
  assumes "rewards_wf L s"
  shows "rewards_wf L (put_stats L s st)" and "only L {''epoch_stats''} s (put_stats L s st)"
    and "stats L (put_stats L s st) = (\<lambda>e a. if e = es_Epoch st \<and> a = es_ValidatorAddr st then st else stats L s e a)"
  using assms statT.lookup_insert [of s st] statT.wf_insert [of s st]
  by (auto simp: put_stats_def rewards_wf_def only_put stats_def stats_keyof_def fun_eq_iff)

lemma rewards_only:
  assumes "only L N s t" "''epoch_stats'' \<notin> N"
  shows "rewards_wf L t \<longleftrightarrow> rewards_wf L s" and "stats L t = stats L s"
  using assms statT.only_table(1,3) [OF assms(1)] by (auto simp: rewards_wf_def stats_def fun_eq_iff)

lemma epoch_totals_sum:
  "rewards_wf L s \<Longrightarrow>
   epoch_totals L s epoch vs (a, b, c) =
     Inr (a + sum_list (map (\<lambda>v. effective (stats L s epoch (v_Address v))) vs),
          b + sum_list (map (\<lambda>v. es_JobsObserved (stats L s epoch (v_Address v))) vs),
          c + sum_list (map (\<lambda>v. es_DisputesWon (stats L s epoch (v_Address v))) vs))"
  by (induction vs arbitrary: a b c) (simp_all add: getStats_wf effective_def Let_def add.assoc)

lemma epoch_rewards_filter:
  "rewards_wf L s \<Longrightarrow>
   epoch_rewards L s epoch pools totals vs rs =
     Inr (rs @ filter has_reward (map (\<lambda>v. validator_reward pools totals v (stats L s epoch (v_Address v))) vs))"
  by (induction vs arbitrary: rs) (simp_all add: getStats_wf Let_def)

lemma ListAll_wf:
  assumes "staking_wf L s"
  shows "ListAll L s = (validator_rows L s, None)"
proof -
  have "fst (ListAll L s) = fold (\<lambda>v r. r @ [v]) (validator_rows L s) []"
    unfolding ListAll_def store_Scan_iter fst_conv validator_rows_def
    by (rule valT.scan_rows) (use assms in \<open>simp_all add: staking_wf_def unmarshal_def\<close>)
  also have "fold (\<lambda>v r. r @ [v]) vs r = r @ vs" for vs and r :: "Validator list"
    by (induction vs arbitrary: r) simp_all
  finally show ?thesis by (simp add: ListAll_def)
qed

end

section \<open>Arithmetic of the shares\<close>

lemma share_sum:
  fixes P T :: int
  assumes "0 \<le> P" "0 < T" "\<And>x. x \<in> set xs \<Longrightarrow> 0 \<le> x" "sum_list xs \<le> T"
  shows "sum_list (map (\<lambda>x. P * x div T) xs) \<le> P"
proof -
  have "T * sum_list (map (\<lambda>x. P * x div T) ys) \<le> P * sum_list ys" for ys
  proof (induction ys)
    case (Cons y ys)
    have "T * (P * y div T) \<le> P * y"
      using assms(2) by (metis add_diff_cancel_left' diff_ge_0_iff_ge mult_div_mod_eq pos_mod_sign)
    with Cons show ?case by (simp add: distrib_left)
  qed simp
  also have "P * sum_list xs \<le> P * T" using assms(1,4) by (rule mult_left_mono [rotated])
  finally have "T * sum_list (map (\<lambda>x. P * x div T) xs) \<le> T * P" by (simp add: mult.commute)
  with assms(2) show ?thesis by simp
qed

lemma sint_sum_list:
  fixes xs :: "int64 list"
  assumes "\<And>x. x \<in> set xs \<Longrightarrow> 0 \<le> sint x" "sum_list (map sint xs) < 2 ^ 63"
  shows "sint (sum_list xs) = sum_list (map sint xs)"
  using assms
proof (induction xs)
  case (Cons x xs)
  have x: "0 \<le> sint x" using Cons.prems(1) by simp
  have n: "0 \<le> sum_list (map sint xs)" using Cons.prems(1) by (intro sum_list_nonneg) auto
  have lt: "sum_list (map sint xs) < 2 ^ 63" using Cons.prems(2) x by simp
  have "sint (sum_list xs) = sum_list (map sint xs)"
    by (rule Cons.IH) (use Cons.prems(1) lt in simp_all)
  with Cons.prems(2) n x show ?case by (simp add: sint64_add)
qed simp

lemma share64:
  assumes "0 \<le> sint p" "0 \<le> sint x" "0 < sint t" "sint p * sint x < 2 ^ 63"
  shows "sint (idiv (p * x) t) = sint p * sint x div sint t"
proof -
  have pos: "0 \<le> sint p * sint x" using assms by simp
  have "sint (p * x) = sint p * sint x"
    by (rule sint64_mul) (use pos assms(4) in linarith)+
  with pos assms(3) show ?thesis by (simp add: sint64_idiv)
qed

lemma bps_pool:
  assumes "0 \<le> sint p" "sint p * 10000 < 2 ^ 63" "0 \<le> sint b" "sint b \<le> 10000"
  shows "sint (idiv (p * b) 10000) = sint p * sint b div 10000"
    and "0 \<le> sint (idiv (p * b) 10000)" and "sint (idiv (p * b) 10000) \<le> sint p"
proof -
  have le: "sint p * sint b \<le> sint p * 10000" using assms by (intro mult_left_mono) auto
  then show eq: "sint (idiv (p * b) 10000) = sint p * sint b div 10000"
    using share64 [of p b 10000] assms by simp
  have "0 \<le> sint p * sint b" using assms by simp
  with le eq show "0 \<le> sint (idiv (p * b) 10000)" "sint (idiv (p * b) 10000) \<le> sint p" by linarith+
qed

text \<open>Bounds under which the computation of an epoch does not wrap: non-negative counters and a
  commission of at most 100 percent, and products of the pool \<open>P\<close> and the totals below \<open>2 ^ 63\<close>.\<close>

definition sane_stats :: "EpochStats \<Rightarrow> bool" where
  "sane_stats st \<longleftrightarrow> 0 \<le> sint (es_JobsObserved st) \<and> 0 \<le> sint (es_DisputesWon st)"

definition sane_commission :: "Validator \<Rightarrow> bool" where
  "sane_commission v \<longleftrightarrow> 0 \<le> sint (v_Commission v) \<and> sint (v_Commission v) \<le> 10000"

definition epoch_bounded :: "int \<Rightarrow> EpochStats list \<Rightarrow> bool" where
  "epoch_bounded P sts \<longleftrightarrow>
    0 \<le> P \<and> P * 10000 < 2 ^ 63 \<and> list_all sane_stats sts \<and>
    list_all (\<lambda>f. sum_list (map (sint \<circ> f) sts) < 2 ^ 63 \<and> P * sum_list (map (sint \<circ> f) sts) < 2 ^ 63)
      [effective, es_JobsObserved, es_DisputesWon]"

definition paid :: "EpochReward \<Rightarrow> int" where
  "paid r = sint (er_ServingReward r) + sint (er_ObserverReward r) + sint (er_DelegatorReward r) + sint (er_BountyReward r)"

definition reward_ok :: "EpochReward \<Rightarrow> bool" where
  "reward_ok r \<longleftrightarrow> 0 \<le> sint (er_ServingReward r) \<and> 0 \<le> sint (er_ObserverReward r) \<and>
    0 \<le> sint (er_DelegatorReward r) \<and> 0 \<le> sint (er_BountyReward r)"

lemma effective_pos:
  "0 \<le> sint (effective st)"
  "0 <s es_JobsServed st - es_JobsSlashed st - es_BlocksReverted st \<longleftrightarrow> 0 <s effective st"
  "0 <s effective st \<Longrightarrow> es_JobsServed st - es_JobsSlashed st - es_BlocksReverted st = effective st"
  by (auto simp: effective_def Let_def word_sless_alt)

text \<open>One share of a pool, of at most the pool.\<close>

lemma share_if:
  fixes p x t :: int64
  assumes "0 \<le> sint p" "0 \<le> sint x" "sint x \<le> sint t" "sint p * sint t < 2 ^ 63"
  shows "sint (if 0 <s x \<and> 0 <s t then idiv (p * x) t else 0) = sint p * sint x div sint t"
    and "0 \<le> sint p * sint x div sint t" and "sint p * sint x div sint t \<le> sint p"
proof -
  have le: "sint p * sint x \<le> sint p * sint t" using assms by (intro mult_left_mono)
  then have "sint (idiv (p * x) t) = sint p * sint x div sint t" if "0 < sint t"
    using share64 [of p x t] assms that by linarith
  moreover have "sint x = 0" "sint t = 0" if "\<not> 0 < sint t" using that assms by linarith+
  ultimately show "sint (if 0 <s x \<and> 0 <s t then idiv (p * x) t else 0) = sint p * sint x div sint t"
    using assms(2) by (cases "0 < sint t") (auto simp: word_sless_alt)
  show "0 \<le> sint p * sint x div sint t" using assms by (cases "sint t = 0") (auto simp: pos_imp_zdiv_nonneg_iff)
  have "sint p * sint x div sint t \<le> sint p * sint t div sint t" if "0 < sint t"
    using le that by (rule zdiv_mono1)
  with assms show "sint p * sint x div sint t \<le> sint p" by (cases "sint t = 0") auto
qed

text \<open>The four parts of a reward as shares of the pools. The commission only moves a part of the delegators'
  share to the validator.\<close>

lemma validator_reward_parts:
  assumes st: "sane_stats st" and com: "sane_commission v"
    and pos: "0 \<le> sint p1" "0 \<le> sint p2" "0 \<le> sint p3" "0 \<le> sint p4"
    and pool: "sint p1 + sint p3 < 2 ^ 63" "sint p3 * 10000 < 2 ^ 63"
    and x1: "sint (effective st) \<le> sint t1" "sint p1 * sint t1 < 2 ^ 63" "sint p3 * sint t1 < 2 ^ 63"
    and x2: "sint (es_JobsObserved st) \<le> sint t2" "sint p2 * sint t2 < 2 ^ 63"
    and x3: "sint (es_DisputesWon st) \<le> sint t3" "sint p4 * sint t3 < 2 ^ 63"
  defines "r \<equiv> validator_reward (p1, p2, p3, p4) (t1, t2, t3) v st"
  shows "reward_ok r"
    and "paid r = sint p1 * sint (effective st) div sint t1 + sint p3 * sint (effective st) div sint t1 +
      sint p2 * sint (es_JobsObserved st) div sint t2 + sint p4 * sint (es_DisputesWon st) div sint t3"
proof -
  let ?c = "0 <s effective st \<and> 0 <s t1"
  define srv where "srv = (if ?c then idiv (p1 * effective st) t1 else 0)"
  define del where "del = (if ?c then idiv (p3 * effective st) t1 else 0)"
  define com where "com = idiv (del * v_Commission v) 10000"
  note S1 = share_if [OF pos(1) effective_pos(1) x1(1,2), folded srv_def]
  note S3 = share_if [OF pos(3) effective_pos(1) x1(1,3), folded del_def]
  have obs: "0 \<le> sint (es_JobsObserved st)" and won: "0 \<le> sint (es_DisputesWon st)"
    using st by (simp_all add: sane_stats_def)
  note S2 = share_if [OF pos(2) obs x2] and S4 = share_if [OF pos(4) won x3]
  have d: "0 \<le> sint del" "sint del \<le> sint p3" "sint del * 10000 < 2 ^ 63"
    using S3 pool(2) by auto
  have c: "0 \<le> sint com" "sint com \<le> sint del"
    using bps_pool(2,3) [OF d(1,3)] \<open>sane_commission v\<close> by (simp_all add: com_def sane_commission_def)
  have "com = 0" if "\<not> ?c" unfolding com_def del_def if_not_P [OF that] by (simp add: idiv_def)
  then have r: "er_ServingReward r = srv + com" "er_DelegatorReward r = del - com"
    "er_ObserverReward r = (if 0 <s es_JobsObserved st \<and> 0 <s t2 then idiv (p2 * es_JobsObserved st) t2 else 0)"
    "er_BountyReward r = (if 0 <s es_DisputesWon st \<and> 0 <s t3 then idiv (p4 * es_DisputesWon st) t3 else 0)"
    using effective_pos(3) [of st]
    by (auto simp: r_def validator_reward_def Let_def effective_pos(2) srv_def del_def com_def)
  have "sint (srv + com) = sint srv + sint com" "sint (del - com) = sint del - sint com"
    by (rule sint64_add sint64_sub; use S1 S3 c d pool(1) in linarith)+
  with r S1 S2 S3 S4 c show "reward_ok r"
    "paid r = sint p1 * sint (effective st) div sint t1 + sint p3 * sint (effective st) div sint t1 +
      sint p2 * sint (es_JobsObserved st) div sint t2 + sint p4 * sint (es_DisputesWon st) div sint t3"
    by (simp_all add: reward_ok_def paid_def)
qed

text \<open>The pools of an epoch add up to at most the pool.\<close>

lemma pools_split:
  fixes pool :: int64
  assumes "0 \<le> sint pool" "sint pool * 10000 < 2 ^ 63"
  defines "p1 \<equiv> idiv (pool * RewardServingBPS) 10000" and "p2 \<equiv> idiv (pool * RewardObserverBPS) 10000"
    and "p3 \<equiv> idiv (pool * RewardDelegatorBPS) 10000" and "p4 \<equiv> idiv (pool * RewardBountyBPS) 10000"
  shows "0 \<le> sint p1" "0 \<le> sint p2" "0 \<le> sint p3" "0 \<le> sint p4"
    and "sint p1 \<le> sint pool" "sint p2 \<le> sint pool" "sint p3 \<le> sint pool" "sint p4 \<le> sint pool"
    and "sint p1 + sint p3 + sint p2 + sint p4 \<le> sint pool"
proof -
  note B = bps_pool [OF assms(1,2)]
  have "sint p1 = sint pool * 5000 div 10000" "sint p2 = sint pool * 3000 div 10000"
    "sint p3 = sint pool * 1500 div 10000" "sint p4 = sint pool * 500 div 10000"
    using B(1) [of RewardServingBPS] B(1) [of RewardObserverBPS] B(1) [of RewardDelegatorBPS] B(1) [of RewardBountyBPS]
    by (simp_all add: p1_def p2_def p3_def p4_def constant_defs)
  with assms(1) show "0 \<le> sint p1" "0 \<le> sint p2" "0 \<le> sint p3" "0 \<le> sint p4"
    "sint p1 \<le> sint pool" "sint p2 \<le> sint pool" "sint p3 \<le> sint pool" "sint p4 \<le> sint pool"
    "sint p1 + sint p3 + sint p2 + sint p4 \<le> sint pool" by linarith+
qed

lemma pool_total:
  fixes f :: "'a \<Rightarrow> int64"
  assumes "\<forall>v \<in> set vs. 0 \<le> sint (f v)" "sum_list (map (sint \<circ> f) vs) < 2 ^ 63"
    and "P * sum_list (map (sint \<circ> f) vs) < 2 ^ 63" "0 \<le> sint (p :: int64)" "sint p \<le> P"
  shows "v \<in> set vs \<Longrightarrow> sint (f v) \<le> sint (sum_list (map f vs))"
    and "sint p * sint (sum_list (map f vs)) < 2 ^ 63"
    and "sum_list (map (\<lambda>v. sint p * sint (f v) div sint (sum_list (map f vs))) vs) \<le> sint p"
proof -
  let ?T = "sum_list (map (sint \<circ> f) vs)"
  have T: "sint (sum_list (map f vs)) = ?T"
    using sint_sum_list [of "map f vs"] assms(1,2) by (auto simp: comp_def)
  have pos: "0 \<le> ?T" using assms(1) by (intro sum_list_nonneg) auto
  show "v \<in> set vs \<Longrightarrow> sint (f v) \<le> sint (sum_list (map f vs))"
    unfolding T using assms(1) by (intro member_le_sum_list) auto
  have "sint p * ?T \<le> P * ?T" using pos assms(5) by (intro mult_right_mono)
  with assms(3) show "sint p * sint (sum_list (map f vs)) < 2 ^ 63" unfolding T by linarith
  show "sum_list (map (\<lambda>v. sint p * sint (f v) div sint (sum_list (map f vs))) vs) \<le> sint p"
  proof (cases "?T = 0")
    case True
    then show ?thesis unfolding T using assms(4) by simp
  next
    case False
    then show ?thesis
      unfolding T using share_sum [of "sint p" ?T "map (sint \<circ> f) vs"] pos assms(1,4) by (auto simp: comp_def)
  qed
qed

text \<open>All rewards of an epoch, before those that are all zero are dropped.\<close>

lemma sum_four:
  fixes f :: "'a \<Rightarrow> int"
  assumes "\<And>v. v \<in> set vs \<Longrightarrow> f v = a v + b v + c v + d v"
  shows "sum_list (map f vs) = sum_list (map a vs) + sum_list (map b vs) + sum_list (map c vs) + sum_list (map d vs)"
proof -
  have "map f vs = map (\<lambda>v. a v + b v + c v + d v) vs" using assms by simp
  then show ?thesis by (simp only: sum_list_addf)
qed

lemma rewards_bounded:
  fixes pool :: int64 and vs :: "Validator list" and g :: "Validator \<Rightarrow> EpochStats"
  assumes b: "epoch_bounded (sint pool) (map g vs)" and com: "list_all sane_commission vs"
  defines "pools \<equiv> (idiv (pool * RewardServingBPS) 10000, idiv (pool * RewardObserverBPS) 10000,
      idiv (pool * RewardDelegatorBPS) 10000, idiv (pool * RewardBountyBPS) 10000)"
    and "totals \<equiv> (sum_list (map (effective \<circ> g) vs), sum_list (map (es_JobsObserved \<circ> g) vs),
      sum_list (map (es_DisputesWon \<circ> g) vs))"
  shows "list_all (\<lambda>v. reward_ok (validator_reward pools totals v (g v))) vs"
    and "sum_list (map (\<lambda>v. paid (validator_reward pools totals v (g v))) vs) \<le> sint pool"
proof -
  obtain p1 p2 p3 p4 where pools: "pools = (p1, p2, p3, p4)" "p1 = idiv (pool * RewardServingBPS) 10000"
    "p2 = idiv (pool * RewardObserverBPS) 10000" "p3 = idiv (pool * RewardDelegatorBPS) 10000"
    "p4 = idiv (pool * RewardBountyBPS) 10000" using pools_def by blast
  obtain t1 t2 t3 where totals: "totals = (t1, t2, t3)" "t1 = sum_list (map (effective \<circ> g) vs)"
    "t2 = sum_list (map (es_JobsObserved \<circ> g) vs)" "t3 = sum_list (map (es_DisputesWon \<circ> g) vs)"
    using totals_def by blast
  have P: "0 \<le> sint pool" "sint pool * 10000 < 2 ^ 63" using b by (simp_all add: epoch_bounded_def)
  note Q = pools_split [OF P, folded pools(2-5)]
  have s: "sane_stats (g v)" "sane_commission v" if "v \<in> set vs" for v
    using that b com by (simp_all add: epoch_bounded_def list_all_iff)
  have n: "\<forall>v \<in> set vs. 0 \<le> sint ((effective \<circ> g) v)" "\<forall>v \<in> set vs. 0 \<le> sint ((es_JobsObserved \<circ> g) v)"
    "\<forall>v \<in> set vs. 0 \<le> sint ((es_DisputesWon \<circ> g) v)"
    using s(1) effective_pos(1) by (simp_all add: sane_stats_def)
  have B: "sum_list (map (sint \<circ> (effective \<circ> g)) vs) < 2 ^ 63" "sint pool * sum_list (map (sint \<circ> (effective \<circ> g)) vs) < 2 ^ 63"
    "sum_list (map (sint \<circ> (es_JobsObserved \<circ> g)) vs) < 2 ^ 63" "sint pool * sum_list (map (sint \<circ> (es_JobsObserved \<circ> g)) vs) < 2 ^ 63"
    "sum_list (map (sint \<circ> (es_DisputesWon \<circ> g)) vs) < 2 ^ 63" "sint pool * sum_list (map (sint \<circ> (es_DisputesWon \<circ> g)) vs) < 2 ^ 63"
    using b by (auto simp: epoch_bounded_def comp_def)
  note T1 = pool_total [OF n(1) B(1,2) Q(1,5), folded totals(2)] and T3 = pool_total [OF n(1) B(1,2) Q(3,7), folded totals(2)]
    and T2 = pool_total [OF n(2) B(3,4) Q(2,6), folded totals(3)] and T4 = pool_total [OF n(3) B(5,6) Q(4,8), folded totals(4)]
  have R: "reward_ok (validator_reward pools totals v (g v))"
    "paid (validator_reward pools totals v (g v)) = sint p1 * sint (effective (g v)) div sint t1 +
      sint p3 * sint (effective (g v)) div sint t1 + sint p2 * sint (es_JobsObserved (g v)) div sint t2 +
      sint p4 * sint (es_DisputesWon (g v)) div sint t3" if "v \<in> set vs" for v
  proof -
    have l: "sint p1 + sint p3 < 2 ^ 63" "sint p3 * 10000 < 2 ^ 63" using Q P by linarith+
    note V = validator_reward_parts [OF s(1) [OF that] s(2) [OF that] Q(1-4) l T1(1) [OF that, unfolded comp_def] T1(2) T3(2)
        T2(1) [OF that, unfolded comp_def] T2(2) T4(1) [OF that, unfolded comp_def] T4(2)]
    show "reward_ok (validator_reward pools totals v (g v))"
      "paid (validator_reward pools totals v (g v)) = sint p1 * sint (effective (g v)) div sint t1 +
      sint p3 * sint (effective (g v)) div sint t1 + sint p2 * sint (es_JobsObserved (g v)) div sint t2 +
      sint p4 * sint (es_DisputesWon (g v)) div sint t3"
      unfolding pools(1) totals(1) by (rule V)+
  qed
  then show "list_all (\<lambda>v. reward_ok (validator_reward pools totals v (g v))) vs" by (simp add: list_all_iff)
  note sum_four [OF R(2), of vs "\<lambda>v. v"]
  with T1(3) T2(3) T3(3) T4(3) Q(9)
  show "sum_list (map (\<lambda>v. paid (validator_reward pools totals v (g v))) vs) \<le> sint pool"
    by (simp only: comp_def)
qed

lemmas [run_eval] = getStats_def putStats_def RecordJobServed_def RecordJobObserved_def RecordJobSlashed_def
  RecordBlockReverted_def RecordDisputeWon_def validator_reward_def has_reward_def epoch_pool_def
  DistributeEpoch_def InflationRateBPS_def JobFeeUBIGT_def stats_def

lemma rewards_wf_empty: "rewards_wf list_db []"
  by (simp add: rewards_wf_def wf_table_def List.map_filter_simps)

lemma sum_filter_paid:
  "list_all reward_ok rs \<Longrightarrow> sum_list (map paid (filter has_reward rs)) \<le> sum_list (map paid rs)"
  by (induction rs) (auto simp: reward_ok_def paid_def)

section \<open>Properties\<close>

text \<open>C23: The rewards of an epoch never exceed its pool. With non-negative counters, commissions of at most
  100 percent and products below the overflow bound, \<open>DistributeEpoch\<close> succeeds, every part of every reward is
  non-negative, and all parts of all rewards together are at most inflation plus job fees.\<close>

theorem DistributeEpoch_within_pool:
  assumes "leveldb L" and "staking_wf L s" and "rewards_wf L s"
    and "epoch_bounded (sint (epoch_pool supply jobCount)) (map (\<lambda>v. stats L s epoch (v_Address v)) (validator_rows L s))"
    and "list_all sane_commission (validator_rows L s)"
  shows "\<exists>rs. DistributeEpoch L s epoch supply jobCount = Inr rs \<and> list_all reward_ok rs \<and>
    sum_list (map paid rs) \<le> sint (epoch_pool supply jobCount)"
proof -
  define pool where "pool = epoch_pool supply jobCount"
  define g where "g = (\<lambda>v :: Validator. stats L s epoch (v_Address v))"
  define pools where "pools = (idiv (pool * RewardServingBPS) 10000, idiv (pool * RewardObserverBPS) 10000,
      idiv (pool * RewardDelegatorBPS) 10000, idiv (pool * RewardBountyBPS) 10000)"
  define vs where "vs = validator_rows L s"
  define totals where "totals = (sum_list (map (effective \<circ> g) vs), sum_list (map (es_JobsObserved \<circ> g) vs),
      sum_list (map (es_DisputesWon \<circ> g) vs))"
  have b: "epoch_bounded (sint pool) (map g vs)" "list_all sane_commission vs"
    using assms(4,5) by (simp_all add: pool_def g_def vs_def)
  let ?rs = "map (\<lambda>v. validator_reward pools totals v (g v)) vs"
  have ok: "list_all reward_ok ?rs" and sum: "sum_list (map paid ?rs) \<le> sint pool"
    using rewards_bounded [OF b] by (simp_all add: pools_def totals_def list_all_iff comp_def)
  have "list_all reward_ok (filter has_reward ?rs)" using ok by (auto simp: list_all_iff)
  moreover have "sum_list (map paid (filter has_reward ?rs)) \<le> sint pool"
    using sum_filter_paid [OF ok] sum by linarith
  moreover have "epoch_totals L s epoch vs (0, 0, 0) = Inr totals"
    using leveldb.epoch_totals_sum [OF assms(1,3)] by (simp add: totals_def g_def comp_def)
  moreover have "epoch_rewards L s epoch pools totals vs [] = Inr (filter has_reward ?rs)"
    using leveldb.epoch_rewards_filter [OF assms(1,3)] by (simp add: g_def)
  ultimately show ?thesis
    using b(1) leveldb.ListAll_wf [OF assms(1,2)]
    by (auto simp: DistributeEpoch_def Let_def epoch_bounded_def simp flip: pool_def vs_def pools_def)
qed

text \<open>An epoch for the witnesses: the example validator served three jobs and observed one.\<close>

definition example_epoch :: "(bytes \<times> json) list" where
  "example_epoch =
    fold (\<lambda>f s. snd (f s))
      [\<lambda>s. RecordJobServed list_db s ''v1'' 1, \<lambda>s. RecordJobServed list_db s ''v1'' 1,
       \<lambda>s. RecordJobServed list_db s ''v1'' 1, \<lambda>s. RecordJobObserved list_db s ''v1'' 1] example_db"

lemma example_epoch_eval:
  "stats list_db example_epoch 1 ''v1'' =
    zero_EpochStats\<lparr>es_ValidatorAddr := ''v1'', es_Epoch := 1, es_JobsServed := 3, es_JobsObserved := 1\<rparr>"
  "validator_rows list_db example_epoch = [example_validator]"
  by (simp add: example_epoch_def example_db_def example_ops_def example_register_def run_eval keys,
      simp add: zero_EpochStats_def)
    (simp add: example_epoch_def example_db_def example_ops_def example_register_def example_validator_def run_eval keys)

lemma example_epoch_wf: "staking_wf list_db example_epoch" "rewards_wf list_db example_epoch"
proof -
  have rec: "staking_wf list_db (put_stats list_db s st) \<and> rewards_wf list_db (put_stats list_db s st)"
    if "staking_wf list_db s" "rewards_wf list_db s" for s st
    using listdb.put_stats_wf [OF that(2), of st] listdb.staking_wf_only [of "{''epoch_stats''}" s "put_stats list_db s st"] that
    by auto
  have "rewards_wf list_db example_db"
    using listdb.rewards_only(1) [of staking_ns "[]" example_db] rewards_wf_empty
    by (simp add: example_db_def example_ops_def example_register_def rewards_wf_def wf_table_def run_eval keys)
  with example_db_wf rec show "staking_wf list_db example_epoch" "rewards_wf list_db example_epoch"
    by (simp_all add: example_epoch_def RecordJobServed_def RecordJobObserved_def listdb.getStats_wf listdb.putStats_put)
qed

theorem DistributeEpoch_within_pool_witness:
  "\<exists>rs. DistributeEpoch list_db example_epoch 1 100000000000000 3 = Inr rs \<and> rs \<noteq> [] \<and>
    sum_list (map paid rs) \<le> 13701630136"
proof -
  have pool: "epoch_pool 100000000000000 3 = 13701630136"
    by (simp add: run_eval)
  have b: "epoch_bounded (sint (epoch_pool 100000000000000 3))
      (map (\<lambda>v. stats list_db example_epoch 1 (v_Address v)) (validator_rows list_db example_epoch))"
    unfolding pool example_epoch_eval(2)
    by (simp add: epoch_bounded_def example_epoch_eval(1) example_validator_def)
      (simp add: sane_stats_def effective_def zero_EpochStats_def)
  have c: "list_all sane_commission (validator_rows list_db example_epoch)"
    by (simp add: example_epoch_eval sane_commission_def example_validator_def)
  have "DistributeEpoch list_db example_epoch 1 100000000000000 3 \<noteq> Inr []"
    by (simp add: DistributeEpoch_def listdb.ListAll_wf [OF example_epoch_wf(1)]
        listdb.getStats_wf [OF example_epoch_wf(2)] example_epoch_eval pool example_validator_def,
      simp add: listdb.getStats_wf [OF example_epoch_wf(2)] example_epoch_eval zero_EpochStats_def
        validator_reward_def has_reward_def Let_def idiv_def word_sless_alt constant_defs)
  with DistributeEpoch_within_pool [OF listdb.leveldb_axioms example_epoch_wf b c] show ?thesis
    by (auto simp: pool)
qed

text \<open>What one \<open>Record...\<close> call does: the counters of one validator in one epoch change by \<open>f\<close>.\<close>

definition bumped :: "'db db_api \<Rightarrow> (EpochStats \<Rightarrow> EpochStats) \<Rightarrow> 'db \<Rightarrow> string \<Rightarrow> int64 \<Rightarrow> 'db outcome \<Rightarrow> bool" where
  "bumped L f s addr epoch r \<longleftrightarrow>
    fst r = None \<and> only L {''epoch_stats''} s (snd r) \<and>
    (\<forall>e a. stats L (snd r) e a = (if e = epoch \<and> a = addr then f (stats L s e a) else stats L s e a))"

text \<open>The counters are exact. Each \<open>Record...\<close> call succeeds and raises one counter of one validator in
  one epoch by one; every other counter, validator and epoch keeps its statistics, and nothing outside the
  statistics is written.\<close>

theorem Record_exact:
  assumes "leveldb L" and "rewards_wf L s"
  shows "bumped L (\<lambda>st. st\<lparr>es_JobsServed := es_JobsServed st + 1\<rparr>) s addr epoch (RecordJobServed L s addr epoch) \<and>
    bumped L (\<lambda>st. st\<lparr>es_JobsObserved := es_JobsObserved st + 1\<rparr>) s addr epoch (RecordJobObserved L s addr epoch) \<and>
    bumped L (\<lambda>st. st\<lparr>es_JobsSlashed := es_JobsSlashed st + 1\<rparr>) s addr epoch (RecordJobSlashed L s addr epoch) \<and>
    bumped L (\<lambda>st. st\<lparr>es_BlocksReverted := es_BlocksReverted st + 1\<rparr>) s addr epoch (RecordBlockReverted L s addr epoch) \<and>
    bumped L (\<lambda>st. st\<lparr>es_DisputesWon := es_DisputesWon st + 1\<rparr>) s addr epoch (RecordDisputeWon L s addr epoch)"
  using assms(2) leveldb.stats_key [OF assms, of epoch addr] leveldb.put_stats_wf [OF assms]
  by (simp add: bumped_def RecordJobServed_def RecordJobObserved_def RecordJobSlashed_def RecordBlockReverted_def
      RecordDisputeWon_def leveldb.getStats_wf [OF assms(1)] leveldb.putStats_put [OF assms(1)])

theorem Record_exact_witness:
  "es_DisputesWon (stats list_db (snd (RecordDisputeWon list_db example_epoch ''v1'' 1)) 1 ''v1'') = 1 \<and>
   es_DisputesWon (stats list_db (snd (RecordDisputeWon list_db example_epoch ''v1'' 1)) 2 ''v1'') =
     es_DisputesWon (stats list_db example_epoch 2 ''v1'')"
  using Record_exact [OF listdb.leveldb_axioms example_epoch_wf(2), of "''v1''" 1]
  unfolding bumped_def by (simp add: example_epoch_eval(1), simp add: zero_EpochStats_def)

text \<open>A commission above 100 percent is accepted and turns against the delegators: registration does not
  look at the commission, and with 20000 basis points the delegators' part of the reward is negative while
  the validator receives it on top of its own.\<close>

theorem commission_unchecked:
  "let msg = example_register\<lparr>mr_Commission := 20000\<rparr>;
       s = snd (RegisterValidator list_db [] msg 1000000000000);
       s = snd (RecordJobServed list_db s ''v1'' 1)
   in fst (RegisterValidator list_db [] msg 1000000000000) = None \<and>
      (case DistributeEpoch list_db s 1 100000000000000 3 of
         Inl e \<Rightarrow> False
       | Inr rs \<Rightarrow> map (sint \<circ> er_DelegatorReward) rs = [- 2055244520] \<and>
                   map (sint \<circ> er_ServingReward) rs = [10961304108])"
  by (simp add: example_register_def run_eval keys, simp add: zero_EpochStats_def run_eval)

end
