(* ===== verification/Subscription.thy ===== *)
theory Subscription
  imports Store
begin

text \<open>
  chain/modules/subscription/subscription.go: user accounts under \<open>acct/\<close> and monthly subscriptions under
  \<open>sub/\<close>, both by user address; deposits, subscriptions paid from the balance, the job quota and the
  automatic renewals.
\<close>

section \<open>Keys and lookups\<close>

definition accountPrefix :: bytes where "accountPrefix = ''acct/''"
definition subPrefix :: bytes where "subPrefix = ''sub/''"

definition accountKey :: "string \<Rightarrow> bytes" where "accountKey addr = accountPrefix @ addr"
definition subKey :: "string \<Rightarrow> bytes" where "subKey addr = subPrefix @ addr"

definition GetAccount :: "'db db_api \<Rightarrow> 'db \<Rightarrow> string \<Rightarrow> error + Account option" where
  "GetAccount L s addr = get_doc L Account_fields zero_Account s (accountKey addr)"

definition GetSubscription :: "'db db_api \<Rightarrow> 'db \<Rightarrow> string \<Rightarrow> error + Subscription option" where
  "GetSubscription L s addr = get_doc L Subscription_fields zero_Subscription s (subKey addr)"

definition putAccount :: "'db db_api \<Rightarrow> 'db \<Rightarrow> Account \<Rightarrow> 'db outcome" where
  "putAccount L s a = store_Set L s (accountKey (a_Address a)) (enc_Account a)"

definition putSubscription :: "'db db_api \<Rightarrow> 'db \<Rightarrow> Subscription \<Rightarrow> 'db outcome" where
  "putSubscription L s sub = store_Set L s (subKey (s_UserAddr sub)) (enc_Subscription sub)"

definition planCost :: "SubscriptionPlan \<Rightarrow> int64 \<times> int64" where
  "planCost plan =
    (if plan = PlanBasic then (SubscriptionBasicMonthly, SubscriptionBasicJobs)
     else if plan = PlanPro then (SubscriptionProMonthly, SubscriptionProJobs)
     else if plan = PlanEnterprise then (SubscriptionEnterpriseMonthly, SubscriptionEnterpriseJobs)
     else (0, 0))"

section \<open>Operations\<close>

definition Deposit :: "'db db_api \<Rightarrow> 'db \<Rightarrow> DepositTx \<Rightarrow> 'db outcome" where
  "Deposit L s tx =
    (if dp_Amount tx \<le>s 0
     then (Some (Errorf ''deposit amount must be positive'' []), s)
     else
       case GetAccount L s (dp_UserAddr tx) of
         Inl e \<Rightarrow> (Some e, s)
       | Inr found \<Rightarrow>
           let acct = (case found of None \<Rightarrow> zero_Account\<lparr>a_Address := dp_UserAddr tx\<rparr> | Some a \<Rightarrow> a)
           in putAccount L s (acct\<lparr>a_Balance := a_Balance acct + dp_Amount tx\<rparr>))"

definition Subscribe :: "'db db_api \<Rightarrow> 'db \<Rightarrow> SubscribeTx \<Rightarrow> int64 \<Rightarrow> 'db outcome" where
  "Subscribe L s tx currentSlot =
    (case GetAccount L s (sx_UserAddr tx) of
       Inl e \<Rightarrow> (Some e, s)
     | Inr None \<Rightarrow> (Some (Errorf ''account %s not found; deposit first'' [AStr (sx_UserAddr tx)]), s)
     | Inr (Some acct) \<Rightarrow>
         (case planCost (sx_Plan tx) of (fee, limit) \<Rightarrow>
            if fee = 0 then (Some (Errorf ''unknown plan: %s'' [AStr (sx_Plan tx)]), s)
            else if a_Balance acct <s fee
            then (Some (Errorf ''insufficient balance: have %d uBIGT, need %d''
                    [AInt (a_Balance acct), AInt fee]), s)
            else
              (case GetSubscription L s (sx_UserAddr tx) of
                 Inl e \<Rightarrow> (Some e, s)
               | Inr existing \<Rightarrow>
                   let startSlot = (case existing of
                         None \<Rightarrow> currentSlot
                       | Some ex \<Rightarrow> if currentSlot <s s_ExpiresSlot ex then s_ExpiresSlot ex else currentSlot)
                   in (case putAccount L s (acct\<lparr>a_Balance := a_Balance acct - fee\<rparr>) of
                         (Some e, s) \<Rightarrow> (Some e, s)
                       | (None, s) \<Rightarrow>
                           putSubscription L s \<lparr>s_UserAddr = sx_UserAddr tx, s_Plan = sx_Plan tx,
                             s_StartSlot = startSlot,
                             s_ExpiresSlot = startSlot + SubscriptionDurationSlots, s_JobsUsed = 0,
                             s_JobsLimit = limit, s_PaidAmount = fee, s_AutoRenew = sx_AutoRenew tx\<rparr>))))"

definition CancelAutoRenew :: "'db db_api \<Rightarrow> 'db \<Rightarrow> string \<Rightarrow> 'db outcome" where
  "CancelAutoRenew L s addr =
    (case GetSubscription L s addr of
       Inl e \<Rightarrow> (Some e, s)
     | Inr None \<Rightarrow> (Some (Errorf ''no subscription found for %s'' [AStr addr]), s)
     | Inr (Some sub) \<Rightarrow> putSubscription L s (sub\<lparr>s_AutoRenew := False\<rparr>))"

definition ConsumeJob :: "'db db_api \<Rightarrow> 'db \<Rightarrow> string \<Rightarrow> int64 \<Rightarrow> 'db outcome" where
  "ConsumeJob L s userAddr currentSlot =
    (case GetSubscription L s userAddr of
       Inl e \<Rightarrow> (Some e, s)
     | Inr None \<Rightarrow> (Some (Errorf ''no active subscription for %s'' [AStr userAddr]), s)
     | Inr (Some sub) \<Rightarrow>
         if currentSlot <s s_StartSlot sub \<or> s_ExpiresSlot sub \<le>s currentSlot
         then (Some (Errorf ''subscription for %s expired at slot %d (current: %d)''
                 [AStr userAddr, AInt (s_ExpiresSlot sub), AInt currentSlot]), s)
         else if 0 <s s_JobsLimit sub \<and> s_JobsLimit sub \<le>s s_JobsUsed sub
         then (Some (Errorf ''monthly job quota exhausted for %s (%d/%d)''
                 [AStr userAddr, AInt (s_JobsUsed sub), AInt (s_JobsLimit sub)]), s)
         else putSubscription L s (sub\<lparr>s_JobsUsed := s_JobsUsed sub + 1\<rparr>))"

text \<open>\<open>ProcessAutoRenewals\<close>: the scan collects the users to renew (a document that does not decode is
  skipped), then the loop renews each of them or switches its renewal off.\<close>

definition renew_callback :: "int64 \<Rightarrow> bytes \<Rightarrow> json \<Rightarrow> string list \<Rightarrow> bool \<times> string list" where
  "renew_callback currentSlot key val toRenew =
    (case unmarshal Subscription_fields zero_Subscription (Some val) of
       None \<Rightarrow> (True, toRenew)
     | Some sub \<Rightarrow>
         (True, if s_AutoRenew sub \<and> s_ExpiresSlot sub \<le>s currentSlot
                then toRenew @ [s_UserAddr sub] else toRenew))"

fun renew_loop :: "'db db_api \<Rightarrow> int64 \<Rightarrow> 'db \<Rightarrow> nat \<Rightarrow> string list \<Rightarrow> nat \<times> 'db" where
  "renew_loop L currentSlot s renewed [] = (renewed, s)"
| "renew_loop L currentSlot s renewed (addr # addrs) =
    (case GetSubscription L s addr of
       Inr (Some sub) \<Rightarrow>
         (case Subscribe L s \<lparr>sx_UserAddr = addr, sx_Plan = s_Plan sub, sx_AutoRenew = True\<rparr> currentSlot of
            (Some _, s) \<Rightarrow>
              renew_loop L currentSlot (snd (putSubscription L s (sub\<lparr>s_AutoRenew := False\<rparr>))) renewed addrs
          | (None, s) \<Rightarrow> renew_loop L currentSlot s (Suc renewed) addrs)
     | _ \<Rightarrow> renew_loop L currentSlot s renewed addrs)"

definition ProcessAutoRenewals :: "'db db_api \<Rightarrow> 'db \<Rightarrow> int64 \<Rightarrow> ('db, nat) outcome1" where
  "ProcessAutoRenewals L s currentSlot =
    (case store_Scan L s subPrefix (renew_callback currentSlot) [] of
       (_, Some e) \<Rightarrow> (Inl e, s)
     | (toRenew, None) \<Rightarrow>
         (case renew_loop L currentSlot s 0 toRenew of (renewed, s) \<Rightarrow> (Inr renewed, s)))"

section \<open>The state of the module\<close>

definition accounts :: "'db db_api \<Rightarrow> 'db \<Rightarrow> string \<rightharpoonup> Account" where
  "accounts L s addr = row L Account_fields zero_Account s (accountKey addr)"

definition subs :: "'db db_api \<Rightarrow> 'db \<Rightarrow> string \<rightharpoonup> Subscription" where
  "subs L s addr = row L Subscription_fields zero_Subscription s (subKey addr)"

definition account_rows :: "'db db_api \<Rightarrow> 'db \<Rightarrow> Account list" where
  "account_rows L s = rows L Account_fields zero_Account s accountPrefix"

definition sub_rows :: "'db db_api \<Rightarrow> 'db \<Rightarrow> Subscription list" where
  "sub_rows L s = rows L Subscription_fields zero_Subscription s subPrefix"

definition subscription_wf :: "'db db_api \<Rightarrow> 'db \<Rightarrow> bool" where
  "subscription_wf L s \<longleftrightarrow>
    wf_table L accountPrefix (\<lambda>a. accountKey (a_Address a)) enc_Account Account_fields zero_Account s \<and>
    wf_table L subPrefix (\<lambda>u. subKey (s_UserAddr u)) enc_Subscription Subscription_fields zero_Subscription s"

definition put_account :: "'db db_api \<Rightarrow> 'db \<Rightarrow> Account \<Rightarrow> 'db" where
  "put_account L s a = put L s (accountKey (a_Address a)) (enc_Account a)"

definition put_sub :: "'db db_api \<Rightarrow> 'db \<Rightarrow> Subscription \<Rightarrow> 'db" where
  "put_sub L s u = put L s (subKey (s_UserAddr u)) (enc_Subscription u)"

abbreviation "subscription_ns \<equiv> {''acct'', ''sub''}"

lemmas [keys] = accountKey_def subKey_def accountPrefix_def subPrefix_def

lemma subscription_namespaces [simp]:
  "namespace (accountKey a) = ''acct''" "namespace (subKey a) = ''sub''"
  "namespace accountPrefix = ''acct''" "namespace subPrefix = ''sub''"
  "accountPrefix \<noteq> []" "last accountPrefix = CHR ''/''" "subPrefix \<noteq> []" "last subPrefix = CHR ''/''"
  by (simp_all add: namespace_def keys)

lemma subscription_keys [simp]:
  "accountKey a = accountKey b \<longleftrightarrow> a = b" "subKey a = subKey b \<longleftrightarrow> a = b"
  "prefix accountPrefix (accountKey a)" "prefix subPrefix (subKey a)"
  "accountKey a \<noteq> subKey b" "subKey b \<noteq> accountKey a"
  "\<not> prefix accountPrefix (subKey a)" "\<not> prefix subPrefix (accountKey a)"
  by (simp_all add: keys)

sublocale leveldb \<subseteq> accT: table L accountPrefix "\<lambda>a. accountKey (a_Address a)" enc_Account Account_fields zero_Account
  by unfold_locales simp_all

sublocale leveldb \<subseteq> subT: table L subPrefix "\<lambda>u. subKey (s_UserAddr u)" enc_Subscription
    Subscription_fields zero_Subscription
  by unfold_locales simp_all

context leveldb
begin

lemma subscription_reads:
  assumes "subscription_wf L s"
  shows "GetAccount L s a = Inr (accounts L s a)" and "GetSubscription L s a = Inr (subs L s a)"
    and "putAccount L s x = (None, put_account L s x)" and "putSubscription L s u = (None, put_sub L s u)"
  using assms
  by (simp_all add: subscription_wf_def GetAccount_def GetSubscription_def accounts_def subs_def accT.get_doc_row
      subT.get_doc_row putAccount_def put_account_def putSubscription_def put_sub_def)

lemma subscription_addr:
  assumes "subscription_wf L s"
  shows "accounts L s a = Some x \<Longrightarrow> a_Address x = a" and "subs L s a = Some u \<Longrightarrow> s_UserAddr u = a"
  using assms accT.lookup_keyof [of s "accountKey a" x] subT.lookup_keyof [of s "subKey a" u]
  by (simp_all add: subscription_wf_def accounts_def subs_def)

lemma put_account_wf:
  assumes "subscription_wf L s"
  shows "subscription_wf L (put_account L s x)" and "accounts L (put_account L s x) = (accounts L s)(a_Address x \<mapsto> x)"
    and "subs L (put_account L s x) = subs L s" and "only L subscription_ns s (put_account L s x)"
  using assms
  by (auto simp: put_account_def subscription_wf_def accT.wf_insert subT.wf_other accounts_def accT.lookup_insert
      subs_def row_def only_put)

lemma put_sub_wf:
  assumes "subscription_wf L s"
  shows "subscription_wf L (put_sub L s u)" and "subs L (put_sub L s u) = (subs L s)(s_UserAddr u \<mapsto> u)"
    and "accounts L (put_sub L s u) = accounts L s" and "only L subscription_ns s (put_sub L s u)"
  using assms
  by (auto simp: put_sub_def subscription_wf_def subT.wf_insert accT.wf_other subs_def subT.lookup_insert
      accounts_def row_def only_put)

lemma sub_rows_iff: "subscription_wf L s \<Longrightarrow> u \<in> set (sub_rows L s) \<longleftrightarrow> subs L s (s_UserAddr u) = Some u"
  by (simp add: subscription_wf_def sub_rows_def subs_def subT.set_all_rows)

lemma account_rows_iff: "subscription_wf L s \<Longrightarrow> x \<in> set (account_rows L s) \<longleftrightarrow> accounts L s (a_Address x) = Some x"
  by (simp add: subscription_wf_def account_rows_def accounts_def accT.set_all_rows)

lemma distinct_sub_rows: "subscription_wf L s \<Longrightarrow> distinct (map s_UserAddr (sub_rows L s))"
  using subT.distinct_all_rows [of s] by (auto simp: subscription_wf_def sub_rows_def distinct_map inj_on_def)

lemma subscription_only:
  assumes "only L N s t" "N \<inter> subscription_ns = {}"
  shows "subscription_wf L t \<longleftrightarrow> subscription_wf L s" and "accounts L t = accounts L s" and "subs L t = subs L s"
  using assms accT.only_table(1,3) [OF assms(1)] subT.only_table(1,3) [OF assms(1)]
  by (auto simp: subscription_wf_def accounts_def subs_def fun_eq_iff)

end

section \<open>Abstract specification\<close>

text \<open>The module as a market: a balance and a subscription per user, without documents and keys. Every call is
  an operation of the market with a guard; a call whose guard fails changes nothing.\<close>

record market =
  m_balance :: "string \<rightharpoonup> int64"
  m_sub :: "string \<rightharpoonup> Subscription"

definition market_of :: "'db db_api \<Rightarrow> 'db \<Rightarrow> market" where
  "market_of L s = \<lparr>m_balance = (\<lambda>a. map_option a_Balance (accounts L s a)), m_sub = subs L s\<rparr>"

definition can_pay :: "market \<Rightarrow> string \<Rightarrow> SubscriptionPlan \<Rightarrow> bool" where
  "can_pay m a plan =
    (case m_balance m a of None \<Rightarrow> False | Some b \<Rightarrow> fst (planCost plan) \<noteq> 0 \<and> fst (planCost plan) \<le>s b)"

definition start_of :: "market \<Rightarrow> string \<Rightarrow> int64 \<Rightarrow> int64" where
  "start_of m a slot =
    (case m_sub m a of None \<Rightarrow> slot | Some u \<Rightarrow> if slot <s s_ExpiresSlot u then s_ExpiresSlot u else slot)"

definition new_sub :: "string \<Rightarrow> SubscriptionPlan \<Rightarrow> int64 \<Rightarrow> bool \<Rightarrow> Subscription" where
  "new_sub a plan start auto = \<lparr>s_UserAddr = a, s_Plan = plan, s_StartSlot = start,
    s_ExpiresSlot = start + SubscriptionDurationSlots, s_JobsUsed = 0, s_JobsLimit = snd (planCost plan),
    s_PaidAmount = fst (planCost plan), s_AutoRenew = auto\<rparr>"

definition buy :: "string \<Rightarrow> SubscriptionPlan \<Rightarrow> bool \<Rightarrow> int64 \<Rightarrow> market \<Rightarrow> market" where
  "buy a plan auto slot m =
    m\<lparr>m_balance := (m_balance m)(a := map_option (\<lambda>b. b - fst (planCost plan)) (m_balance m a)),
      m_sub := (m_sub m)(a \<mapsto> new_sub a plan (start_of m a slot) auto)\<rparr>"

definition may_consume :: "market \<Rightarrow> string \<Rightarrow> int64 \<Rightarrow> bool" where
  "may_consume m a slot =
    (case m_sub m a of None \<Rightarrow> False
     | Some u \<Rightarrow> s_StartSlot u \<le>s slot \<and> slot <s s_ExpiresSlot u \<and>
         (0 <s s_JobsLimit u \<longrightarrow> s_JobsUsed u <s s_JobsLimit u))"

definition due :: "int64 \<Rightarrow> Subscription \<Rightarrow> bool" where
  "due slot u \<longleftrightarrow> s_AutoRenew u \<and> s_ExpiresSlot u \<le>s slot"

text \<open>A renewal of one user, and of all users that are due.\<close>

definition renew_one :: "int64 \<Rightarrow> string \<Rightarrow> market \<Rightarrow> market" where
  "renew_one slot a m =
    (case m_sub m a of None \<Rightarrow> m
     | Some u \<Rightarrow>
         if can_pay m a (s_Plan u) then buy a (s_Plan u) True slot m
         else m\<lparr>m_sub := (m_sub m)(a \<mapsto> u\<lparr>s_AutoRenew := False\<rparr>)\<rparr>)"

definition renew_all :: "int64 \<Rightarrow> market \<Rightarrow> market" where
  "renew_all slot m =
    (let m' = (\<lambda>a. case m_sub m a of None \<Rightarrow> m | Some u \<Rightarrow> if due slot u then renew_one slot a m else m)
     in \<lparr>m_balance = (\<lambda>a. m_balance (m' a) a), m_sub = (\<lambda>a. m_sub (m' a) a)\<rparr>)"

datatype sub_op =
    OpDeposit DepositTx
  | OpSubscribe SubscribeTx int64
  | OpCancel string
  | OpConsume string int64
  | OpRenew int64

fun sub_exec :: "'db db_api \<Rightarrow> sub_op \<Rightarrow> 'db \<Rightarrow> 'db" where
  "sub_exec L (OpDeposit tx) s = snd (Deposit L s tx)"
| "sub_exec L (OpSubscribe tx slot) s = snd (Subscribe L s tx slot)"
| "sub_exec L (OpCancel a) s = snd (CancelAutoRenew L s a)"
| "sub_exec L (OpConsume a slot) s = snd (ConsumeJob L s a slot)"
| "sub_exec L (OpRenew slot) s = snd (ProcessAutoRenewals L s slot)"

fun sub_ok_call :: "'db db_api \<Rightarrow> sub_op \<Rightarrow> 'db \<Rightarrow> bool" where
  "sub_ok_call L (OpDeposit tx) s \<longleftrightarrow> fst (Deposit L s tx) = None"
| "sub_ok_call L (OpSubscribe tx slot) s \<longleftrightarrow> fst (Subscribe L s tx slot) = None"
| "sub_ok_call L (OpCancel a) s \<longleftrightarrow> fst (CancelAutoRenew L s a) = None"
| "sub_ok_call L (OpConsume a slot) s \<longleftrightarrow> fst (ConsumeJob L s a slot) = None"
| "sub_ok_call L (OpRenew slot) s \<longleftrightarrow> isl (fst (ProcessAutoRenewals L s slot)) = False"

fun accepts :: "sub_op \<Rightarrow> market \<Rightarrow> bool" where
  "accepts (OpDeposit tx) m \<longleftrightarrow> 0 <s dp_Amount tx"
| "accepts (OpSubscribe tx slot) m \<longleftrightarrow> can_pay m (sx_UserAddr tx) (sx_Plan tx)"
| "accepts (OpCancel a) m \<longleftrightarrow> m_sub m a \<noteq> None"
| "accepts (OpConsume a slot) m \<longleftrightarrow> may_consume m a slot"
| "accepts (OpRenew slot) m \<longleftrightarrow> True"

fun market_op :: "sub_op \<Rightarrow> market \<Rightarrow> market" where
  "market_op (OpDeposit tx) m =
    m\<lparr>m_balance := (m_balance m)(dp_UserAddr tx \<mapsto>
      (case m_balance m (dp_UserAddr tx) of None \<Rightarrow> 0 | Some b \<Rightarrow> b) + dp_Amount tx)\<rparr>"
| "market_op (OpSubscribe tx slot) m = buy (sx_UserAddr tx) (sx_Plan tx) (sx_AutoRenew tx) slot m"
| "market_op (OpCancel a) m = m\<lparr>m_sub := (m_sub m)(a := map_option (\<lambda>u. u\<lparr>s_AutoRenew := False\<rparr>) (m_sub m a))\<rparr>"
| "market_op (OpConsume a slot) m =
    m\<lparr>m_sub := (m_sub m)(a := map_option (\<lambda>u. u\<lparr>s_JobsUsed := s_JobsUsed u + 1\<rparr>) (m_sub m a))\<rparr>"
| "market_op (OpRenew slot) m = renew_all slot m"

definition market_step :: "sub_op \<Rightarrow> market \<Rightarrow> market" where
  "market_step op m = (if accepts op m then market_op op m else m)"

text \<open>A renewal changes one user only and reads one user only.\<close>

lemma renew_one_local:
  "a \<noteq> b \<Longrightarrow> m_balance (renew_one slot a m) b = m_balance m b"
  "a \<noteq> b \<Longrightarrow> m_sub (renew_one slot a m) b = m_sub m b"
  by (auto simp: renew_one_def buy_def split: option.split)

lemma renew_one_cong:
  "m_balance m a = m_balance m' a \<Longrightarrow> m_sub m a = m_sub m' a \<Longrightarrow>
   m_balance (renew_one slot a m) a = m_balance (renew_one slot a m') a \<and>
   m_sub (renew_one slot a m) a = m_sub (renew_one slot a m') a"
  by (auto simp: renew_one_def buy_def can_pay_def start_of_def split: option.split)

lemma renew_fold:
  assumes "distinct as"
  shows "m_balance (fold (renew_one slot) as m) a = (if a \<in> set as then m_balance (renew_one slot a m) a else m_balance m a) \<and>
    m_sub (fold (renew_one slot) as m) a = (if a \<in> set as then m_sub (renew_one slot a m) a else m_sub m a)"
  using assms
proof (induction as arbitrary: m)
  case (Cons b as)
  then show ?case
    using renew_one_local [of b a slot m] renew_one_cong [of "renew_one slot b m" a m slot] by auto
qed simp

context leveldb
begin

lemma Deposit_refines:
  assumes "subscription_wf L s"
  shows "subscription_wf L (snd (Deposit L s tx))" and "only L subscription_ns s (snd (Deposit L s tx))"
    and "market_of L (snd (Deposit L s tx)) = market_step (OpDeposit tx) (market_of L s)"
    and "fst (Deposit L s tx) = None \<longleftrightarrow> 0 <s dp_Amount tx"
  using assms subscription_addr(1) [OF assms, of "dp_UserAddr tx"]
  by (auto simp: Deposit_def subscription_reads Let_def put_account_wf market_of_def market_step_def signed.not_less
      zero_Account_def fun_eq_iff split: option.split)

lemma Subscribe_run:
  assumes "subscription_wf L s"
  shows "can_pay (market_of L s) (sx_UserAddr tx) (sx_Plan tx) \<Longrightarrow>
      \<exists>t. Subscribe L s tx slot = (None, t) \<and> subscription_wf L t \<and> only L subscription_ns s t \<and>
        market_of L t = buy (sx_UserAddr tx) (sx_Plan tx) (sx_AutoRenew tx) slot (market_of L s)"
    and "\<not> can_pay (market_of L s) (sx_UserAddr tx) (sx_Plan tx) \<Longrightarrow> \<exists>e. Subscribe L s tx slot = (Some e, s)"
proof -
  obtain fee limit where plan: "planCost (sx_Plan tx) = (fee, limit)" by force
  assume "can_pay (market_of L s) (sx_UserAddr tx) (sx_Plan tx)"
  then obtain acct where acct: "accounts L s (sx_UserAddr tx) = Some acct" "fee \<noteq> 0" "fee \<le>s a_Balance acct"
    by (auto simp: can_pay_def market_of_def plan split: option.splits)
  let ?s1 = "put_account L s (acct\<lparr>a_Balance := a_Balance acct - fee\<rparr>)"
  let ?u = "new_sub (sx_UserAddr tx) (sx_Plan tx) (start_of (market_of L s) (sx_UserAddr tx) slot) (sx_AutoRenew tx)"
  have addr: "a_Address acct = sx_UserAddr tx" using subscription_addr(1) [OF assms acct(1)] .
  have 1: "subscription_wf L ?s1" using assms by (rule put_account_wf)
  have u: "s_UserAddr ?u = sx_UserAddr tx" by (simp add: new_sub_def)
  have run: "Subscribe L s tx slot = (None, put_sub L ?s1 ?u)"
    using acct assms 1
    by (simp add: Subscribe_def subscription_reads plan signed.not_less [symmetric] new_sub_def start_of_def market_of_def Let_def)
  show "\<exists>t. Subscribe L s tx slot = (None, t) \<and> subscription_wf L t \<and> only L subscription_ns s t \<and>
      market_of L t = buy (sx_UserAddr tx) (sx_Plan tx) (sx_AutoRenew tx) slot (market_of L s)"
    unfolding run
    using put_sub_wf [OF 1, of ?u] put_account_wf [OF assms, of "acct\<lparr>a_Balance := a_Balance acct - fee\<rparr>"] addr acct u
      only_trans [of L subscription_ns s ?s1]
    by (auto simp: market_of_def buy_def plan fun_eq_iff)
next
  assume "\<not> can_pay (market_of L s) (sx_UserAddr tx) (sx_Plan tx)"
  with assms show "\<exists>e. Subscribe L s tx slot = (Some e, s)"
    by (auto simp: Subscribe_def subscription_reads can_pay_def market_of_def signed.not_le
        split: option.splits prod.splits)
qed

lemma Cancel_refines:
  assumes "subscription_wf L s"
  shows "subscription_wf L (snd (CancelAutoRenew L s a))" and "only L subscription_ns s (snd (CancelAutoRenew L s a))"
    and "market_of L (snd (CancelAutoRenew L s a)) = market_step (OpCancel a) (market_of L s)"
    and "fst (CancelAutoRenew L s a) = None \<longleftrightarrow> subs L s a \<noteq> None"
  using assms subscription_addr(2) [OF assms, of a]
  by (auto simp: CancelAutoRenew_def subscription_reads put_sub_wf market_of_def market_step_def fun_eq_iff
      split: option.split)

lemma Consume_refines:
  assumes "subscription_wf L s"
  shows "subscription_wf L (snd (ConsumeJob L s a slot))" and "only L subscription_ns s (snd (ConsumeJob L s a slot))"
    and "market_of L (snd (ConsumeJob L s a slot)) = market_step (OpConsume a slot) (market_of L s)"
    and "fst (ConsumeJob L s a slot) = None \<longleftrightarrow> may_consume (market_of L s) a slot"
    and "fst (ConsumeJob L s a slot) = None \<or> snd (ConsumeJob L s a slot) = s"
  using assms subscription_addr(2) [OF assms, of a]
  by (auto simp: ConsumeJob_def subscription_reads put_sub_wf market_of_def market_step_def may_consume_def
      signed.not_less signed.not_le fun_eq_iff split: option.split)

lemma market_of_sel [simp]:
  "m_sub (market_of L s) = subs L s" "m_balance (market_of L s) a = map_option a_Balance (accounts L s a)"
  by (simp_all add: market_of_def)

lemma renew_loop_refines:
  assumes "subscription_wf L s" "distinct as" "\<And>a. a \<in> set as \<Longrightarrow> subs L s a \<noteq> None"
  shows "\<exists>t. renew_loop L slot s n as =
      (n + length (filter (\<lambda>a. can_pay (market_of L s) a (s_Plan (the (subs L s a)))) as), t) \<and>
    subscription_wf L t \<and> only L subscription_ns s t \<and> market_of L t = fold (renew_one slot) as (market_of L s)"
  using assms
proof (induction as arbitrary: s n)
  case (Cons a as)
  obtain u where u: "subs L s a = Some u" using Cons.prems(3) by fastforce
  let ?tx = "\<lparr>sx_UserAddr = a, sx_Plan = s_Plan u, sx_AutoRenew = True\<rparr>"
  let ?n = "if can_pay (market_of L s) a (s_Plan u) then Suc n else n"
  have "\<exists>t. renew_loop L slot s n (a # as) = renew_loop L slot t ?n as \<and>
      subscription_wf L t \<and> only L subscription_ns s t \<and> market_of L t = renew_one slot a (market_of L s)"
  proof (cases "can_pay (market_of L s) a (s_Plan u)")
    case True
    then show ?thesis
      using Subscribe_run(1) [OF Cons.prems(1), of ?tx slot] u subscription_reads(2) [OF Cons.prems(1), of a]
      by (auto simp: renew_one_def market_of_def)
  next
    case False
    then obtain e where e: "Subscribe L s ?tx slot = (Some e, s)"
      using Subscribe_run(2) [OF Cons.prems(1), of ?tx slot] by auto
    show ?thesis
      using False e u subscription_reads(2) [OF Cons.prems(1), of a] subscription_addr(2) [OF Cons.prems(1) u]
        put_sub_wf [OF Cons.prems(1), of "u\<lparr>s_AutoRenew := False\<rparr>"] subscription_reads(4) [OF Cons.prems(1)]
      by (auto simp: renew_one_def market_of_def)
  qed
  then obtain t where t: "renew_loop L slot s n (a # as) = renew_loop L slot t ?n as" "subscription_wf L t"
    "only L subscription_ns s t" "market_of L t = renew_one slot a (market_of L s)" by blast
  have same: "subs L t b = subs L s b" "m_balance (market_of L t) b = m_balance (market_of L s) b" if "b \<in> set as" for b
    using renew_one_local [of a b slot "market_of L s"] that Cons.prems(2)
    unfolding t(4) market_of_sel(1) [symmetric] by auto
  then have pay: "filter (\<lambda>b. can_pay (market_of L t) b (s_Plan (the (subs L t b)))) as =
      filter (\<lambda>b. can_pay (market_of L s) b (s_Plan (the (subs L s b)))) as"
    by (intro filter_cong) (simp_all add: can_pay_def)
  have d: "distinct as" and e: "\<And>b. b \<in> set as \<Longrightarrow> subs L t b \<noteq> None"
    using Cons.prems(2,3) same(1) by simp_all
  obtain w where w: "renew_loop L slot t ?n as =
      (?n + length (filter (\<lambda>b. can_pay (market_of L t) b (s_Plan (the (subs L t b)))) as), w)"
    "subscription_wf L w" "only L subscription_ns t w" "market_of L w = fold (renew_one slot) as (market_of L t)"
    using Cons.IH [OF t(2) d e, of ?n] by blast
  have "only L subscription_ns s w" using only_trans [OF t(3) w(3)] .
  with w t(1,4) pay u show ?case by simp
qed simp

lemma Renewals_refine:
  assumes "subscription_wf L s"
  shows "\<exists>t. ProcessAutoRenewals L s slot =
      (Inr (length (filter (\<lambda>u. due slot u \<and> can_pay (market_of L s) (s_UserAddr u) (s_Plan u)) (sub_rows L s))), t) \<and>
    subscription_wf L t \<and> only L subscription_ns s t \<and> market_of L t = renew_all slot (market_of L s)"
proof -
  let ?us = "filter (due slot) (sub_rows L s)"
  let ?as = "map s_UserAddr ?us"
  have "scan_loop (renew_callback slot) (iter L s subPrefix) [] =
      fold (\<lambda>u r. if due slot u then r @ [s_UserAddr u] else r) (sub_rows L s) []"
    unfolding sub_rows_def
    by (rule subT.scan_rows) (use assms in \<open>simp_all add: subscription_wf_def renew_callback_def unmarshal_def due_def\<close>)
  also have "fold (\<lambda>u r. if due slot u then r @ [s_UserAddr u] else r) us r = r @ map s_UserAddr (filter (due slot) us)" for us r
    by (induction us arbitrary: r) auto
  finally have scan: "scan_loop (renew_callback slot) (iter L s subPrefix) [] = ?as" by simp
  have rows: "subs L s (s_UserAddr u) = Some u" if "u \<in> set (sub_rows L s)" for u
    using that sub_rows_iff [OF assms] by blast
  have d: "distinct ?as" using distinct_map_filter [OF distinct_sub_rows [OF assms]] .
  have some: "subs L s a \<noteq> None" if "a \<in> set ?as" for a using that rows by auto
  obtain t where t: "renew_loop L slot s 0 ?as =
      (0 + length (filter (\<lambda>a. can_pay (market_of L s) a (s_Plan (the (subs L s a)))) ?as), t)"
    "subscription_wf L t" "only L subscription_ns s t" "market_of L t = fold (renew_one slot) ?as (market_of L s)"
    using renew_loop_refines [OF assms d some] by blast
  have "length (filter (\<lambda>a. can_pay (market_of L s) a (s_Plan (the (subs L s a)))) ?as) =
      length (filter (\<lambda>u. can_pay (market_of L s) (s_UserAddr u) (s_Plan u)) ?us)"
    unfolding filter_map length_map using rows by (intro arg_cong [where f = length] filter_cong) auto
  moreover have "fold (renew_one slot) ?as (market_of L s) = renew_all slot (market_of L s)"
  proof -
    have mem: "a \<in> set ?as \<longleftrightarrow> (case subs L s a of None \<Rightarrow> False | Some u \<Rightarrow> due slot u)" for a
    proof (cases "subs L s a")
      case (Some u)
      then have u: "s_UserAddr u = a" "u \<in> set (sub_rows L s)"
        using subscription_addr(2) [OF assms Some] sub_rows_iff [OF assms, of u] by simp_all
      have "w = u" if "w \<in> set ?us" "s_UserAddr w = a" for w using rows [of w] that Some by simp
      with u Some show ?thesis by auto
    qed (use rows in auto)
    show ?thesis
      unfolding renew_all_def Let_def
      using renew_fold [OF d, of slot "market_of L s"] unfolding mem
      by (intro market.equality ext) (simp_all split: option.split)
  qed
  ultimately show ?thesis
    using t scan by (auto simp: ProcessAutoRenewals_def filter_filter conj_commute)
qed

lemma sub_exec_refines:
  assumes "subscription_wf L s"
  shows "subscription_wf L (sub_exec L op s) \<and> only L subscription_ns s (sub_exec L op s) \<and>
    market_of L (sub_exec L op s) = market_step op (market_of L s) \<and>
    (sub_ok_call L op s \<longleftrightarrow> accepts op (market_of L s))"
proof (cases op)
  case (OpSubscribe tx slot)
  then show ?thesis
    using Subscribe_run [OF assms, of tx slot] assms
    by (cases "can_pay (market_of L s) (sx_UserAddr tx) (sx_Plan tx)") (auto simp: market_step_def)
next
  case (OpRenew slot)
  then show ?thesis
    using Renewals_refine [OF assms, of slot] by (auto simp: market_step_def)
qed (use Deposit_refines [OF assms] Cancel_refines [OF assms] Consume_refines [OF assms] in
    \<open>simp_all add: market_of_def\<close>)

end

section \<open>The invariant of the market\<close>

text \<open>Balances are not negative; a subscription was paid at the price of its plan, carries the quota of its
  plan, runs for the fixed duration, and where the plan has a quota the used jobs stay within it.\<close>

definition sub_ok :: "Subscription \<Rightarrow> bool" where
  "sub_ok u \<longleftrightarrow>
    planCost (s_Plan u) = (s_PaidAmount u, s_JobsLimit u) \<and> s_PaidAmount u \<noteq> 0 \<and>
    s_ExpiresSlot u = s_StartSlot u + SubscriptionDurationSlots \<and>
    (0 <s s_JobsLimit u \<longrightarrow> 0 \<le>s s_JobsUsed u \<and> s_JobsUsed u \<le>s s_JobsLimit u)"

definition market_ok :: "market \<Rightarrow> bool" where
  "market_ok m \<longleftrightarrow> (\<forall>a b. m_balance m a = Some b \<longrightarrow> 0 \<le>s b) \<and> (\<forall>a u. m_sub m a = Some u \<longrightarrow> sub_ok u)"

text \<open>A deposit that does not overflow the balance.\<close>

fun deposit_fits :: "sub_op \<Rightarrow> market \<Rightarrow> bool" where
  "deposit_fits (OpDeposit tx) m \<longleftrightarrow>
    sint (case m_balance m (dp_UserAddr tx) of None \<Rightarrow> 0 | Some b \<Rightarrow> b) + sint (dp_Amount tx) < 2 ^ 63"
| "deposit_fits op m \<longleftrightarrow> True"

lemma planCost_fee: "0 \<le>s fst (planCost plan)" "0 \<le>s snd (planCost plan)"
  by (auto simp: planCost_def word_sle_eq constant_defs)

lemma sub_0_le: "0 \<le>s f \<Longrightarrow> f \<le>s b \<Longrightarrow> 0 \<le>s b - f" for b f :: int64
  using sint64_bounds [of b] sint64_sub [of b f] by (simp add: word_sle_eq)

lemma buy_ok: "market_ok m \<Longrightarrow> can_pay m a plan \<Longrightarrow> market_ok (buy a plan auto slot m)"
  using planCost_fee [of plan]
  by (auto simp: market_ok_def buy_def can_pay_def new_sub_def sub_ok_def intro: sub_0_le split: option.splits if_splits)

lemma renew_one_ok: "market_ok m \<Longrightarrow> market_ok (renew_one slot a m)"
  using buy_ok [of m a]
  by (auto simp: renew_one_def market_ok_def sub_ok_def split: option.split)

lemma renew_all_ok: "market_ok m \<Longrightarrow> market_ok (renew_all slot m)"
  using renew_one_ok [of m slot]
  by (auto simp: renew_all_def market_ok_def split: option.splits if_splits)

lemma consume_ok:
  assumes "sub_ok u" "0 <s s_JobsLimit u \<longrightarrow> s_JobsUsed u <s s_JobsLimit u"
  shows "sub_ok (u\<lparr>s_JobsUsed := s_JobsUsed u + 1\<rparr>)"
proof -
  have "sint (s_JobsUsed u + 1) = sint (s_JobsUsed u) + 1" if "sint (s_JobsUsed u) < sint (s_JobsLimit u)"
    using that sint64_bounds [of "s_JobsLimit u"] sint64_bounds [of "s_JobsUsed u"] sint64_add [of "s_JobsUsed u" 1]
    by simp
  with assms show ?thesis by (auto simp: sub_ok_def word_sle_eq word_sless_alt)
qed

lemma market_step_ok:
  assumes "market_ok m" "deposit_fits op m"
  shows "market_ok (market_step op m)"
proof (cases op)
  case (OpDeposit tx)
  let ?b = "case m_balance m (dp_UserAddr tx) of None \<Rightarrow> 0 | Some b \<Rightarrow> b"
  have "0 \<le>s ?b" using assms(1) by (auto simp: market_ok_def split: option.split)
  then have "0 \<le>s ?b + dp_Amount tx" if "0 <s dp_Amount tx"
    using that assms(2) sint64_add [of ?b "dp_Amount tx"] OpDeposit by (simp add: word_sle_eq word_sless_alt)
  with assms(1) OpDeposit show ?thesis by (auto simp: market_step_def market_ok_def)
next
  case (OpCancel a)
  with assms(1) show ?thesis by (auto simp: market_step_def market_ok_def sub_ok_def)
next
  case (OpConsume a slot)
  with assms(1) show ?thesis
    by (auto simp: market_step_def market_ok_def may_consume_def intro!: consume_ok split: option.splits)
qed (use assms buy_ok renew_all_ok in \<open>auto simp: market_step_def\<close>)

fun sub_run :: "'db db_api \<Rightarrow> sub_op list \<Rightarrow> 'db \<Rightarrow> 'db" where
  "sub_run L [] s = s"
| "sub_run L (op # ops) s = sub_run L ops (sub_exec L op s)"

fun deposits_fit :: "sub_op list \<Rightarrow> market \<Rightarrow> bool" where
  "deposits_fit [] m \<longleftrightarrow> True"
| "deposits_fit (op # ops) m \<longleftrightarrow> deposit_fits op m \<and> deposits_fit ops (market_step op m)"

lemmas [run_eval] = Deposit_def Subscribe_def CancelAutoRenew_def ConsumeJob_def ProcessAutoRenewals_def
  renew_callback_def GetAccount_def GetSubscription_def putAccount_def putSubscription_def planCost_def
  PlanBasic_def PlanPro_def PlanEnterprise_def accounts_def subs_def

lemma subscription_wf_empty: "subscription_wf list_db []"
  by (simp add: subscription_wf_def wf_table_def List.map_filter_simps)

section \<open>Properties\<close>

text \<open>C24: The module implements the market. For every call on a well-formed store, the call succeeds exactly
  when the market accepts the operation, the market that the new store represents is the result of that
  operation (unchanged if it is not accepted), and the call keeps the store well formed and writes only
  accounts and subscriptions. The renewal pass is one such operation: every user that is due is renewed if
  the balance covers the fee and loses the automatic renewal otherwise, independently of the others.\<close>

theorem subscription_refines_market:
  assumes "leveldb L" and "subscription_wf L s"
  shows "market_of L (sub_exec L op s) = market_step op (market_of L s) \<and>
    (sub_ok_call L op s \<longleftrightarrow> accepts op (market_of L s)) \<and>
    subscription_wf L (sub_exec L op s) \<and> only L subscription_ns s (sub_exec L op s)"
  using leveldb.sub_exec_refines [OF assms, of op] by blast

definition example_subs :: "(bytes \<times> json) list" where
  "example_subs = sub_run list_db
    [OpDeposit \<lparr>dp_UserAddr = ''u'', dp_Amount = 70000000\<rparr>,
     OpSubscribe \<lparr>sx_UserAddr = ''u'', sx_Plan = ''pro'', sx_AutoRenew = True\<rparr> 5] []"

lemma example_subs_wf: "subscription_wf list_db example_subs"
  using listdb.sub_exec_refines subscription_wf_empty by (simp add: example_subs_def del: sub_exec.simps)

lemma example_subs_eval:
  "subs list_db example_subs ''u'' = Some (new_sub ''u'' ''pro'' 5 True)"
  "map_option a_Balance (accounts list_db example_subs ''u'') = Some 20000000"
  by (simp_all add: example_subs_def new_sub_def run_eval keys, simp_all add: zero_Account_def)

theorem subscription_refines_market_witness:
  "sub_ok_call list_db (OpConsume ''u'' 6) example_subs \<and> \<not> sub_ok_call list_db (OpConsume ''u'' 432005) example_subs \<and>
   map_option s_AutoRenew (m_sub (market_of list_db (sub_exec list_db (OpRenew 432005) example_subs)) ''u'') = Some False"
proof -
  note R = subscription_refines_market [OF listdb.leveldb_axioms example_subs_wf]
  have "accepts (OpConsume ''u'' 6) (market_of list_db example_subs)"
    "\<not> accepts (OpConsume ''u'' 432005) (market_of list_db example_subs)"
    by (simp_all add: may_consume_def example_subs_eval new_sub_def planCost_def PlanBasic_def PlanPro_def
        word_sle_eq word_sless_alt constant_defs)
  moreover have "map_option s_AutoRenew (m_sub (market_step (OpRenew 432005) (market_of list_db example_subs)) ''u'') = Some False"
    using example_subs_eval(2)
    by (auto simp: market_step_def renew_all_def renew_one_def can_pay_def due_def example_subs_eval(1) new_sub_def
        planCost_def PlanBasic_def PlanPro_def word_sle_eq constant_defs)
  ultimately show ?thesis using R by metis
qed

text \<open>C25: Balances stay non-negative and quotas are kept. Along every sequence of calls in which no deposit
  overflows the account, every balance stays at or above zero, every subscription was paid at the price of
  its plan, and a plan with a quota never has more jobs used than the quota allows.\<close>

theorem market_invariant:
  assumes "leveldb L" and "subscription_wf L s" and "market_ok (market_of L s)"
    and "deposits_fit ops (market_of L s)"
  shows "market_ok (market_of L (sub_run L ops s))"
  using assms(2-4)
proof (induction ops arbitrary: s)
  case (Cons op ops)
  have r: "subscription_wf L (sub_exec L op s)" "market_of L (sub_exec L op s) = market_step op (market_of L s)"
    using leveldb.sub_exec_refines [OF assms(1) Cons.prems(1)] by blast+
  then have "market_ok (market_of L (sub_exec L op s))" "deposits_fit ops (market_of L (sub_exec L op s))"
    using market_step_ok Cons.prems by simp_all
  with Cons.IH [OF r(1)] show ?case by simp
qed simp

theorem market_invariant_witness:
  "market_ok (market_of list_db (sub_run list_db [OpConsume ''u'' 6, OpRenew 432005] example_subs)) \<and>
   m_sub (market_of list_db example_subs) ''u'' \<noteq> None"
proof -
  have "market_ok (market_of list_db [])"
    by (simp add: market_ok_def accounts_def subs_def run_eval)
  moreover have "deposits_fit [OpDeposit \<lparr>dp_UserAddr = ''u'', dp_Amount = 70000000\<rparr>,
     OpSubscribe \<lparr>sx_UserAddr = ''u'', sx_Plan = ''pro'', sx_AutoRenew = True\<rparr> 5] (market_of list_db [])"
    by (simp add: accounts_def run_eval)
  ultimately have "market_ok (market_of list_db example_subs)"
    unfolding example_subs_def by (rule market_invariant [OF listdb.leveldb_axioms subscription_wf_empty])
  then show ?thesis
    using market_invariant [OF listdb.leveldb_axioms example_subs_wf, of "[OpConsume ''u'' 6, OpRenew 432005]"]
    by (simp add: example_subs_eval)
qed

text \<open>Renewing early locks the user out. A second subscription bought while the first one runs replaces it
  and starts at its end, so that a user who could submit jobs before the purchase can submit none in the same
  slot after it, although both periods are paid.\<close>

theorem early_renewal_locks_out:
  "let s = sub_exec list_db (OpDeposit \<lparr>dp_UserAddr = ''u'', dp_Amount = 70000000\<rparr>) example_subs;
       t = sub_exec list_db (OpSubscribe \<lparr>sx_UserAddr = ''u'', sx_Plan = ''pro'', sx_AutoRenew = True\<rparr> 6) s
   in fst (ConsumeJob list_db s ''u'' 6) = None \<and>
      fst (Subscribe list_db s \<lparr>sx_UserAddr = ''u'', sx_Plan = ''pro'', sx_AutoRenew = True\<rparr> 6) = None \<and>
      fst (ConsumeJob list_db t ''u'' 6) \<noteq> None \<and> fst (ConsumeJob list_db t ''u'' 432004) \<noteq> None \<and>
      fst (ConsumeJob list_db t ''u'' 432005) = None"
proof -
  define s where "s = sub_exec list_db (OpDeposit \<lparr>dp_UserAddr = ''u'', dp_Amount = 70000000\<rparr>) example_subs"
  define t where "t = sub_exec list_db (OpSubscribe \<lparr>sx_UserAddr = ''u'', sx_Plan = ''pro'', sx_AutoRenew = True\<rparr> 6) s"
  note R = listdb.sub_exec_refines
  have s: "subscription_wf list_db s" "subs list_db s ''u'' = Some (new_sub ''u'' ''pro'' 5 True)"
    "map_option a_Balance (accounts list_db s ''u'') = Some 90000000"
    using R [OF example_subs_wf, of "OpDeposit \<lparr>dp_UserAddr = ''u'', dp_Amount = 70000000\<rparr>"] example_subs_eval
    by (auto simp: s_def market_step_def market_of_def word_sless_alt fun_eq_iff dest!: spec [of _ "''u''"] split: option.splits)
  have pay: "can_pay (market_of list_db s) ''u'' ''pro''"
    using s(3) by (auto simp: can_pay_def planCost_def PlanBasic_def PlanPro_def word_sle_eq constant_defs)
  have t: "subscription_wf list_db t" "subs list_db t ''u'' = Some (new_sub ''u'' ''pro'' 432005 True)"
    using R [OF s(1), of "OpSubscribe \<lparr>sx_UserAddr = ''u'', sx_Plan = ''pro'', sx_AutoRenew = True\<rparr> 6"] pay
    by (auto simp: t_def market_step_def buy_def start_of_def market_of_def s(2) new_sub_def word_sless_alt constant_defs)
  have "fst (Subscribe list_db s \<lparr>sx_UserAddr = ''u'', sx_Plan = ''pro'', sx_AutoRenew = True\<rparr> 6) = None"
    using R [OF s(1), of "OpSubscribe \<lparr>sx_UserAddr = ''u'', sx_Plan = ''pro'', sx_AutoRenew = True\<rparr> 6"] pay by simp
  then show ?thesis
    unfolding Let_def s_def [symmetric] t_def [symmetric]
    by (simp add: listdb.Consume_refines(4) [OF s(1)] listdb.Consume_refines(4) [OF t(1)] may_consume_def s(2) t(2)
        new_sub_def planCost_def PlanBasic_def PlanPro_def word_sle_eq word_sless_alt constant_defs)
qed

lemma deposit_overflow:
  "let d = \<lambda>s. snd (Deposit list_db s \<lparr>dp_UserAddr = ''u'', dp_Amount = 4611686018427387904\<rparr>)
   in map_option (sint \<circ> a_Balance) (accounts list_db (d (d [])) ''u'') = Some (- 9223372036854775808)"
  by (simp add: run_eval keys, simp add: zero_Account_def run_eval keys)

end
