(* ===== verification/Registry.thy ===== *)
theory Registry
  imports Store
begin

text \<open>
  chain/registry/registry.go: the registry of model versions under \<open>model/\<close>. A model is proposed, collects
  votes of distinct addresses, becomes active at the quorum and stays valid for a grace period after it is
  deprecated. The quorum is the field \<open>quorumRequired\<close> of the Go struct.
\<close>

section \<open>Data\<close>

type_synonym ModelStatus = int64

definition ModelProposed :: ModelStatus where "ModelProposed = 0"
definition ModelActive :: ModelStatus where "ModelActive = 1"
definition ModelDeprecated :: ModelStatus where "ModelDeprecated = 2"

record Model =
  m_ModelID :: string
  m_WeightsHash :: string
  m_TokenizerHash :: string
  m_Quantisation :: string
  m_Status :: ModelStatus
  m_ApprovedAtSlot :: int64
  m_DeprecatedAtSlot :: int64
  m_GraceSlots :: int64
  m_Votes :: "string list"

definition zero_Model :: Model where
  "zero_Model = \<lparr>m_ModelID = [], m_WeightsHash = [], m_TokenizerHash = [], m_Quantisation = [],
    m_Status = 0, m_ApprovedAtSlot = 0, m_DeprecatedAtSlot = 0, m_GraceSlots = 0,
    m_Votes = []\<rparr>"

definition Model_fields :: "Model fields" where
  "Model_fields =
    [(''model_id'', fld dec_string m_ModelID m_ModelID_update),
     (''weights_hash'', fld dec_string m_WeightsHash m_WeightsHash_update),
     (''tokenizer_hash'', fld dec_string m_TokenizerHash m_TokenizerHash_update),
     (''quantisation'', fld dec_string m_Quantisation m_Quantisation_update),
     (''status'', fld dec_int64 m_Status m_Status_update),
     (''approved_at_slot'', fld dec_int64 m_ApprovedAtSlot m_ApprovedAtSlot_update),
     (''deprecated_at_slot'', fld dec_int64 m_DeprecatedAtSlot m_DeprecatedAtSlot_update),
     (''grace_slots'', fld dec_int64 m_GraceSlots m_GraceSlots_update),
     (''votes'', fld (dec_slice dec_string []) m_Votes m_Votes_update)]"

definition enc_Model :: "Model \<Rightarrow> json" where
  "enc_Model x = JObj
    [(''model_id'', JStr (m_ModelID x)),
     (''weights_hash'', JStr (m_WeightsHash x)),
     (''tokenizer_hash'', JStr (m_TokenizerHash x)),
     (''quantisation'', JStr (m_Quantisation x)),
     (''status'', enc_int64 (m_Status x)),
     (''approved_at_slot'', enc_int64 (m_ApprovedAtSlot x)),
     (''deprecated_at_slot'', enc_int64 (m_DeprecatedAtSlot x)),
     (''grace_slots'', enc_int64 (m_GraceSlots x)),
     (''votes'', enc_slice JStr (m_Votes x))]"

record MsgProposeModel =
  mp_ModelID :: string
  mp_WeightsHash :: string
  mp_TokenizerHash :: string
  mp_Quantisation :: string
  mp_GraceSlots :: int64

definition zero_MsgProposeModel :: MsgProposeModel where
  "zero_MsgProposeModel = \<lparr>mp_ModelID = [], mp_WeightsHash = [], mp_TokenizerHash = [], mp_Quantisation = [],
    mp_GraceSlots = 0\<rparr>"

definition MsgProposeModel_fields :: "MsgProposeModel fields" where
  "MsgProposeModel_fields =
    [(''model_id'', fld dec_string mp_ModelID mp_ModelID_update),
     (''weights_hash'', fld dec_string mp_WeightsHash mp_WeightsHash_update),
     (''tokenizer_hash'', fld dec_string mp_TokenizerHash mp_TokenizerHash_update),
     (''quantisation'', fld dec_string mp_Quantisation mp_Quantisation_update),
     (''grace_slots'', fld dec_int64 mp_GraceSlots mp_GraceSlots_update)]"

record MsgApproveModel =
  ma_ModelID :: string
  ma_ValidatorAddr :: string

definition zero_MsgApproveModel :: MsgApproveModel where
  "zero_MsgApproveModel = \<lparr>ma_ModelID = [], ma_ValidatorAddr = []\<rparr>"

definition MsgApproveModel_fields :: "MsgApproveModel fields" where
  "MsgApproveModel_fields =
    [(''model_id'', fld dec_string ma_ModelID ma_ModelID_update),
     (''validator_addr'', fld dec_string ma_ValidatorAddr ma_ValidatorAddr_update)]"

definition GracePeriodSlots :: int64 where "GracePeriodSlots = 14400"

definition modelPrefix :: bytes where "modelPrefix = ''model/''"

definition modelKey :: "string \<Rightarrow> bytes" where "modelKey mid = modelPrefix @ mid"

section \<open>Operations\<close>

definition GetModel :: "'db db_api \<Rightarrow> 'db \<Rightarrow> string \<Rightarrow> error + Model option" where
  "GetModel L s modelID = get_doc L Model_fields zero_Model s (modelKey modelID)"

definition putModel :: "'db db_api \<Rightarrow> 'db \<Rightarrow> Model \<Rightarrow> 'db outcome" where
  "putModel L s m = store_Set L s (modelKey (m_ModelID m)) (enc_Model m)"

definition ProposeModel :: "'db db_api \<Rightarrow> 'db \<Rightarrow> MsgProposeModel \<Rightarrow> 'db outcome" where
  "ProposeModel L s msg =
    (case GetModel L s (mp_ModelID msg) of
       Inl e \<Rightarrow> (Some e, s)
     | Inr existing \<Rightarrow>
         let propose = putModel L s \<lparr>m_ModelID = mp_ModelID msg, m_WeightsHash = mp_WeightsHash msg,
               m_TokenizerHash = mp_TokenizerHash msg, m_Quantisation = mp_Quantisation msg,
               m_Status = ModelProposed, m_ApprovedAtSlot = 0, m_DeprecatedAtSlot = 0,
               m_GraceSlots = (if mp_GraceSlots msg = 0 then GracePeriodSlots else mp_GraceSlots msg),
               m_Votes = []\<rparr>
         in (case existing of
               None \<Rightarrow> propose
             | Some m \<Rightarrow>
                 if m_Status m \<noteq> ModelDeprecated
                 then (Some (Errorf ''model %s already exists with status %d''
                         [AStr (mp_ModelID msg), AInt (m_Status m)]), s)
                 else propose))"

definition ApproveModel :: "'db db_api \<Rightarrow> int \<Rightarrow> 'db \<Rightarrow> MsgApproveModel \<Rightarrow> int64 \<Rightarrow> 'db outcome" where
  "ApproveModel L quorumRequired s msg currentSlot =
    (case GetModel L s (ma_ModelID msg) of
       Inl e \<Rightarrow> (Some e, s)
     | Inr None \<Rightarrow> (Some (Errorf ''model %s not found'' [AStr (ma_ModelID msg)]), s)
     | Inr (Some m) \<Rightarrow>
         if m_Status m \<noteq> ModelProposed
         then (Some (Errorf ''model %s is not in proposed state'' [AStr (ma_ModelID msg)]), s)
         else if list_ex (\<lambda>v. v = ma_ValidatorAddr msg) (m_Votes m)
         then (Some (Errorf ''validator %s already voted for model %s''
                 [AStr (ma_ValidatorAddr msg), AStr (ma_ModelID msg)]), s)
         else
           let m = m\<lparr>m_Votes := m_Votes m @ [ma_ValidatorAddr msg]\<rparr>;
               m = (if quorumRequired \<le> int (length (m_Votes m))
                    then m\<lparr>m_Status := ModelActive, m_ApprovedAtSlot := currentSlot\<rparr> else m)
           in putModel L s m)"

definition DeprecateModel :: "'db db_api \<Rightarrow> 'db \<Rightarrow> string \<Rightarrow> int64 \<Rightarrow> 'db outcome" where
  "DeprecateModel L s modelID currentSlot =
    (case GetModel L s modelID of
       Inl e \<Rightarrow> (Some e, s)
     | Inr None \<Rightarrow> (Some (Errorf ''model %s not found'' [AStr modelID]), s)
     | Inr (Some m) \<Rightarrow> putModel L s (m\<lparr>m_Status := ModelDeprecated, m_DeprecatedAtSlot := currentSlot\<rparr>))"

definition IsValid :: "'db db_api \<Rightarrow> 'db \<Rightarrow> string \<Rightarrow> int64 \<Rightarrow> error + bool" where
  "IsValid L s modelID currentSlot =
    (case GetModel L s modelID of
       Inl e \<Rightarrow> Inl e
     | Inr None \<Rightarrow> Inr False
     | Inr (Some m) \<Rightarrow>
         if m_Status m = ModelActive then Inr True
         else if m_Status m = ModelDeprecated
         then Inr (currentSlot \<le>s m_DeprecatedAtSlot m + m_GraceSlots m)
         else Inr False)"

definition registry_ListActive :: "'db db_api \<Rightarrow> 'db \<Rightarrow> int64 \<Rightarrow> Model list \<times> error option" where
  "registry_ListActive L s currentSlot =
    store_Scan L s modelPrefix
      (\<lambda>_ val result.
         case unmarshal Model_fields zero_Model (Some val) of
           None \<Rightarrow> (False, result)
         | Some m \<Rightarrow>
             let ok = m_Status m = ModelActive \<or>
                 (m_Status m = ModelDeprecated \<and> currentSlot \<le>s m_DeprecatedAtSlot m + m_GraceSlots m)
             in (True, if ok then result @ [m] else result)) []"

section \<open>Codec round trips\<close>

lemma enc_Model_not_null [simp]: "enc_Model x \<noteq> JNull"
  by (simp add: enc_Model_def)

lemma Model_roundtrip [simp, codec]: "dec_struct Model_fields (enc_Model x) zero_Model = Some x"
  by (simp add: dec_struct_JObj find_field_def fld_def Model_fields_def enc_Model_def zero_Model_def)

section \<open>The state of the registry\<close>

definition models :: "'db db_api \<Rightarrow> 'db \<Rightarrow> string \<rightharpoonup> Model" where
  "models L s mid = row L Model_fields zero_Model s (modelKey mid)"

definition model_rows :: "'db db_api \<Rightarrow> 'db \<Rightarrow> Model list" where
  "model_rows L s = rows L Model_fields zero_Model s modelPrefix"

definition registry_wf :: "'db db_api \<Rightarrow> 'db \<Rightarrow> bool" where
  "registry_wf L s \<longleftrightarrow> wf_table L modelPrefix (\<lambda>m. modelKey (m_ModelID m)) enc_Model Model_fields zero_Model s"

definition put_model :: "'db db_api \<Rightarrow> 'db \<Rightarrow> Model \<Rightarrow> 'db" where
  "put_model L s m = put L s (modelKey (m_ModelID m)) (enc_Model m)"

lemmas [keys] = modelKey_def modelPrefix_def

lemma model_keys [simp]:
  "namespace (modelKey a) = ''model''" "namespace modelPrefix = ''model''"
  "modelPrefix \<noteq> []" "last modelPrefix = CHR ''/''"
  "modelKey a = modelKey b \<longleftrightarrow> a = b" "prefix modelPrefix (modelKey a)"
  by (simp_all add: namespace_def keys)

sublocale leveldb \<subseteq> modT: table L modelPrefix "\<lambda>m. modelKey (m_ModelID m)" enc_Model Model_fields zero_Model
  by unfold_locales simp_all

text \<open>Valid at a slot: active, or deprecated and still in the grace period.\<close>

definition valid_at :: "int64 \<Rightarrow> Model \<Rightarrow> bool" where
  "valid_at slot m \<longleftrightarrow> m_Status m = ModelActive \<or>
    (m_Status m = ModelDeprecated \<and> slot \<le>s m_DeprecatedAtSlot m + m_GraceSlots m)"

text \<open>What every stored model satisfies: the votes come from distinct addresses, an active model has the
  quorum and a proposed one does not have it yet.\<close>

definition model_ok :: "int \<Rightarrow> Model \<Rightarrow> bool" where
  "model_ok quorum m \<longleftrightarrow>
    m_Status m \<in> {ModelProposed, ModelActive, ModelDeprecated} \<and> distinct (m_Votes m) \<and>
    (m_Status m = ModelActive \<longrightarrow> quorum \<le> int (length (m_Votes m)) \<and> m_Votes m \<noteq> []) \<and>
    (m_Status m = ModelProposed \<longrightarrow> m_Votes m = [] \<or> int (length (m_Votes m)) < quorum)"

definition all_models :: "'db db_api \<Rightarrow> (Model \<Rightarrow> bool) \<Rightarrow> 'db \<Rightarrow> bool" where
  "all_models L P s \<longleftrightarrow> list_all P (model_rows L s)"

datatype registry_op =
    OpPropose MsgProposeModel
  | OpApprove MsgApproveModel int64
  | OpDeprecate string int64

fun registry_exec :: "'db db_api \<Rightarrow> int \<Rightarrow> registry_op \<Rightarrow> 'db \<Rightarrow> 'db" where
  "registry_exec L quorum (OpPropose msg) s = snd (ProposeModel L s msg)"
| "registry_exec L quorum (OpApprove msg slot) s = snd (ApproveModel L quorum s msg slot)"
| "registry_exec L quorum (OpDeprecate mid slot) s = snd (DeprecateModel L s mid slot)"

definition registry_run :: "'db db_api \<Rightarrow> int \<Rightarrow> registry_op list \<Rightarrow> 'db \<Rightarrow> 'db" where
  "registry_run L quorum ops s = fold (registry_exec L quorum) ops s"

inductive registry_step :: "'db db_api \<Rightarrow> int \<Rightarrow> 'db \<Rightarrow> 'db \<Rightarrow> bool" for L quorum where
  unchanged: "registry_step L quorum s s"
| propose: "m_Status m = ModelProposed \<Longrightarrow> m_Votes m = [] \<Longrightarrow> registry_step L quorum s (put_model L s m)"
| vote: "models L s (m_ModelID m) = Some m \<Longrightarrow> m_Status m = ModelProposed \<Longrightarrow> a \<notin> set (m_Votes m) \<Longrightarrow>
    int (length (m_Votes m)) + 1 < quorum \<Longrightarrow> registry_step L quorum s (put_model L s (m\<lparr>m_Votes := m_Votes m @ [a]\<rparr>))"
| approve: "models L s (m_ModelID m) = Some m \<Longrightarrow> m_Status m = ModelProposed \<Longrightarrow> a \<notin> set (m_Votes m) \<Longrightarrow>
    quorum \<le> int (length (m_Votes m)) + 1 \<Longrightarrow>
    registry_step L quorum s (put_model L s
      (m\<lparr>m_Votes := m_Votes m @ [a], m_Status := ModelActive, m_ApprovedAtSlot := slot\<rparr>))"
| deprecate: "models L s (m_ModelID m) = Some m \<Longrightarrow>
    registry_step L quorum s (put_model L s (m\<lparr>m_Status := ModelDeprecated, m_DeprecatedAtSlot := slot\<rparr>))"

lemmas model_states = ModelProposed_def ModelActive_def ModelDeprecated_def

context leveldb
begin

lemma registry_reads:
  assumes "registry_wf L s"
  shows "GetModel L s a = Inr (models L s a)" and "putModel L s m = (None, put_model L s m)"
  using assms by (simp_all add: registry_wf_def GetModel_def models_def modT.get_doc_row putModel_def put_model_def)

lemma models_id: "registry_wf L s \<Longrightarrow> models L s a = Some m \<Longrightarrow> m_ModelID m = a"
  using modT.lookup_keyof [of s "modelKey a" m] by (simp add: registry_wf_def models_def)

lemma put_model_wf:
  assumes "registry_wf L s"
  shows "registry_wf L (put_model L s m)" and "models L (put_model L s m) = (models L s)(m_ModelID m \<mapsto> m)"
    and "only L {''model''} s (put_model L s m)"
  using assms by (auto simp: put_model_def registry_wf_def modT.wf_insert models_def modT.lookup_insert only_put)

lemma model_rows_iff: "registry_wf L s \<Longrightarrow> m \<in> set (model_rows L s) \<longleftrightarrow> models L s (m_ModelID m) = Some m"
  by (simp add: registry_wf_def model_rows_def models_def modT.set_all_rows)

lemma registry_only:
  assumes "only L N s t" "''model'' \<notin> N"
  shows "registry_wf L t \<longleftrightarrow> registry_wf L s" and "models L t = models L s" and "model_rows L t = model_rows L s"
  using assms modT.only_table [OF assms(1)] by (auto simp: registry_wf_def models_def model_rows_def fun_eq_iff)

lemma all_models_iff: "registry_wf L s \<Longrightarrow> all_models L P s \<longleftrightarrow> (\<forall>a m. models L s a = Some m \<longrightarrow> P m)"
  using model_rows_iff models_id by (fastforce simp: all_models_def list_all_iff)

lemma Propose_step: "registry_wf L s \<Longrightarrow> registry_step L quorum s (snd (ProposeModel L s msg))"
  by (auto simp: ProposeModel_def registry_reads Let_def intro!: registry_step.unchanged registry_step.propose
      split: option.split)

lemma Approve_step:
  assumes "registry_wf L s"
  shows "registry_step L quorum s (snd (ApproveModel L quorum s msg slot))"
proof (cases "\<exists>m. models L s (ma_ModelID msg) = Some m \<and> m_Status m = ModelProposed \<and> ma_ValidatorAddr msg \<notin> set (m_Votes m)")
  case True
  then obtain m where m: "models L s (ma_ModelID msg) = Some m" "m_Status m = ModelProposed"
    "ma_ValidatorAddr msg \<notin> set (m_Votes m)" by blast
  have "models L s (m_ModelID m) = Some m" using models_id [OF assms m(1)] m(1) by simp
  with m assms registry_step.vote [of L s m "ma_ValidatorAddr msg" quorum]
    registry_step.approve [of L s m "ma_ValidatorAddr msg" quorum slot]
  show ?thesis by (simp add: ApproveModel_def registry_reads Let_def list_ex_iff add.commute)
next
  case False
  then have "snd (ApproveModel L quorum s msg slot) = s"
    using assms by (auto simp: ApproveModel_def registry_reads list_ex_iff split: option.split)
  then show ?thesis by (simp add: registry_step.unchanged)
qed

lemma Deprecate_step: "registry_wf L s \<Longrightarrow> registry_step L quorum s (snd (DeprecateModel L s a slot))"
  using models_id [of s a]
  by (auto simp: DeprecateModel_def registry_reads intro!: registry_step.unchanged registry_step.deprecate split: option.split)

lemma registry_exec_step: "registry_wf L s \<Longrightarrow> registry_step L quorum s (registry_exec L quorum op s)"
  by (cases op) (simp_all add: Propose_step Approve_step Deprecate_step)

lemma registry_step_wf: "registry_step L quorum s t \<Longrightarrow> registry_wf L s \<Longrightarrow> registry_wf L t \<and> only L {''model''} s t"
  by (induction rule: registry_step.induct) (simp_all add: put_model_wf)

lemma registry_step_ok:
  assumes "registry_step L quorum s t" "registry_wf L s" "all_models L (model_ok quorum) s"
  shows "all_models L (model_ok quorum) t"
proof -
  have put: "all_models L (model_ok quorum) (put_model L s m)" if "model_ok quorum m" for m
    using assms(2,3) that put_model_wf [OF assms(2), of m] by (auto simp: all_models_iff)
  have old: "model_ok quorum m" if "models L s a = Some m" for a m
    using assms(2,3) that by (auto simp: all_models_iff)
  from assms(1) show ?thesis
  proof cases
    case unchanged
    with assms(3) show ?thesis by simp
  next
    case (propose m)
    then show ?thesis by (auto intro!: put simp: model_ok_def model_states)
  next
    case (vote m a)
    then show ?thesis using old [of "m_ModelID m" m] by (auto intro!: put simp: model_ok_def model_states)
  next
    case (approve m a slot)
    then show ?thesis using old [of "m_ModelID m" m] by (auto intro!: put simp: model_ok_def model_states)
  next
    case (deprecate m slot)
    then show ?thesis using old [of "m_ModelID m" m] by (auto intro!: put simp: model_ok_def model_states)
  qed
qed

lemma registry_run_ok:
  "registry_wf L s \<Longrightarrow> all_models L (model_ok quorum) s \<Longrightarrow>
   registry_wf L (registry_run L quorum ops s) \<and> all_models L (model_ok quorum) (registry_run L quorum ops s)"
  unfolding registry_run_def
proof (induction ops arbitrary: s)
  case (Cons op ops)
  note S = registry_exec_step [OF Cons.prems(1), of quorum op]
  have "registry_wf L (registry_exec L quorum op s)" using registry_step_wf [OF S Cons.prems(1)] by simp
  moreover have "all_models L (model_ok quorum) (registry_exec L quorum op s)"
    by (rule registry_step_ok [OF S Cons.prems])
  ultimately show ?case using Cons.IH by simp
qed simp

lemma ListActive_rows:
  assumes "registry_wf L s"
  shows "registry_ListActive L s slot = (filter (valid_at slot) (model_rows L s), None)"
proof -
  have "fst (registry_ListActive L s slot) = fold (\<lambda>m r. if valid_at slot m then r @ [m] else r) (model_rows L s) []"
    unfolding registry_ListActive_def store_Scan_iter fst_conv model_rows_def
    by (rule modT.scan_rows) (use assms in \<open>simp_all add: registry_wf_def unmarshal_def valid_at_def\<close>)
  also have "fold (\<lambda>m r. if valid_at slot m then r @ [m] else r) ms r = r @ filter (valid_at slot) ms" for ms r
    by (induction ms arbitrary: r) auto
  finally show ?thesis by (simp add: registry_ListActive_def)
qed

lemma sorted_model_rows: "registry_wf L s \<Longrightarrow> sorted_wrt (<) (map (\<lambda>m. modelKey (m_ModelID m)) (model_rows L s))"
  using modT.sorted_all_rows [of s] by (simp add: registry_wf_def model_rows_def)

lemma IsValid_wf:
  "registry_wf L s \<Longrightarrow> IsValid L s a slot = Inr (case models L s a of None \<Rightarrow> False | Some m \<Rightarrow> valid_at slot m)"
  by (simp add: IsValid_def registry_reads valid_at_def model_states split: option.split)

end

lemmas [run_eval] = ProposeModel_def ApproveModel_def DeprecateModel_def IsValid_def registry_ListActive_def
  GetModel_def putModel_def models_def model_rows_def model_states GracePeriodSlots_def registry_run_def all_models_def

lemma registry_wf_empty: "registry_wf list_db []"
  by (simp add: registry_wf_def wf_table_def List.map_filter_simps)

section \<open>Properties\<close>

definition example_models_ops :: "registry_op list" where
  "example_models_ops =
    [OpPropose \<lparr>mp_ModelID = ''llama'', mp_WeightsHash = ''w'', mp_TokenizerHash = ''t'', mp_Quantisation = ''q'', mp_GraceSlots = 0\<rparr>,
     OpApprove \<lparr>ma_ModelID = ''llama'', ma_ValidatorAddr = ''v1''\<rparr> 3,
     OpApprove \<lparr>ma_ModelID = ''llama'', ma_ValidatorAddr = ''v1''\<rparr> 4,
     OpApprove \<lparr>ma_ModelID = ''llama'', ma_ValidatorAddr = ''v2''\<rparr> 5]"

definition example_models :: "(bytes \<times> json) list" where
  "example_models = registry_run list_db 2 example_models_ops []"

definition example_model :: Model where
  "example_model = \<lparr>m_ModelID = ''llama'', m_WeightsHash = ''w'', m_TokenizerHash = ''t'', m_Quantisation = ''q'',
    m_Status = ModelActive, m_ApprovedAtSlot = 5, m_DeprecatedAtSlot = 0, m_GraceSlots = 14400,
    m_Votes = [''v1'', ''v2'']\<rparr>"

lemma example_models_eval:
  "model_rows list_db example_models = [example_model]" "models list_db example_models ''llama'' = Some example_model"
  by (simp_all add: example_models_def example_models_ops_def example_model_def run_eval keys)

lemma example_models_wf: "registry_wf list_db example_models"
  using listdb.registry_run_ok [OF registry_wf_empty, of 2 example_models_ops]
  by (simp add: example_models_def all_models_def model_rows_def run_eval)

text \<open>C26: A model is active only with a quorum of distinct votes. Along every sequence of proposals, votes and
  deprecations the votes of a model come from pairwise different addresses, an active model has at least the
  required number of them, and a model with that many votes is no longer just proposed.\<close>

theorem registry_invariant:
  assumes "leveldb L" and "registry_wf L s" and "all_models L (model_ok quorum) s"
  shows "registry_wf L (registry_run L quorum ops s) \<and> all_models L (model_ok quorum) (registry_run L quorum ops s)"
  using assms by (rule leveldb.registry_run_ok)

theorem registry_invariant_witness:
  "all_models list_db (model_ok 2) [] \<and> all_models list_db (model_ok 2) example_models \<and>
   map m_Votes (model_rows list_db example_models) = [[''v1'', ''v2'']]"
proof -
  have a: "all_models list_db (model_ok 2) []" by (simp add: run_eval)
  from a registry_invariant [OF listdb.leveldb_axioms registry_wf_empty a, of example_models_ops] show ?thesis
    by (simp add: example_models_def [symmetric] example_models_eval example_model_def)
qed

text \<open>The two ways to ask for valid models agree. \<open>ListActive\<close> succeeds and returns, in key order and
  without duplicates, exactly the stored models whose id \<open>IsValid\<close> confirms at that slot.\<close>

theorem ListActive_IsValid:
  assumes "leveldb L" and "registry_wf L s"
  shows "\<exists>ms. registry_ListActive L s slot = (ms, None) \<and> sorted_wrt (<) (map (\<lambda>m. modelKey (m_ModelID m)) ms) \<and>
    (\<forall>a. IsValid L s a slot = Inr (list_ex (\<lambda>m. m_ModelID m = a) ms)) \<and>
    (\<forall>m. List.member ms m \<longrightarrow> models L s (m_ModelID m) = Some m)"
proof -
  let ?ms = "filter (valid_at slot) (model_rows L s)"
  have "sorted_wrt (<) (map (\<lambda>m. modelKey (m_ModelID m)) ?ms)"
    using leveldb.sorted_model_rows [OF assms] by (simp add: sorted_wrt_map sorted_wrt_filter)
  moreover have "(case models L s a of None \<Rightarrow> False | Some m \<Rightarrow> valid_at slot m) \<longleftrightarrow> list_ex (\<lambda>m. m_ModelID m = a) ?ms" for a
  proof -
    have k: "models L s (m_ModelID k) = Some k" if "k \<in> set (model_rows L s)" for k
      using leveldb.model_rows_iff [OF assms] that by blast
    have "k \<in> set (model_rows L s) \<and> m_ModelID k = a \<longleftrightarrow> models L s a = Some k" for k
      using k leveldb.model_rows_iff [OF assms, of k] leveldb.models_id [OF assms, of a k] by blast
    then have "list_ex (\<lambda>m. m_ModelID m = a) ?ms \<longleftrightarrow> (\<exists>k. models L s a = Some k \<and> valid_at slot k)"
      unfolding list_ex_iff set_filter by blast
    then show ?thesis by (simp split: option.split)
  qed
  moreover have "models L s (m_ModelID m) = Some m" if "List.member ?ms m" for m
    using that leveldb.model_rows_iff [OF assms, of m] by simp
  ultimately show ?thesis
    using leveldb.ListActive_rows [OF assms, of slot] leveldb.IsValid_wf [OF assms, of _ slot] by auto
qed

theorem ListActive_IsValid_witness:
  "\<exists>ms. registry_ListActive list_db example_models 9 = (ms, None) \<and>
    IsValid list_db example_models ''llama'' 9 = Inr (list_ex (\<lambda>m. m_ModelID m = ''llama'') ms) \<and>
    IsValid list_db example_models ''llama'' 9 = Inr True"
proof -
  have "IsValid list_db example_models ''llama'' 9 = Inr True"
    by (simp add: listdb.IsValid_wf [OF example_models_wf] example_models_eval valid_at_def example_model_def)
  with ListActive_IsValid [OF listdb.leveldb_axioms example_models_wf, of 9] show ?thesis by metis
qed

text \<open>Deprecation makes an unapproved model valid. A model that nobody voted for becomes servable for its
  grace period when it is deprecated, although it was not valid before.\<close>

theorem deprecated_proposal_is_valid:
  "let s = registry_run list_db 2 (take 1 example_models_ops) [];
       t = snd (DeprecateModel list_db s ''llama'' 7)
   in IsValid list_db s ''llama'' 7 = Inr False \<and> IsValid list_db t ''llama'' 7 = Inr True \<and>
      map_option m_Votes (models list_db t ''llama'') = Some []"
  by (simp add: example_models_ops_def run_eval keys)

end
