(* ===== verification/Genesis.thy ===== *)
theory Genesis
  imports Types
begin

text \<open>
  The genesis document, after \<open>chain/genesis/genesis.go\<close>: its types with their JSON field
  tables, the default document, and reading and writing it. The files are a parameter (the calls
  \<open>os.ReadFile\<close> and \<open>os.WriteFile\<close>); what the round trip relies on is \<open>os_ok\<close>. A
  \<open>time.Time\<close> is kept as the canonical RFC 3339 text it is printed with, because the program never
  computes with it. A document that repeats the key \<open>validators\<close> is read with the last array alone.
\<close>

section \<open>Times\<close>

definition in_range :: "nat \<Rightarrow> nat \<Rightarrow> string \<Rightarrow> bool" where
  "in_range lo hi s \<longleftrightarrow> list_all is_digit s \<and> lo \<le> undigits s \<and> undigits s \<le> hi"

definition daysIn :: "nat \<Rightarrow> nat \<Rightarrow> nat" where
  "daysIn year month =
    (if month = 2 then (if year mod 4 = 0 \<and> (year mod 100 \<noteq> 0 \<or> year mod 400 = 0) then 29 else 28)
     else if month \<in> {4, 6, 9, 11} then 30 else 31)"

definition frac_digits :: "string \<Rightarrow> string" where
  "frac_digits s = (case drop 19 s of CHR ''.'' # cs \<Rightarrow> takeWhile is_digit cs | _ \<Rightarrow> [])"

definition zone_text :: "string \<Rightarrow> string" where
  "zone_text s =
    (if frac_digits s = [] then drop 19 s else drop (20 + length (frac_digits s)) s)"

text \<open>The texts that \<open>time.Time.UnmarshalJSON\<close> accepts.\<close>

definition rfc3339 :: "string \<Rightarrow> bool" where
  "rfc3339 s \<longleftrightarrow>
    20 \<le> length s \<and> in_range 0 9999 (take 4 s) \<and> s ! 4 = CHR ''-'' \<and>
    in_range 1 12 (take 2 (drop 5 s)) \<and> s ! 7 = CHR ''-'' \<and>
    in_range 1 (daysIn (undigits (take 4 s)) (undigits (take 2 (drop 5 s)))) (take 2 (drop 8 s)) \<and>
    s ! 10 = CHR ''T'' \<and> in_range 0 23 (take 2 (drop 11 s)) \<and> s ! 13 = CHR '':'' \<and>
    in_range 0 59 (take 2 (drop 14 s)) \<and> s ! 16 = CHR '':'' \<and> in_range 0 59 (take 2 (drop 17 s)) \<and>
    (let z = zone_text s in
       z = ''Z'' \<or>
       length z = 6 \<and> z ! 0 \<in> {CHR ''+'', CHR ''-''} \<and> in_range 0 23 (take 2 (drop 1 z)) \<and>
       z ! 3 = CHR '':'' \<and> in_range 0 59 (drop 4 z))"

text \<open>The text a time is printed with: nanoseconds without trailing zeros, and \<open>Z\<close> for the offset zero.\<close>

definition canonical :: "string \<Rightarrow> string" where
  "canonical s =
    (let f = rev (dropWhile (\<lambda>c. c = CHR ''0'') (rev (take 9 (frac_digits s))));
         z = zone_text s
     in take 19 s @ (if f = [] then [] else CHR ''.'' # f) @
        (if z = ''+00:00'' \<or> z = ''-00:00'' then ''Z'' else z))"

definition time_ok :: "string \<Rightarrow> bool" where
  "time_ok t \<longleftrightarrow> rfc3339 t \<and> canonical t = t"

definition dec_time :: "string setter" where
  "dec_time j old =
    (case j of
       JNull \<Rightarrow> Some old
     | JStr s \<Rightarrow> if rfc3339 s then Some (canonical s) else None
     | _ \<Rightarrow> None)"

section \<open>The document\<close>

definition TotalSupply :: int64 where "TotalSupply = 100000000000000"

record ValidatorGenesis =
  vg_Address :: string
  vg_PubKey :: string
  vg_BLSPubKey :: string
  vg_Bond :: int64
  vg_Commission :: int64
  vg_Moniker :: string

definition zero_ValidatorGenesis :: ValidatorGenesis where
  "zero_ValidatorGenesis = \<lparr>vg_Address = [], vg_PubKey = [], vg_BLSPubKey = [], vg_Bond = 0,
    vg_Commission = 0, vg_Moniker = []\<rparr>"

definition ValidatorGenesis_fields :: "ValidatorGenesis fields" where
  "ValidatorGenesis_fields =
    [(''address'', fld dec_string vg_Address vg_Address_update),
     (''pub_key'', fld dec_string vg_PubKey vg_PubKey_update),
     (''bls_pub_key'', fld dec_string vg_BLSPubKey vg_BLSPubKey_update),
     (''bond'', fld dec_int64 vg_Bond vg_Bond_update),
     (''commission_bps'', fld dec_int64 vg_Commission vg_Commission_update),
     (''moniker'', fld dec_string vg_Moniker vg_Moniker_update)]"

definition enc_ValidatorGenesis :: "ValidatorGenesis \<Rightarrow> json" where
  "enc_ValidatorGenesis v = JObj
    [(''address'', JStr (vg_Address v)), (''pub_key'', JStr (vg_PubKey v)),
     (''bls_pub_key'', JStr (vg_BLSPubKey v)), (''bond'', enc_int64 (vg_Bond v)),
     (''commission_bps'', enc_int64 (vg_Commission v)), (''moniker'', JStr (vg_Moniker v))]"

record Genesis =
  g_ChainID :: string
  g_GenesisTime :: string
  g_TotalSupply :: int64
  g_Validators :: "ValidatorGenesis list"
  g_MinStake :: int64
  g_SlotSeconds :: int64
  g_EpochSlots :: int64

definition zero_Genesis :: Genesis where
  "zero_Genesis = \<lparr>g_ChainID = [], g_GenesisTime = ''0001-01-01T00:00:00Z'', g_TotalSupply = 0,
    g_Validators = [], g_MinStake = 0, g_SlotSeconds = 0, g_EpochSlots = 0\<rparr>"

definition Genesis_fields :: "Genesis fields" where
  "Genesis_fields =
    [(''chain_id'', fld dec_string g_ChainID g_ChainID_update),
     (''genesis_time'', fld dec_time g_GenesisTime g_GenesisTime_update),
     (''total_supply_ubigt'', fld dec_int64 g_TotalSupply g_TotalSupply_update),
     (''validators'', fld (dec_slice (dec_struct ValidatorGenesis_fields) zero_ValidatorGenesis)
       g_Validators g_Validators_update),
     (''min_stake_ubigt'', fld dec_int64 g_MinStake g_MinStake_update),
     (''slot_seconds'', fld dec_int64 g_SlotSeconds g_SlotSeconds_update),
     (''epoch_slots'', fld dec_int64 g_EpochSlots g_EpochSlots_update)]"

definition enc_Genesis :: "Genesis \<Rightarrow> json" where
  "enc_Genesis g = JObj
    [(''chain_id'', JStr (g_ChainID g)), (''genesis_time'', JStr (g_GenesisTime g)),
     (''total_supply_ubigt'', enc_int64 (g_TotalSupply g)),
     (''validators'', enc_slice enc_ValidatorGenesis (g_Validators g)),
     (''min_stake_ubigt'', enc_int64 (g_MinStake g)), (''slot_seconds'', enc_int64 (g_SlotSeconds g)),
     (''epoch_slots'', enc_int64 (g_EpochSlots g))]"

definition Default :: "string \<Rightarrow> Genesis" where
  "Default now = \<lparr>g_ChainID = ''bigt-devnet-1'', g_GenesisTime = now, g_TotalSupply = TotalSupply,
    g_Validators =
      [\<lparr>vg_Address = ''val1_address_placeholder'', vg_PubKey = ''val1_ed25519_pubkey_placeholder'',
        vg_BLSPubKey = ''val1_bls_pubkey_placeholder'', vg_Bond = 10000000000, vg_Commission = 500,
        vg_Moniker = ''devnet-validator-1''\<rparr>],
    g_MinStake = 5000000000, g_SlotSeconds = 6, g_EpochSlots = 14400\<rparr>"

section \<open>Reading and writing\<close>

record 'fs os_api =
  os_ReadFile :: "'fs \<Rightarrow> string \<Rightarrow> error + raw"
  os_WriteFile :: "'fs \<Rightarrow> string \<Rightarrow> json \<Rightarrow> 'fs outcome"

definition os_ok :: "'fs os_api \<Rightarrow> bool" where
  "os_ok F \<longleftrightarrow>
    (\<forall>fs path j. fst (os_WriteFile F fs path j) = None \<longrightarrow>
       os_ReadFile F (snd (os_WriteFile F fs path j)) path = Inr (Some j))"

record genesis_wrapper =
  w_AppState :: raw

definition genesis_wrapper_fields :: "genesis_wrapper fields" where
  "genesis_wrapper_fields = [(''app_state'', fld dec_RawMessage w_AppState w_AppState_update)]"

definition load_wrapped :: "raw \<Rightarrow> Genesis option" where
  "load_wrapped data =
    (case unmarshal genesis_wrapper_fields \<lparr>w_AppState = None\<rparr> data of
       None \<Rightarrow> None
     | Some wrapper \<Rightarrow>
         if w_AppState wrapper = None then None
         else (case unmarshal Genesis_fields zero_Genesis (w_AppState wrapper) of
                 None \<Rightarrow> None
               | Some g \<Rightarrow> if g_ChainID g \<noteq> [] then Some g else None))"

definition Load :: "'fs os_api \<Rightarrow> 'fs \<Rightarrow> string \<Rightarrow> error + Genesis" where
  "Load F fs path =
    (case os_ReadFile F fs path of
       Inl e \<Rightarrow> Inl e
     | Inr data \<Rightarrow>
         (case load_wrapped data of
            Some g \<Rightarrow> Inr g
          | None \<Rightarrow>
              (case unmarshal Genesis_fields zero_Genesis data of None \<Rightarrow> Inl ErrJSON | Some g \<Rightarrow> Inr g)))"

definition Save :: "'fs os_api \<Rightarrow> 'fs \<Rightarrow> Genesis \<Rightarrow> string \<Rightarrow> 'fs outcome" where
  "Save F fs g path = os_WriteFile F fs path (enc_Genesis g)"

section \<open>Codec round trips\<close>

lemma ValidatorGenesis_roundtrip [simp, codec]:
  "dec_struct ValidatorGenesis_fields (enc_ValidatorGenesis x) zero_ValidatorGenesis = Some x"
  by (simp add: codec_defs ValidatorGenesis_fields_def enc_ValidatorGenesis_def zero_ValidatorGenesis_def)

lemma dec_time_ok: "time_ok t \<Longrightarrow> dec_time (JStr t) old = Some t"
  by (simp add: dec_time_def time_ok_def)

lemma Genesis_roundtrip [simp, codec]:
  "time_ok (g_GenesisTime x) \<Longrightarrow> dec_struct Genesis_fields (enc_Genesis x) zero_Genesis = Some x"
  by (simp add: codec_defs Genesis_fields_def enc_Genesis_def zero_Genesis_def dec_time_ok dec_enc_slice)

definition app_state_key :: "string \<Rightarrow> bool" where
  "app_state_key k \<longleftrightarrow> foldName k = foldName ''app_state''"

lemma wrapper_find:
  "find_field genesis_wrapper_fields k = (if app_state_key k then Some (fld dec_RawMessage w_AppState w_AppState_update) else None)"
  by (auto simp: find_field_def genesis_wrapper_fields_def app_state_key_def)

lemma wrapper_skip:
  "list_all (\<lambda>(k, _). \<not> app_state_key k) kvs \<Longrightarrow> dec_fields genesis_wrapper_fields (kvs @ kvs') w = dec_fields genesis_wrapper_fields kvs' w"
  by (induction kvs) (auto simp: wrapper_find)

lemma load_wrapped_app_state:
  assumes "list_all (\<lambda>(k, _). \<not> app_state_key k) (pre @ post)" "time_ok (g_GenesisTime g)"
  shows "load_wrapped (Some (JObj (pre @ (''app_state'', enc_Genesis g) # post))) =
    (if g_ChainID g \<noteq> [] then Some g else None)"
  using assms wrapper_skip [of post "[]"]
  by (simp add: load_wrapped_def unmarshal_def dec_struct_JObj wrapper_skip wrapper_find app_state_key_def
      fld_def dec_RawMessage_def)

lemma load_wrapped_raw: "load_wrapped (Some (enc_Genesis g)) = None"
  by (simp add: load_wrapped_def unmarshal_def enc_Genesis_def dec_struct_JObj wrapper_find app_state_key_def)

section \<open>Properties\<close>

text \<open>A file system with one file per path, for the witnesses.\<close>

definition map_os :: "(string \<rightharpoonup> json) os_api" where
  "map_os = \<lparr>os_ReadFile = (\<lambda>fs path. case fs path of None \<Rightarrow> Inl (Errorf ''open %s'' [AStr path]) | Some j \<Rightarrow> Inr (Some j)),
     os_WriteFile = (\<lambda>fs path j. (None, fs(path \<mapsto> j)))\<rparr>"

lemma os_ok_map_os: "os_ok map_os"
  by (simp add: os_ok_def map_os_def)

lemma Save_Load:
  assumes "os_ok F" "time_ok (g_GenesisTime g)" "Save F fs g path = (None, fs')"
  shows "Load F fs' path = Inr g"
proof -
  have "os_ReadFile F fs' path = Inr (Some (enc_Genesis g))"
    using assms(1,3) by (metis os_ok_def Save_def fst_conv snd_conv)
  then show ?thesis using assms(2) by (simp add: Load_def load_wrapped_raw unmarshal_def)
qed

text \<open>C27: A genesis document is read back as it was written, in both formats. After \<open>Save\<close>
  succeeds, \<open>Load\<close> of the same path returns the same document; and a CometBFT genesis file, with
  whatever other fields before and after its \<open>app_state\<close>, loads as the document nested there when
  that has a chain id.\<close>

theorem genesis_roundtrip:
  assumes "os_ok F" and "time_ok (g_GenesisTime g)"
  shows "(Save F fs g path = (None, fs') \<longrightarrow> Load F fs' path = Inr g) \<and>
    (os_ReadFile F fs2 path2 = Inr (Some (JObj (pre @ (''app_state'', enc_Genesis g) # post))) \<and>
     list_all (\<lambda>(k, _). \<not> app_state_key k) (pre @ post) \<and> g_ChainID g \<noteq> [] \<longrightarrow> Load F fs2 path2 = Inr g)"
  using assms(2) Save_Load [OF assms] by (simp add: Load_def load_wrapped_app_state)

definition example_time :: string where
  "example_time = ''2024-02-29T12:30:05.25Z''"

lemma example_time_ok: "time_ok example_time"
  by (simp add: time_ok_def rfc3339_def canonical_def example_time_def zone_text_def frac_digits_def
      in_range_def is_digit_def undigits_def digit_val_def daysIn_def less_eq_char_def Let_def)

theorem genesis_roundtrip_witness:
  "let g = Default example_time;
       fs = snd (Save map_os Map.empty g ''genesis.json'');
       fs2 = [''cmt.json'' \<mapsto> JObj [(''chain_id'', JStr ''bigt''), (''app_state'', enc_Genesis g), (''height'', JInt 1)]]
   in Load map_os fs ''genesis.json'' = Inr g \<and> Load map_os fs2 ''cmt.json'' = Inr g"
  using genesis_roundtrip [OF os_ok_map_os, of "Default example_time" Map.empty "''genesis.json''"
      "[''genesis.json'' \<mapsto> enc_Genesis (Default example_time)]"
      "[''cmt.json'' \<mapsto> JObj [(''chain_id'', JStr ''bigt''), (''app_state'', enc_Genesis (Default example_time)), (''height'', JInt 1)]]"
      "''cmt.json''" "[(''chain_id'', JStr ''bigt'')]" "[(''height'', JInt 1)]"]
  by (simp add: Save_def map_os_def Default_def example_time_ok app_state_key_def)

end
