(* ===== verification/App.thy ===== *)
theory App
  imports Slashing Vrf Rewards Subscription Registry Genesis
begin

text \<open>
  The ABCI application, after \<open>chain/app/app.go\<close>: the state of a node, \<open>InitChain\<close>,
  \<open>FinalizeBlock\<close> with its stages, the sixteen transaction handlers, \<open>Query\<close> and the small
  calls. Everything a node depends on besides its own state is collected in the record \<open>node\<close>: the
  database, the hash function, \<open>sort.Slice\<close> and the order in which a map is ranged over. Diagnostics
  printed to standard error are not part of the model. A log is a format with its arguments. A run-time panic
  inside a transaction ends the block (\<open>Inl\<close>).
\<close>

section \<open>The state of a node\<close>

record 'db node =
  nd_db :: "'db db_api"
  nd_keccak :: hash_fn
  nd_sort :: "(Proof \<Rightarrow> Proof \<Rightarrow> bool) \<Rightarrow> Proof list \<Rightarrow> Proof list"
  nd_range :: "(string, bool) fmap \<Rightarrow> string list"

record 'db App =
  a_store :: 'db
  currentSlot :: int64
  currentEpoch :: int64
  epochSeed :: bytes
  proposer :: string
  server :: string
  slashEvents :: "Event list"
  chainID :: string
  totalSupply :: int64
  activeVals :: "Validator list"

definition registry_quorum :: int where "registry_quorum = 3"

definition app_New :: "'db \<Rightarrow> 'db App" where
  "app_New s = \<lparr>a_store = s, currentSlot = 0, currentEpoch = 0, epochSeed = [], proposer = [], server = [],
    slashEvents = [], chainID = [], totalSupply = 0, activeVals = []\<rparr>"

section \<open>Results\<close>

type_synonym log = "string \<times> earg list"

record ExecTxResult =
  x_Code :: "32 word"
  x_Log :: log

definition okResult :: "log \<Rightarrow> ExecTxResult" where
  "okResult msg = \<lparr>x_Code = 0, x_Log = msg\<rparr>"

definition errResult :: "32 word \<Rightarrow> log \<Rightarrow> ExecTxResult" where
  "errResult code msg = \<lparr>x_Code = code, x_Log = msg\<rparr>"

abbreviation err_text :: "error \<Rightarrow> log" where
  "err_text e \<equiv> (''%s'', [AErr e])"

section \<open>Transaction handlers\<close>

definition handleJobRequest :: "'db node \<Rightarrow> 'db App \<Rightarrow> Tx \<Rightarrow> ExecTxResult \<times> 'db App" where
  "handleJobRequest N a tx =
    (case unmarshal JobRequest_fields zero_JobRequest (tx_Payload tx) of
       None \<Rightarrow> (errResult 10 (err_text ErrJSON), a)
     | Some req \<Rightarrow>
         (case IsValid (nd_db N) (a_store a) (jr_ModelID req) (currentSlot a) of
            Inl e \<Rightarrow> (errResult 11 (err_text e), a)
          | Inr valid \<Rightarrow>
              if \<not> valid then (errResult 12 (''model not registered: %s'', [AStr (jr_ModelID req)]), a)
              else
                (case ConsumeJob (nd_db N) (a_store a) (jr_UserAddr req) (currentSlot a) of
                   (Some e, s) \<Rightarrow>
                     (errResult 14 (''subscription check failed: %s'', [AErr e]), a\<lparr>a_store := s\<rparr>)
                 | (None, s) \<Rightarrow>
                     (case jobs_Commit (nd_db N) s req (currentSlot a) (server a) of
                        (Some e, s) \<Rightarrow> (errResult 13 (err_text e), a\<lparr>a_store := s\<rparr>)
                      | (None, s) \<Rightarrow>
                          (okResult (''job committed: %s'', [AStr (jr_JobID req)]), a\<lparr>a_store := s\<rparr>)))))"

definition handleReveal :: "'db node \<Rightarrow> 'db App \<Rightarrow> Tx \<Rightarrow> ExecTxResult \<times> 'db App" where
  "handleReveal N a tx =
    (case unmarshal RevealTx_fields zero_RevealTx (tx_Payload tx) of
       None \<Rightarrow> (errResult 20 (err_text ErrJSON), a)
     | Some rv \<Rightarrow>
         (case Reveal (nd_db N) (nd_keccak N) (a_store a) rv of
            (Some e, s) \<Rightarrow> (errResult 21 (err_text e), a\<lparr>a_store := s\<rparr>)
          | (None, s) \<Rightarrow> (okResult (''revealed: %s'', [AStr (rv_JobID rv)]), a\<lparr>a_store := s\<rparr>)))"

definition handleCommitment :: "'db node \<Rightarrow> 'db App \<Rightarrow> Tx \<Rightarrow> ExecTxResult \<times> 'db App" where
  "handleCommitment N a tx =
    (case unmarshal OutputCommitment_fields zero_OutputCommitment (tx_Payload tx) of
       None \<Rightarrow> (errResult 30 (err_text ErrJSON), a)
     | Some c \<Rightarrow>
         (case AddCommitment (nd_db N) (a_store a) c of
            (Some e, s) \<Rightarrow> (errResult 31 (err_text e), a\<lparr>a_store := s\<rparr>)
          | (None, s) \<Rightarrow>
              let s = snd (ResetMissed (nd_db N) s (oc_ValidatorAddr c) (currentEpoch a));
                  s = snd (RecordJobServed (nd_db N) s (oc_ValidatorAddr c) (currentEpoch a))
              in (okResult (''job %s served by %s'', [AStr (oc_JobID c), AStr (oc_ValidatorAddr c)]),
                  a\<lparr>a_store := s\<rparr>)))"

text \<open>The counters of a slashed validator; both the user dispute and the tally record them.\<close>

definition record_slash :: "'db db_api \<Rightarrow> 'db \<Rightarrow> string \<Rightarrow> int64 \<Rightarrow> 'db" where
  "record_slash L s addr epoch =
    (let s = snd (RecordJobSlashed L s addr epoch) in snd (RecordBlockReverted L s addr epoch))"

definition handleDispute :: "'db node \<Rightarrow> 'db App \<Rightarrow> Tx \<Rightarrow> ExecTxResult \<times> 'db App" where
  "handleDispute N a tx =
    (case unmarshal DisputeTx_fields zero_DisputeTx (tx_Payload tx) of
       None \<Rightarrow> (errResult 40 (err_text ErrJSON), a)
     | Some d \<Rightarrow>
         (case ProcessUserDispute (nd_db N) (nd_keccak N) (a_store a) d (currentSlot a) of
            (Inl e, s) \<Rightarrow> (errResult 41 (err_text e), a\<lparr>a_store := s\<rparr>)
          | (Inr None, s) \<Rightarrow> (errResult 42 (''dispute invalid: hashes match'', []), a\<lparr>a_store := s\<rparr>)
          | (Inr (Some ev), s) \<Rightarrow>
              (okResult (''slashed %d uBIGT from %s'', [AInt (e_AmountSlashed ev), AStr (e_ValidatorAddr ev)]),
               a\<lparr>slashEvents := slashEvents a @ [ev],
                 a_store := record_slash (nd_db N) s (dt_ValidatorAddr d) (currentEpoch a)\<rparr>)))"

definition handleObserverDispute :: "'db node \<Rightarrow> 'db App \<Rightarrow> Tx \<Rightarrow> ExecTxResult \<times> 'db App" where
  "handleObserverDispute N a tx =
    (case unmarshal ObserverDisputeTx_fields zero_ObserverDisputeTx (tx_Payload tx) of
       None \<Rightarrow> (errResult 43 (err_text ErrJSON), a)
     | Some d \<Rightarrow>
         (case ProcessObserverDispute (nd_db N) (a_store a) d (currentSlot a) of
            (Some e, s) \<Rightarrow> (errResult 44 (err_text e), a\<lparr>a_store := s\<rparr>)
          | (None, s) \<Rightarrow> (okResult (''observer dispute opened for job %s by %s'', [AStr (od_JobID d), AStr (od_ObserverAddr d)]), a\<lparr>a_store := s\<rparr>)))"

text \<open>The only handler that calls code with a run-time panic: writing a vote into a nil map.\<close>

definition handleDisputeVote :: "'db node \<Rightarrow> 'db App \<Rightarrow> Tx \<Rightarrow> (error + ExecTxResult) \<times> 'db App" where
  "handleDisputeVote N a tx =
    (case unmarshal DisputeVoteTx_fields zero_DisputeVoteTx (tx_Payload tx) of
       None \<Rightarrow> (Inr (errResult 45 (err_text ErrJSON)), a)
     | Some v \<Rightarrow>
         (case CastVote (nd_db N) (a_store a) v of
            (Some (GoPanic p), s) \<Rightarrow> (Inl (GoPanic p), a\<lparr>a_store := s\<rparr>)
          | (Some e, s) \<Rightarrow> (Inr (errResult 46 (err_text e)), a\<lparr>a_store := s\<rparr>)
          | (None, s) \<Rightarrow>
              (Inr (okResult (''vote recorded: %s on job %s by %s'',
                 [AStr (dv_Vote v), AStr (dv_JobID v), AStr (dv_VoterAddr v)])), a\<lparr>a_store := s\<rparr>)))"

definition handleProtocolAttestation :: "'db node \<Rightarrow> 'db App \<Rightarrow> Tx \<Rightarrow> ExecTxResult \<times> 'db App" where
  "handleProtocolAttestation N a tx =
    (case unmarshal ProtocolAttestation_fields zero_ProtocolAttestation (tx_Payload tx) of
       None \<Rightarrow> (errResult 47 (err_text ErrJSON), a)
     | Some att \<Rightarrow>
         (okResult (''attestation from %s: %d jobs observed'', [AStr (pa_ObserverAddr att), AInt (pa_JobsObserved att)]),
          a\<lparr>a_store := snd (RecordJobObserved (nd_db N) (a_store a) (pa_ObserverAddr att) (pa_Epoch att))\<rparr>))"

definition handleRegisterValidator :: "'db node \<Rightarrow> 'db App \<Rightarrow> Tx \<Rightarrow> ExecTxResult \<times> 'db App" where
  "handleRegisterValidator N a tx =
    (case unmarshal MsgRegisterValidator_fields zero_MsgRegisterValidator (tx_Payload tx) of
       None \<Rightarrow> (errResult 50 (err_text ErrJSON), a)
     | Some msg \<Rightarrow>
         (case RegisterValidator (nd_db N) (a_store a) msg (totalSupply a) of
            (Some e, s) \<Rightarrow> (errResult 51 (err_text e), a\<lparr>a_store := s\<rparr>)
          | (None, s) \<Rightarrow> (okResult (''validator registered: %s'', [AStr (mr_Address msg)]), a\<lparr>a_store := s\<rparr>)))"

definition handleDelegate :: "'db node \<Rightarrow> 'db App \<Rightarrow> Tx \<Rightarrow> ExecTxResult \<times> 'db App" where
  "handleDelegate N a tx =
    (case unmarshal MsgDelegate_fields zero_MsgDelegate (tx_Payload tx) of
       None \<Rightarrow> (errResult 60 (err_text ErrJSON), a)
     | Some msg \<Rightarrow>
         (case Delegate (nd_db N) (a_store a) msg (currentSlot a) of
            (Some e, s) \<Rightarrow> (errResult 61 (err_text e), a\<lparr>a_store := s\<rparr>)
          | (None, s) \<Rightarrow> (okResult (''delegated'', []), a\<lparr>a_store := s\<rparr>)))"

definition handleUndelegate :: "'db node \<Rightarrow> 'db App \<Rightarrow> Tx \<Rightarrow> ExecTxResult \<times> 'db App" where
  "handleUndelegate N a tx =
    (case unmarshal MsgUndelegate_fields zero_MsgUndelegate (tx_Payload tx) of
       None \<Rightarrow> (errResult 70 (err_text ErrJSON), a)
     | Some msg \<Rightarrow>
         (case Undelegate (nd_db N) (a_store a) msg (currentSlot a) of
            (Some e, s) \<Rightarrow> (errResult 71 (err_text e), a\<lparr>a_store := s\<rparr>)
          | (None, s) \<Rightarrow> (okResult (''unbonding queued'', []), a\<lparr>a_store := s\<rparr>)))"

definition handleUnjail :: "'db node \<Rightarrow> 'db App \<Rightarrow> Tx \<Rightarrow> ExecTxResult \<times> 'db App" where
  "handleUnjail N a tx =
    (case unmarshal MsgUnjail_fields zero_MsgUnjail (tx_Payload tx) of
       None \<Rightarrow> (errResult 80 (err_text ErrJSON), a)
     | Some msg \<Rightarrow>
         (case Unjail (nd_db N) (a_store a) (mj_ValidatorAddr msg) of
            (Some e, s) \<Rightarrow> (errResult 81 (err_text e), a\<lparr>a_store := s\<rparr>)
          | (None, s) \<Rightarrow> (okResult (''unjailed: %s'', [AStr (mj_ValidatorAddr msg)]), a\<lparr>a_store := s\<rparr>)))"

definition handleProposeModel :: "'db node \<Rightarrow> 'db App \<Rightarrow> Tx \<Rightarrow> ExecTxResult \<times> 'db App" where
  "handleProposeModel N a tx =
    (case unmarshal MsgProposeModel_fields zero_MsgProposeModel (tx_Payload tx) of
       None \<Rightarrow> (errResult 90 (err_text ErrJSON), a)
     | Some msg \<Rightarrow>
         (case ProposeModel (nd_db N) (a_store a) msg of
            (Some e, s) \<Rightarrow> (errResult 91 (err_text e), a\<lparr>a_store := s\<rparr>)
          | (None, s) \<Rightarrow> (okResult (''model proposed: %s'', [AStr (mp_ModelID msg)]), a\<lparr>a_store := s\<rparr>)))"

definition handleApproveModel :: "'db node \<Rightarrow> 'db App \<Rightarrow> Tx \<Rightarrow> ExecTxResult \<times> 'db App" where
  "handleApproveModel N a tx =
    (case unmarshal MsgApproveModel_fields zero_MsgApproveModel (tx_Payload tx) of
       None \<Rightarrow> (errResult 100 (err_text ErrJSON), a)
     | Some msg \<Rightarrow>
         (case ApproveModel (nd_db N) registry_quorum (a_store a) msg (currentSlot a) of
            (Some e, s) \<Rightarrow> (errResult 101 (err_text e), a\<lparr>a_store := s\<rparr>)
          | (None, s) \<Rightarrow> (okResult (''model vote recorded: %s'', [AStr (ma_ModelID msg)]), a\<lparr>a_store := s\<rparr>)))"

definition handleDeposit :: "'db node \<Rightarrow> 'db App \<Rightarrow> Tx \<Rightarrow> ExecTxResult \<times> 'db App" where
  "handleDeposit N a tx =
    (case unmarshal DepositTx_fields zero_DepositTx (tx_Payload tx) of
       None \<Rightarrow> (errResult 110 (err_text ErrJSON), a)
     | Some d \<Rightarrow>
         (case Deposit (nd_db N) (a_store a) d of
            (Some e, s) \<Rightarrow> (errResult 111 (err_text e), a\<lparr>a_store := s\<rparr>)
          | (None, s) \<Rightarrow> (okResult (''deposited %d uBIGT to %s'', [AInt (dp_Amount d), AStr (dp_UserAddr d)]), a\<lparr>a_store := s\<rparr>)))"

definition handleSubscribe :: "'db node \<Rightarrow> 'db App \<Rightarrow> Tx \<Rightarrow> ExecTxResult \<times> 'db App" where
  "handleSubscribe N a tx =
    (case unmarshal SubscribeTx_fields zero_SubscribeTx (tx_Payload tx) of
       None \<Rightarrow> (errResult 120 (err_text ErrJSON), a)
     | Some m \<Rightarrow>
         (case Subscribe (nd_db N) (a_store a) m (currentSlot a) of
            (Some e, s) \<Rightarrow> (errResult 121 (err_text e), a\<lparr>a_store := s\<rparr>)
          | (None, s) \<Rightarrow> (okResult (''subscribed %s to plan %s'', [AStr (sx_UserAddr m), AStr (sx_Plan m)]), a\<lparr>a_store := s\<rparr>)))"

definition handleCancelSubscription :: "'db node \<Rightarrow> 'db App \<Rightarrow> Tx \<Rightarrow> ExecTxResult \<times> 'db App" where
  "handleCancelSubscription N a tx =
    (case unmarshal CancelSubscriptionTx_fields zero_CancelSubscriptionTx (tx_Payload tx) of
       None \<Rightarrow> (errResult 130 (err_text ErrJSON), a)
     | Some c \<Rightarrow>
         (case CancelAutoRenew (nd_db N) (a_store a) (cx_UserAddr c) of
            (Some e, s) \<Rightarrow> (errResult 131 (err_text e), a\<lparr>a_store := s\<rparr>)
          | (None, s) \<Rightarrow> (okResult (''subscription auto-renew cancelled for %s'', [AStr (cx_UserAddr c)]), a\<lparr>a_store := s\<rparr>)))"

definition handled :: "ExecTxResult \<times> 'db App \<Rightarrow> (error + ExecTxResult) \<times> 'db App" where
  "handled r = (Inr (fst r), snd r)"

definition deliverTx :: "'db node \<Rightarrow> 'db App \<Rightarrow> raw \<Rightarrow> (error + ExecTxResult) \<times> 'db App" where
  "deliverTx N a rawTx =
    (case unmarshal Tx_fields zero_Tx rawTx of
       None \<Rightarrow> handled (errResult 1 (''invalid tx: %s'', [AErr ErrJSON]), a)
     | Some tx \<Rightarrow>
         if tx_Type tx = TxJobRequest then handled (handleJobRequest N a tx)
         else if tx_Type tx = TxReveal then handled (handleReveal N a tx)
         else if tx_Type tx = TxCommitment then handled (handleCommitment N a tx)
         else if tx_Type tx = TxDispute then handled (handleDispute N a tx)
         else if tx_Type tx = TxObserverDispute then handled (handleObserverDispute N a tx)
         else if tx_Type tx = TxDisputeVote then handleDisputeVote N a tx
         else if tx_Type tx = TxProtocolAttestation then handled (handleProtocolAttestation N a tx)
         else if tx_Type tx = TxRegValidator then handled (handleRegisterValidator N a tx)
         else if tx_Type tx = TxDelegate then handled (handleDelegate N a tx)
         else if tx_Type tx = TxUndelegate then handled (handleUndelegate N a tx)
         else if tx_Type tx = TxUnjail then handled (handleUnjail N a tx)
         else if tx_Type tx = TxProposeModel then handled (handleProposeModel N a tx)
         else if tx_Type tx = TxApproveModel then handled (handleApproveModel N a tx)
         else if tx_Type tx = TxDeposit then handled (handleDeposit N a tx)
         else if tx_Type tx = TxSubscribe then handled (handleSubscribe N a tx)
         else if tx_Type tx = TxCancelSubscription then handled (handleCancelSubscription N a tx)
         else handled (errResult 2 (''unknown tx type: %s'', [AStr (tx_Type tx)]), a))"

section \<open>Blocks\<close>

record RequestFinalizeBlock =
  rf_Height :: int64
  rf_ProposerAddress :: bytes
  rf_Txs :: "raw list"

text \<open>The inactivity drain of \<open>endEpoch\<close>, for one validator and for the list. The rewards that
  \<open>endEpoch\<close> computes first are dropped, as in the code.\<close>

definition drain_bps :: "int64 \<Rightarrow> int64" where
  "drain_bps epochsSinceActive =
    (let excess = epochsSinceActive - InactivityThresholdEpochs;
         drainBPS = idiv (excess * excess * 100) 1000
     in if 10000 <s drainBPS then 10000 else drainBPS)"

fun drain_loop :: "'db db_api \<Rightarrow> int64 \<Rightarrow> 'db \<Rightarrow> Validator list \<Rightarrow> 'db" where
  "drain_loop L epoch s [] = s"
| "drain_loop L epoch s (v # vs) =
    (let epochsSinceActive = epoch - v_LastActiveEpoch v;
         s = (if InactivityThresholdEpochs \<le>s epochsSinceActive \<and> 0 <s v_Bond v
              then snd (SlashBond L s (v_Address v) (drain_bps epochsSinceActive)) else s)
     in drain_loop L epoch s vs)"

definition endEpoch :: "'db node \<Rightarrow> 'db App \<Rightarrow> int64 \<Rightarrow> 'db App" where
  "endEpoch N a epoch =
    (let epochRewards = DistributeEpoch (nd_db N) (a_store a) epoch (totalSupply a) 0
     in a\<lparr>a_store := drain_loop (nd_db N) epoch (a_store a) (activeVals a)\<rparr>)"

fun tally_events :: "'db node \<Rightarrow> 'db App \<Rightarrow> Event list \<Rightarrow> 'db App" where
  "tally_events N a [] = a"
| "tally_events N a (ev # evs) =
    tally_events N
      (a\<lparr>slashEvents := slashEvents a @ [ev],
         a_store := record_slash (nd_db N) (a_store a) (e_ValidatorAddr ev) (currentEpoch a)\<rparr>) evs"

definition elect :: "'db node \<Rightarrow> 'db App \<Rightarrow> RequestFinalizeBlock \<Rightarrow> 'db App" where
  "elect N a req =
    (let slot = rf_Height req;
         epoch = idiv slot EpochSlots;
         vals = fst (ListActive (nd_db N) (a_store a));
         seed = EpochSeed (nd_keccak N) (rf_ProposerAddress req) epoch;
         (prop, serv) = ElectSlot (nd_sort N) (nd_keccak N) seed slot vals
     in a\<lparr>currentSlot := slot, currentEpoch := epoch, slashEvents := [], activeVals := vals,
          epochSeed := seed, proposer := prop, server := serv\<rparr>)"

definition begin_block :: "'db node \<Rightarrow> 'db App \<Rightarrow> RequestFinalizeBlock \<Rightarrow> 'db App" where
  "begin_block N a req =
    (let a = elect N a req;
         a = a\<lparr>a_store := snd (ProcessMatureUnbondings (nd_db N) (a_store a) (currentSlot a))\<rparr>;
         a = (if 0 <s currentSlot a \<and> imod (currentSlot a) EpochSlots = 0
              then endEpoch N a (currentEpoch a - 1) else a)
     in case TallyExpiredDisputes (nd_db N) (a_store a) (currentSlot a) of
          (Inl e, s) \<Rightarrow> a\<lparr>a_store := s\<rparr>
        | (Inr evs, s) \<Rightarrow> tally_events N (a\<lparr>a_store := s\<rparr>) evs)"

fun deliver_loop :: "'db node \<Rightarrow> 'db App \<Rightarrow> raw list \<Rightarrow> (error + ExecTxResult list) \<times> 'db App" where
  "deliver_loop N a [] = (Inr [], a)"
| "deliver_loop N a (rawTx # rawTxs) =
    (case deliverTx N a rawTx of
       (Inl e, a) \<Rightarrow> (Inl e, a)
     | (Inr r, a) \<Rightarrow>
         (case deliver_loop N a rawTxs of
            (Inl e, a) \<Rightarrow> (Inl e, a)
          | (Inr rs, a) \<Rightarrow> (Inr (r # rs), a)))"

definition increment_all :: "'db db_api \<Rightarrow> string list \<Rightarrow> 'db \<Rightarrow> 'db" where
  "increment_all L addrs s = fold (\<lambda>addr s. snd (IncrementMissed L s addr)) addrs s"

definition end_block :: "'db node \<Rightarrow> 'db App \<Rightarrow> 'db App" where
  "end_block N a =
    (case FinaliseSlot (nd_db N) (a_store a) (currentSlot a) of
       ((committed, missed, err), s) \<Rightarrow> a\<lparr>a_store := increment_all (nd_db N) (nd_range N missed) s\<rparr>)"

definition FinalizeBlock ::
  "'db node \<Rightarrow> 'db App \<Rightarrow> RequestFinalizeBlock \<Rightarrow> (error + ExecTxResult list) \<times> 'db App" where
  "FinalizeBlock N a req =
    (case deliver_loop N (begin_block N a req) (rf_Txs req) of
       (Inl e, a) \<Rightarrow> (Inl e, a)
     | (Inr txResults, a) \<Rightarrow> (Inr txResults, end_block N a))"

section \<open>Genesis, queries and the small calls\<close>

definition genesis_msg :: "ValidatorGenesis \<Rightarrow> MsgRegisterValidator" where
  "genesis_msg vg = \<lparr>mr_Address = vg_Address vg, mr_ConsensusPubKey = vg_PubKey vg, mr_BLSPubKey = vg_BLSPubKey vg,
    mr_Bond = vg_Bond vg, mr_Commission = vg_Commission vg, mr_Moniker = vg_Moniker vg,
    mr_RouterEndpoint = []\<rparr>"

fun register_loop :: "'db db_api \<Rightarrow> int64 \<Rightarrow> 'db \<Rightarrow> ValidatorGenesis list \<Rightarrow> 'db outcome" where
  "register_loop L supply s [] = (None, s)"
| "register_loop L supply s (vg # vgs) =
    (case RegisterValidator L s (genesis_msg vg) supply of
       (Some e, s) \<Rightarrow> (Some (Errorf ''register validator %s: %w'' [AStr (vg_Address vg), AErr e]), s)
     | (None, s) \<Rightarrow> register_loop L supply s vgs)"

definition InitChain :: "'db node \<Rightarrow> 'db App \<Rightarrow> raw \<Rightarrow> error option \<times> 'db App" where
  "InitChain N a appState =
    (case unmarshal Genesis_fields zero_Genesis appState of
       None \<Rightarrow> (Some (Errorf ''bad app state: %w'' [AErr ErrJSON]), a)
     | Some g \<Rightarrow>
         let a = a\<lparr>chainID := g_ChainID g, totalSupply := g_TotalSupply g\<rparr>
         in (case register_loop (nd_db N) (g_TotalSupply g) (a_store a) (g_Validators g) of
               (err, s) \<Rightarrow> (err, a\<lparr>a_store := s\<rparr>)))"

record ResponseQuery =
  rq_Code :: "32 word"
  rq_Log :: log
  rq_Value :: raw

definition query_ok :: "json \<Rightarrow> ResponseQuery" where
  "query_ok data = \<lparr>rq_Code = 0, rq_Log = ([], []), rq_Value = Some data\<rparr>"

definition query_err :: "log \<Rightarrow> ResponseQuery" where
  "query_err msg = \<lparr>rq_Code = 1, rq_Log = msg, rq_Value = None\<rparr>"

definition app_Query :: "'db node \<Rightarrow> 'db App \<Rightarrow> string \<Rightarrow> string \<Rightarrow> ResponseQuery" where
  "app_Query N a path data =
    (if path = ''/validators'' then
       (case ListAll (nd_db N) (a_store a) of
          (_, Some e) \<Rightarrow> query_err (err_text e)
        | (vals, None) \<Rightarrow> query_ok (enc_slice enc_Validator vals))
     else if path = ''/job'' then
       (case GetJob (nd_db N) (a_store a) data of
          Inr (Some j) \<Rightarrow> query_ok (enc_Job j)
        | _ \<Rightarrow> query_err (''job not found'', []))
     else if path = ''/account'' then
       (case GetAccount (nd_db N) (a_store a) data of
          Inr (Some acct) \<Rightarrow> query_ok (enc_Account acct)
        | _ \<Rightarrow> query_err (''account not found'', []))
     else if path = ''/subscription'' then
       (case GetSubscription (nd_db N) (a_store a) data of
          Inr (Some sub) \<Rightarrow> query_ok (enc_Subscription sub)
        | _ \<Rightarrow> query_err (''subscription not found'', []))
     else query_err (''unknown path: %s'', [AStr path]))"

definition app_Info :: "'db App \<Rightarrow> log \<times> string" where
  "app_Info a = ((''{\"chain_id\":%q}'', [AStr (chainID a)]), ''0.1.0'')"

definition app_CheckTx :: "raw \<Rightarrow> 32 word" where
  "app_CheckTx rawTx = 0"

definition app_Commit :: "'db App \<Rightarrow> 'db App" where
  "app_Commit a = a"

end
