(* ===== verification/Chain.thy ===== *)
theory Chain
  imports App
begin

text \<open>
  The modules joined. \<open>chain_step\<close> is one write of one module; every call of the application is a
  sequence of such steps, and the invariant of the whole chain (\<open>chain_inv\<close>) is kept by every step
  because the modules write disjoint parts of the store. The locale \<open>chain_node\<close> states what a node
  relies on (database, sort, hash, map iteration); the properties of blocks and transactions are proved in it.
\<close>

section \<open>The chain as one state machine\<close>

inductive chain_step :: "'db db_api \<Rightarrow> hash_fn \<Rightarrow> 'db \<Rightarrow> 'db \<Rightarrow> bool" for L keccak where
  core: "core_step L keccak s t \<Longrightarrow> chain_step L keccak s t"
| reward: "chain_step L keccak s (put_stats L s st)"
| market: "chain_step L keccak s (sub_exec L op s)"
| model: "registry_step L registry_quorum s t \<Longrightarrow> chain_step L keccak s t"

abbreviation chain_steps :: "'db db_api \<Rightarrow> hash_fn \<Rightarrow> 'db \<Rightarrow> 'db \<Rightarrow> bool" where
  "chain_steps L keccak \<equiv> (chain_step L keccak)\<^sup>*\<^sup>*"

definition chain_inv :: "'db db_api \<Rightarrow> hash_fn \<Rightarrow> 'db \<Rightarrow> bool" where
  "chain_inv L keccak s \<longleftrightarrow>
    core_inv L keccak s \<and> rewards_wf L s \<and> subscription_wf L s \<and>
    registry_wf L s \<and> all_models L (model_ok registry_quorum) s"

lemma chain_invD:
  assumes "chain_inv L keccak s"
  shows "core_inv L keccak s" "core_wf L s" "staking_wf L s" "jobs_wf L s" "rewards_wf L s"
    "subscription_wf L s" "registry_wf L s"
  using assms by (auto simp: chain_inv_def core_inv_def core_wf_def)

context leveldb
begin

lemma chain_inv_frame:
  assumes "only L N s t" "chain_inv L keccak s"
    and "N \<inter> core_ns = {} \<or> core_inv L keccak t"
    and "''epoch_stats'' \<notin> N \<or> rewards_wf L t"
    and "N \<inter> subscription_ns = {} \<or> subscription_wf L t"
    and "''model'' \<notin> N \<or> registry_wf L t \<and> all_models L (model_ok registry_quorum) t"
  shows "chain_inv L keccak t"
proof -
  note s = chain_invD [OF assms(2)]
  have "core_inv L keccak t"
    using assms(3) s core_only(2) [OF assms(1)] by blast
  moreover have "rewards_wf L t"
    using assms(4) s rewards_only(1) [OF assms(1)] by blast
  moreover have "subscription_wf L t"
    using assms(5) s subscription_only(1) [OF assms(1)] by blast
  moreover have "registry_wf L t \<and> all_models L (model_ok registry_quorum) t"
    using assms(2,6) registry_only(1,3) [OF assms(1)] by (auto simp: chain_inv_def all_models_def)
  ultimately show ?thesis by (simp add: chain_inv_def)
qed

lemma chain_step_inv: "chain_step L keccak s t \<Longrightarrow> chain_inv L keccak s \<Longrightarrow> chain_inv L keccak t"
proof (induction rule: chain_step.induct)
  case (core s t)
  then have "core_inv L keccak t" "only L core_ns s t"
    using core_step_inv [OF core.hyps chain_invD(1)] core_step_only [OF core.hyps chain_invD(2)] by simp_all
  with core.prems show ?case using chain_inv_frame [of core_ns s t keccak] by auto
next
  case (reward s st)
  then show ?case
    using put_stats_wf(1,2) [OF chain_invD(5) [OF reward], of st] chain_inv_frame [of "{''epoch_stats''}" s _ keccak] by auto
next
  case (market s op)
  then have "subscription_wf L (sub_exec L op s)" "only L subscription_ns s (sub_exec L op s)"
    using sub_exec_refines [OF chain_invD(6) [OF market]] by simp_all
  with market show ?case using chain_inv_frame [of subscription_ns s _ keccak] by auto
next
  case (model s t)
  then have "registry_wf L t" "only L {''model''} s t" "all_models L (model_ok registry_quorum) t"
    using registry_step_wf registry_step_ok by (auto simp: chain_inv_def)
  with model.prems show ?case using chain_inv_frame [of "{''model''}" s t keccak] by auto
qed

lemma chain_steps_inv: "chain_steps L keccak s t \<Longrightarrow> chain_inv L keccak s \<Longrightarrow> chain_inv L keccak t"
  by (induction rule: rtranclp_induct) (auto intro: chain_step_inv)

lemma core_chain: "core_steps L keccak s t \<Longrightarrow> chain_steps L keccak s t"
  by (induction rule: rtranclp_induct) (auto intro: rtranclp.rtrancl_into_rtrancl chain_step.core)

lemma stake_chain: "chain_steps L keccak s (staking_exec L op s)"
  by (rule core_chain [OF stake_core])

lemma job_chain: "chain_inv L keccak s \<Longrightarrow> chain_steps L keccak s (jobs_exec L keccak op s)"
  by (rule core_chain [OF job_op_steps [OF refl chain_invD(2)]])

lemma market_chain: "chain_steps L keccak s (sub_exec L op s)"
  by (blast intro: chain_step.market)

lemma model_chain: "chain_inv L keccak s \<Longrightarrow> chain_steps L keccak s (registry_exec L registry_quorum op s)"
  using chain_step.model [OF registry_exec_step [OF chain_invD(7), of keccak s registry_quorum op]] by blast

lemma record_chain:
  assumes "rewards_wf L s"
  shows "chain_steps L keccak s (snd (RecordJobServed L s addr epoch))"
    and "chain_steps L keccak s (snd (RecordJobObserved L s addr epoch))"
    and "chain_steps L keccak s (snd (RecordJobSlashed L s addr epoch))"
    and "chain_steps L keccak s (snd (RecordBlockReverted L s addr epoch))"
  using assms
  by (auto simp: RecordJobServed_def RecordJobObserved_def RecordJobSlashed_def RecordBlockReverted_def
      getStats_wf putStats_put intro: chain_step.reward)

lemma record_slash_chain:
  assumes "chain_inv L keccak s"
  shows "chain_steps L keccak s (record_slash L s addr epoch)"
proof -
  define t where "t = snd (RecordJobSlashed L s addr epoch)"
  have t: "chain_steps L keccak s t" unfolding t_def by (rule record_chain(3) [OF chain_invD(5) [OF assms]])
  then have "rewards_wf L t" by (rule chain_invD(5) [OF chain_steps_inv [OF _ assms]])
  with t show ?thesis
    unfolding record_slash_def Let_def t_def by (blast intro: rtranclp_trans record_chain(4))
qed

lemma op_chain:
  assumes "chain_inv L keccak s"
  shows "chain_steps L keccak s (snd (RegisterValidator L s mr supply))"
    and "chain_steps L keccak s (snd (Delegate L s md slot))"
    and "chain_steps L keccak s (snd (Undelegate L s mu slot))"
    and "chain_steps L keccak s (snd (ProcessMatureUnbondings L s slot))"
    and "chain_steps L keccak s (snd (Unjail L s a))"
    and "chain_steps L keccak s (snd (SlashBond L s a bps))"
    and "chain_steps L keccak s (snd (IncrementMissed L s a))"
    and "chain_steps L keccak s (snd (ResetMissed L s a epoch))"
    and "chain_steps L keccak s (snd (jobs_Commit L s req slot a))"
    and "chain_steps L keccak s (snd (Reveal L keccak s rv))"
    and "chain_steps L keccak s (snd (AddCommitment L s c))"
    and "chain_steps L keccak s (snd (FinaliseSlot L s slot))"
    and "chain_steps L keccak s (snd (ProposeModel L s mp))"
    and "chain_steps L keccak s (snd (ApproveModel L registry_quorum s ma slot))"
    and "chain_steps L keccak s (snd (Deposit L s dp))"
    and "chain_steps L keccak s (snd (Subscribe L s sx slot))"
    and "chain_steps L keccak s (snd (CancelAutoRenew L s a))"
    and "chain_steps L keccak s (snd (ConsumeJob L s a slot))"
    and "chain_steps L keccak s (snd (ProcessUserDispute L keccak s dt slot))"
    and "chain_steps L keccak s (snd (ProcessObserverDispute L s od slot))"
    and "chain_steps L keccak s (snd (CastVote L s dv))"
    and "chain_steps L keccak s (snd (TallyExpiredDisputes L s slot))"
    and "chain_steps L keccak s (snd (RecordJobServed L s a epoch))"
    and "chain_steps L keccak s (snd (RecordJobObserved L s a epoch))"
  using stake_chain [of keccak s "OpRegister mr supply"] stake_chain [of keccak s "OpDelegate md slot"]
    stake_chain [of keccak s "OpUndelegate mu slot"] stake_chain [of keccak s "OpProcessMature slot"]
    stake_chain [of keccak s "OpUnjail a"] stake_chain [of keccak s "OpSlash a bps"]
    stake_chain [of keccak s "OpIncrementMissed a"] stake_chain [of keccak s "OpResetMissed a epoch"]
    job_chain [OF assms, of "OpCommit req slot a"] job_chain [OF assms, of "OpReveal rv"]
    job_chain [OF assms, of "OpAddCommitment c"] job_chain [OF assms, of "OpFinalise slot"]
    model_chain [OF assms, of "OpPropose mp"] model_chain [OF assms, of "OpApprove ma slot"]
    market_chain [of keccak s "OpDeposit dp"] market_chain [of keccak s "OpSubscribe sx slot"]
    market_chain [of keccak s "OpCancel a"] market_chain [of keccak s "OpConsume a slot"]
    core_chain [OF UserDispute_steps [OF chain_invD(2) [OF assms]]]
    core_chain [OF ObserverDispute_steps [OF chain_invD(2) [OF assms]]]
    core_chain [OF CastVote_core_steps [OF chain_invD(2) [OF assms]]]
    core_chain [OF Tally_steps [OF chain_invD(2) [OF assms]]]
    record_chain [OF chain_invD(5) [OF assms]]
  by simp_all

lemma chain_trans:
  assumes "chain_steps L keccak s t" "chain_inv L keccak s" "chain_inv L keccak t \<Longrightarrow> chain_steps L keccak t u"
  shows "chain_steps L keccak s u"
  using assms chain_steps_inv rtranclp_trans by metis

end

section \<open>Nodes\<close>

definition range_ok :: "((string, bool) fmap \<Rightarrow> string list) \<Rightarrow> bool" where
  "range_ok r \<longleftrightarrow> (\<forall>m. distinct (r m) \<and> set (r m) = fset (fmdom m))"

locale chain_node =
  fixes N :: "'db node"
  assumes node_db: "leveldb (nd_db N)"
    and node_sort: "go_sort (nd_sort N)"
    and node_hash: "hash32 (nd_keccak N)"
    and node_range: "range_ok (nd_range N)"

sublocale chain_node \<subseteq> leveldb "nd_db N"
  by (rule node_db)

abbreviation node_inv :: "'db node \<Rightarrow> 'db App \<Rightarrow> bool" where
  "node_inv N a \<equiv> chain_inv (nd_db N) (nd_keccak N) (a_store a)"

abbreviation node_steps :: "'db node \<Rightarrow> 'db App \<Rightarrow> 'db App \<Rightarrow> bool" where
  "node_steps N a b \<equiv> chain_steps (nd_db N) (nd_keccak N) (a_store a) (a_store b)"

context chain_node
begin

lemma handler_steps:
  assumes "node_inv N a"
  shows "node_steps N a (snd (handleReveal N a tx))"
    and "node_steps N a (snd (handleObserverDispute N a tx))"
    and "node_steps N a (snd (handleDisputeVote N a tx))"
    and "node_steps N a (snd (handleProtocolAttestation N a tx))"
    and "node_steps N a (snd (handleRegisterValidator N a tx))"
    and "node_steps N a (snd (handleDelegate N a tx))"
    and "node_steps N a (snd (handleUndelegate N a tx))"
    and "node_steps N a (snd (handleUnjail N a tx))"
    and "node_steps N a (snd (handleProposeModel N a tx))"
    and "node_steps N a (snd (handleApproveModel N a tx))"
    and "node_steps N a (snd (handleDeposit N a tx))"
    and "node_steps N a (snd (handleSubscribe N a tx))"
    and "node_steps N a (snd (handleCancelSubscription N a tx))"
  using op_chain [OF assms]
  by (simp_all add: handleReveal_def handleObserverDispute_def handleDisputeVote_def
      handleProtocolAttestation_def handleRegisterValidator_def handleDelegate_def handleUndelegate_def
      handleUnjail_def handleProposeModel_def handleApproveModel_def handleDeposit_def handleSubscribe_def
      handleCancelSubscription_def case_prod_unfold split: option.split error.split)

lemma handleJobRequest_steps:
  assumes "node_inv N a"
  shows "node_steps N a (snd (handleJobRequest N a tx))"
proof -
  have "chain_steps (nd_db N) (nd_keccak N) (a_store a)
      (snd (jobs_Commit (nd_db N) (snd (ConsumeJob (nd_db N) (a_store a) u slot)) req slot v))" for u slot req v
    by (rule chain_trans [OF op_chain(18) [OF assms] assms op_chain(9)])
  with op_chain(18) [OF assms] show ?thesis
    by (simp add: handleJobRequest_def case_prod_unfold split: option.split sum.split)
qed

lemma handleCommitment_steps:
  assumes "node_inv N a"
  shows "node_steps N a (snd (handleCommitment N a tx))"
proof -
  have "chain_steps (nd_db N) (nd_keccak N) (a_store a)
      (snd (RecordJobServed (nd_db N) (snd (ResetMissed (nd_db N) (snd (AddCommitment (nd_db N) (a_store a) c)) u e)) u e))" for c u e
    by (rule chain_trans [OF chain_trans [OF op_chain(11) [OF assms] assms op_chain(8)] assms op_chain(23)])
  with op_chain(11) [OF assms] show ?thesis
    by (simp add: handleCommitment_def case_prod_unfold Let_def split: option.split)
qed

lemma handleDispute_steps:
  assumes "node_inv N a"
  shows "node_steps N a (snd (handleDispute N a tx))"
proof -
  have "chain_steps (nd_db N) (nd_keccak N) (a_store a)
      (record_slash (nd_db N) (snd (ProcessUserDispute (nd_db N) (nd_keccak N) (a_store a) d slot)) u e)" for d slot u e
    by (rule chain_trans [OF op_chain(19) [OF assms] assms record_slash_chain])
  with op_chain(19) [OF assms] show ?thesis
    by (simp add: handleDispute_def case_prod_unfold split: option.split sum.split)
qed

lemma deliverTx_steps: "node_inv N a \<Longrightarrow> node_steps N a (snd (deliverTx N a rawTx))"
  by (simp add: deliverTx_def handled_def handler_steps handleJobRequest_steps handleCommitment_steps
      handleDispute_steps split: option.split)

lemma deliver_loop_steps: "node_inv N a \<Longrightarrow> node_steps N a (snd (deliver_loop N a txs))"
proof (induction txs arbitrary: a)
  case (Cons tx txs)
  have 1: "node_steps N a (snd (deliverTx N a tx))" using deliverTx_steps Cons.prems by blast
  then have "node_steps N a (snd (deliver_loop N (snd (deliverTx N a tx)) txs))"
    using chain_trans Cons by blast
  with 1 show ?case by (simp add: case_prod_unfold split: sum.split)
qed simp

lemma drain_loop_steps:
  "chain_inv (nd_db N) (nd_keccak N) s \<Longrightarrow> chain_steps (nd_db N) (nd_keccak N) s (drain_loop (nd_db N) epoch s vs)"
proof (induction vs arbitrary: s)
  case (Cons v vs)
  then show ?case
    using chain_trans [OF op_chain(6) [OF Cons.prems] Cons.prems Cons.IH] by (simp add: Let_def)
qed simp

lemma tally_events_steps: "node_inv N a \<Longrightarrow> node_steps N a (tally_events N a evs)"
proof (induction evs arbitrary: a)
  case (Cons ev evs)
  let ?b = "a\<lparr>slashEvents := slashEvents a @ [ev],
    a_store := record_slash (nd_db N) (a_store a) (e_ValidatorAddr ev) (currentEpoch a)\<rparr>"
  have "node_steps N a (tally_events N ?b evs)"
    by (rule chain_trans [OF record_slash_chain [OF Cons.prems] Cons.prems]) (use Cons.IH [of ?b] in simp)
  then show ?case by simp
qed simp

lemma increment_all_steps:
  "chain_inv (nd_db N) (nd_keccak N) s \<Longrightarrow> chain_steps (nd_db N) (nd_keccak N) s (increment_all (nd_db N) addrs s)"
  unfolding increment_all_def
proof (induction addrs arbitrary: s)
  case (Cons x xs)
  then show ?case using chain_trans [OF op_chain(7) [OF Cons.prems] Cons.prems Cons.IH] by simp
qed simp

lemma elect_store [simp]: "a_store (elect N a req) = a_store a"
  by (simp add: elect_def Let_def case_prod_unfold)

lemma begin_block_steps:
  assumes "node_inv N a"
  shows "node_steps N a (begin_block N a req)"
proof -
  define b where "b = (elect N a req)\<lparr>a_store := snd (ProcessMatureUnbondings (nd_db N) (a_store a) (currentSlot (elect N a req)))\<rparr>"
  define c where "c = (if 0 <s currentSlot b \<and> imod (currentSlot b) EpochSlots = 0
    then endEpoch N b (currentEpoch b - 1) else b)"
  define r where "r = TallyExpiredDisputes (nd_db N) (a_store c) (currentSlot c)"
  have b: "node_steps N a b" using op_chain(4) [OF assms] by (simp add: b_def)
  have c: "node_steps N a c"
    using chain_trans [OF b assms drain_loop_steps] b by (simp add: c_def endEpoch_def)
  have d: "chain_steps (nd_db N) (nd_keccak N) (a_store a) (snd r)"
    unfolding r_def by (rule chain_trans [OF c assms op_chain(22)])
  have "node_steps N a (tally_events N (c\<lparr>a_store := snd r\<rparr>) evs)" for evs
    using chain_trans [OF d assms] tally_events_steps [of "c\<lparr>a_store := snd r\<rparr>"] by simp
  with d show ?thesis
    unfolding begin_block_def Let_def elect_store b_def [symmetric] c_def [symmetric] r_def [symmetric]
    by (simp add: case_prod_unfold split: sum.split)
qed

lemma end_block_steps:
  assumes "node_inv N a"
  shows "node_steps N a (end_block N a)"
  using chain_trans [OF op_chain(12) [OF assms] assms increment_all_steps]
  by (simp add: end_block_def case_prod_unfold)

lemma FinalizeBlock_steps:
  assumes "node_inv N a"
  shows "node_steps N a (snd (FinalizeBlock N a req))"
proof -
  have 1: "node_steps N a (begin_block N a req)" by (rule begin_block_steps [OF assms])
  have 2: "node_steps N a (snd (deliver_loop N (begin_block N a req) (rf_Txs req)))"
    by (rule chain_trans [OF 1 assms deliver_loop_steps])
  have "node_steps N a (end_block N (snd (deliver_loop N (begin_block N a req) (rf_Txs req))))"
    by (rule chain_trans [OF 2 assms end_block_steps])
  with 2 show ?thesis by (simp add: FinalizeBlock_def case_prod_unfold split: sum.split)
qed

lemma register_loop_steps:
  "chain_inv (nd_db N) (nd_keccak N) s \<Longrightarrow>
   chain_steps (nd_db N) (nd_keccak N) s (snd (register_loop (nd_db N) supply s vgs))"
proof (induction vgs arbitrary: s)
  case (Cons vg vgs)
  show ?case
    using op_chain(1) [OF Cons.prems] chain_trans [OF op_chain(1) [OF Cons.prems] Cons.prems Cons.IH]
    by (simp add: case_prod_unfold split: option.split)
qed simp

lemma InitChain_steps: "node_inv N a \<Longrightarrow> node_steps N a (snd (InitChain N a appState))"
  using register_loop_steps [of "a_store a"]
  by (simp add: InitChain_def Let_def case_prod_unfold split: option.split)

lemma chain_inv_empty:
  assumes "view (nd_db N) s = Map.empty"
  shows "chain_inv (nd_db N) keccak s"
proof -
  have it: "iter (nd_db N) s p = []" for p using iter_set [of s p] assms by simp
  show ?thesis
    by (simp add: chain_inv_def core_inv_def core_wf_def staking_wf_def jobs_wf_def rewards_wf_def subscription_wf_def
        registry_wf_def wf_table_def active_bonded_def all_jobs_def voters_ok_def all_models_def
        validator_rows_def job_rows_def dispute_rows_def model_rows_def rows_def TotalStake_def assms it)
qed

end

section \<open>Reachable states\<close>

text \<open>A node starts on an empty store with a genesis document and executes blocks; a block whose transactions
  panic is not followed by another one.\<close>

inductive reachable :: "'db node \<Rightarrow> 'db App \<Rightarrow> bool" for N where
  init: "view (nd_db N) s = Map.empty \<Longrightarrow> InitChain N (app_New s) appState = (None, a) \<Longrightarrow> reachable N a"
| block: "reachable N a \<Longrightarrow> FinalizeBlock N a req = (Inr results, b) \<Longrightarrow> reachable N b"

context chain_node
begin

lemma reachable_inv: "reachable N a \<Longrightarrow> node_inv N a"
proof (induction rule: reachable.induct)
  case (init s appState a)
  have "node_inv N (app_New s)" using chain_inv_empty [OF init(1)] by (simp add: app_New_def)
  then show ?case using chain_steps_inv [OF InitChain_steps] init(2) by (metis snd_conv)
next
  case (block a req results b)
  then show ?case using chain_steps_inv [OF FinalizeBlock_steps] by (metis snd_conv)
qed

end

section \<open>Failing transactions\<close>

text \<open>A call that returns an error leaves the store as it was.\<close>

definition clean :: "'db \<Rightarrow> 'db outcome \<Rightarrow> bool" where
  "clean s r \<longleftrightarrow> (fst r \<noteq> None \<longrightarrow> snd r = s)"

context leveldb
begin

lemma clean_staking:
  assumes "staking_wf L s"
  shows "clean s (RegisterValidator L s mr supply)" and "clean s (Delegate L s md slot)"
    and "clean s (Undelegate L s mu slot)" and "clean s (Unjail L s a)"
  using assms
  by (simp_all add: clean_def RegisterValidator_def Delegate_def Undelegate_def Unjail_def staking_reads Let_def
      split: option.split)

lemma clean_jobs:
  assumes "jobs_wf L s"
  shows "clean s (jobs_Commit L s req slot a)" and "clean s (Reveal L keccak s rv)" and "clean s (AddCommitment L s c)"
    and "clean s (jobs_CastVote L s jid voter vote stake)"
  using assms
  by (simp_all add: clean_def jobs_Commit_def Reveal_def AddCommitment_def jobs_CastVote_def jobs_reads Let_def
      split: option.split)

lemma clean_registry:
  assumes "registry_wf L s"
  shows "clean s (ProposeModel L s mp)" and "clean s (ApproveModel L quorum s ma slot)"
  using assms by (simp_all add: clean_def ProposeModel_def ApproveModel_def registry_reads Let_def split: option.split)

lemma clean_subscription:
  assumes "subscription_wf L s"
  shows "clean s (Deposit L s dp)" and "clean s (Subscribe L s sx slot)" and "clean s (CancelAutoRenew L s a)"
    and "clean s (ConsumeJob L s a slot)"
  using assms
  by (simp_all add: clean_def Deposit_def Subscribe_def CancelAutoRenew_def ConsumeJob_def subscription_reads
      putSubscription_def Let_def
      case_prod_unfold split: option.split)

lemma clean_observer:
  assumes "core_wf L s"
  shows "clean s (ProcessObserverDispute L s od slot)"
  using assms by (simp add: clean_def ProcessObserverDispute_def core_reads OpenDispute_put core_wf_def split: option.split)

lemma clean_vote:
  assumes "core_wf L s"
  shows "clean s (CastVote L s dv)"
  using assms clean_jobs(4)
  by (auto simp: CastVote_def core_reads core_wf_def clean_def split: option.split)

lemma clean_user_dispute:
  assumes "core_wf L s" "fst (ProcessUserDispute L keccak s dt slot) = Inl e \<or> fst (ProcessUserDispute L keccak s dt slot) = Inr None"
  shows "snd (ProcessUserDispute L keccak s dt slot) = s"
proof (rule ccontr)
  assume "snd (ProcessUserDispute L keccak s dt slot) \<noteq> s"
  then obtain j c v where "jobs L s (dt_JobID dt) = Some j" "j_Commitment j = Some c"
      "oc_ValidatorAddr c = dt_ValidatorAddr dt" "validators L s (dt_ValidatorAddr dt) = Some v"
      "ComputeOutputHash keccak (dt_PlaintextOutput dt) (dt_JobID dt) (v_BLSPubKey v) \<noteq> oc_OutputHash c"
    using assms by (auto simp: ProcessUserDispute_def core_reads Let_def split: option.splits if_splits)
  with assms UserDispute_fraud [of s dt j c v keccak slot] show False by (metis fst_conv Inl_Inr_False Inr_inject option.distinct(1))
qed

lemma vote_no_panic:
  assumes "core_inv L keccak s"
  shows "fst (CastVote L s dv) \<noteq> Some (GoPanic p)"
proof -
  have wf: "core_wf L s" "jobs_wf L s" using assms by (simp_all add: core_inv_def core_wf_def)
  have "fst (jobs_CastVote L s jid voter vote stake) \<noteq> Some (GoPanic p)" for jid voter vote stake
  proof (cases "disputes L s jid")
    case (Some d)
    then obtain m where "dr_Voters d = Some m"
      using assms voters_ok_iff [OF wf(2)] by (auto simp: core_inv_def)
    with Some wf show ?thesis by (simp add: jobs_CastVote_def jobs_reads Let_def)
  qed (use wf in \<open>simp add: jobs_CastVote_def jobs_reads\<close>)
  with wf show ?thesis by (auto simp: CastVote_def core_reads split: option.split)
qed

end

definition failure_clean :: "'db App \<Rightarrow> ExecTxResult \<times> 'db App \<Rightarrow> bool" where
  "failure_clean a p \<longleftrightarrow> x_Code (fst p) = 0 \<or> x_Code (fst p) \<noteq> 13 \<and> snd p = a"

text \<open>What a job request that fails after the quota check leaves: one job of a user is consumed.\<close>

definition burnt :: "'db node \<Rightarrow> 'db App \<Rightarrow> 'db App \<Rightarrow> bool" where
  "burnt N a b \<longleftrightarrow> (\<exists>u. fst (ConsumeJob (nd_db N) (a_store a) u (currentSlot a)) = None \<and>
     b = a\<lparr>a_store := snd (ConsumeJob (nd_db N) (a_store a) u (currentSlot a))\<rparr>)"

definition result_ok :: "'db node \<Rightarrow> 'db App \<Rightarrow> (error + ExecTxResult) \<times> 'db App \<Rightarrow> bool" where
  "result_ok N a p \<longleftrightarrow>
    (\<exists>r. fst p = Inr r \<and> (failure_clean a (r, snd p) \<or> x_Code r = 13 \<and> burnt N a (snd p)))"

lemma result_ok_handled: "failure_clean a q \<Longrightarrow> result_ok N a (handled q)"
  by (simp add: result_ok_def handled_def)

lemma update_same: "s = a_store a \<Longrightarrow> a\<lparr>a_store := s\<rparr> = a"
  by simp

lemma clean_Some: "clean s r \<Longrightarrow> fst r = Some e \<Longrightarrow> snd r = s"
  by (simp add: clean_def)

context chain_node
begin

lemma handler_clean:
  assumes "node_inv N a"
  shows "failure_clean a (handleReveal N a tx)"
    and "failure_clean a (handleObserverDispute N a tx)"
    and "failure_clean a (handleProtocolAttestation N a tx)"
    and "failure_clean a (handleRegisterValidator N a tx)"
    and "failure_clean a (handleDelegate N a tx)"
    and "failure_clean a (handleUndelegate N a tx)"
    and "failure_clean a (handleUnjail N a tx)"
    and "failure_clean a (handleProposeModel N a tx)"
    and "failure_clean a (handleApproveModel N a tx)"
    and "failure_clean a (handleDeposit N a tx)"
    and "failure_clean a (handleSubscribe N a tx)"
    and "failure_clean a (handleCancelSubscription N a tx)"
  using clean_staking [OF chain_invD(3) [OF assms]] clean_jobs(2) [OF chain_invD(4) [OF assms]]
    clean_registry [OF chain_invD(7) [OF assms]] clean_subscription [OF chain_invD(6) [OF assms]]
    clean_observer [OF chain_invD(2) [OF assms]]
  by (simp_all add: failure_clean_def handleReveal_def handleObserverDispute_def
      handleProtocolAttestation_def handleRegisterValidator_def handleDelegate_def handleUndelegate_def
      handleUnjail_def handleProposeModel_def handleApproveModel_def handleDeposit_def handleSubscribe_def
      handleCancelSubscription_def okResult_def errResult_def clean_Some case_prod_unfold split: option.split)

lemma handleCommitment_clean: "node_inv N a \<Longrightarrow> failure_clean a (handleCommitment N a tx)"
  using clean_jobs(3) [OF chain_invD(4)]
  by (simp add: failure_clean_def handleCommitment_def okResult_def errResult_def clean_Some case_prod_unfold Let_def
      split: option.split)

lemma handleDispute_clean: "node_inv N a \<Longrightarrow> failure_clean a (handleDispute N a tx)"
  using clean_user_dispute [OF chain_invD(2)]
  by (auto simp: failure_clean_def handleDispute_def okResult_def errResult_def case_prod_unfold
      split: option.split sum.split)

lemma handleVote_clean:
  assumes "node_inv N a"
  shows "\<exists>r. fst (handleDisputeVote N a tx) = Inr r \<and> failure_clean a (r, snd (handleDisputeVote N a tx))"
  using clean_vote [OF chain_invD(2) [OF assms]] vote_no_panic [OF chain_invD(1) [OF assms]]
  by (auto simp: failure_clean_def handleDisputeVote_def okResult_def errResult_def case_prod_unfold clean_Some
      split: option.split error.split)

lemma handleJobRequest_clean:
  assumes "node_inv N a"
  shows "result_ok N a (handled (handleJobRequest N a tx))"
proof -
  have "clean (snd (ConsumeJob (nd_db N) (a_store a) u slot))
      (jobs_Commit (nd_db N) (snd (ConsumeJob (nd_db N) (a_store a) u slot)) req slot v)" for u slot req v
    by (rule clean_jobs(1) [OF chain_invD(4) [OF chain_steps_inv [OF op_chain(18) [OF assms] assms]]])
  with clean_subscription(4) [OF chain_invD(6) [OF assms]] show ?thesis
    by (auto simp: result_ok_def handled_def failure_clean_def burnt_def handleJobRequest_def okResult_def errResult_def
        clean_Some case_prod_unfold split: option.split sum.split)
qed

lemma deliverTx_result:
  assumes "node_inv N a"
  shows "result_ok N a (deliverTx N a rawTx)"
proof -
  have "failure_clean a (errResult 1 x, a)" "failure_clean a (errResult 2 x, a)" for x
    by (simp_all add: failure_clean_def errResult_def)
  moreover have "result_ok N a (handleDisputeVote N a tx)" for tx
    using handleVote_clean [OF assms] by (auto simp: result_ok_def)
  ultimately show ?thesis
    by (simp add: deliverTx_def result_ok_handled handler_clean [OF assms] handleCommitment_clean [OF assms]
        handleDispute_clean [OF assms] handleJobRequest_clean [OF assms] split: option.split)
qed

lemma deliver_loop_length:
  "node_inv N a \<Longrightarrow> \<exists>rs. fst (deliver_loop N a txs) = Inr rs \<and> length rs = length txs"
proof (induction txs arbitrary: a)
  case (Cons tx txs)
  obtain r where r: "fst (deliverTx N a tx) = Inr r" using deliverTx_result [OF Cons.prems] by (auto simp: result_ok_def)
  have "node_inv N (snd (deliverTx N a tx))"
    by (rule chain_steps_inv [OF deliverTx_steps [OF Cons.prems] Cons.prems])
  with Cons.IH obtain rs where "fst (deliver_loop N (snd (deliverTx N a tx)) txs) = Inr rs" "length rs = length txs"
    by blast
  with r show ?case by (auto simp: case_prod_unfold)
qed simp

lemma deliver_loop_nth:
  assumes "fst (deliver_loop N a (xs @ tx # ys)) = Inr rs"
  shows "\<exists>r. fst (deliverTx N (snd (deliver_loop N a xs)) tx) = Inr r \<and> rs ! length xs = r"
  using assms
proof (induction xs arbitrary: a rs)
  case Nil
  then show ?case by (auto simp: case_prod_unfold split: sum.splits)
next
  case (Cons x xs)
  then obtain r rs' where r: "fst (deliverTx N a x) = Inr r" "rs = r # rs'"
    "fst (deliver_loop N (snd (deliverTx N a x)) (xs @ tx # ys)) = Inr rs'"
    by (auto simp: case_prod_unfold split: sum.splits)
  have "snd (deliver_loop N a (x # xs)) = snd (deliver_loop N (snd (deliverTx N a x)) xs)"
    using r(1) by (auto simp: case_prod_unfold split: sum.splits)
  with Cons.IH [OF r(3)] r(2) show ?case by simp
qed

lemma FinalizeBlock_total:
  assumes "node_inv N a"
  shows "\<exists>rs. fst (FinalizeBlock N a req) = Inr rs \<and> length rs = length (rf_Txs req)"
  using deliver_loop_length [OF chain_steps_inv [OF begin_block_steps [OF assms] assms], of req "rf_Txs req"]
  by (auto simp: FinalizeBlock_def case_prod_unfold)

end

section \<open>Independence of iteration order and sort\<close>

definition bump_missed :: "Validator \<Rightarrow> Validator" where
  "bump_missed v = v\<lparr>v_ConsecutiveMissed := v_ConsecutiveMissed v + 1\<rparr>"

lemma bump_missed_address [simp]: "v_Address (bump_missed v) = v_Address v"
  by (simp add: bump_missed_def)

context leveldb
begin

lemma ListActive_wf:
  assumes "staking_wf L s"
  shows "ListActive L s = (active (validator_rows L s), None)"
proof -
  let ?g = "\<lambda>v r. if v_Status v = StatusActive then r @ [v] else r"
  have "fst (ListActive L s) = fold ?g (validator_rows L s) []"
    unfolding ListActive_def store_Scan_iter fst_conv validator_rows_def
    by (rule valT.scan_rows) (use assms in \<open>simp_all add: staking_wf_def unmarshal_def\<close>)
  also have "fold ?g vs r = r @ active vs" for vs and r :: "Validator list"
    by (induction vs arbitrary: r) (simp_all add: active_def)
  finally show ?thesis by (simp add: ListActive_def)
qed

lemma active_rows_distinct:
  assumes "staking_wf L s"
  shows "distinct (map v_Address (active (validator_rows L s)))"
proof -
  have "distinct (map (\<lambda>v. valKey (v_Address v)) (validator_rows L s))"
    using assms valT.distinct_all_rows by (simp add: staking_wf_def validator_rows_def)
  then have "distinct (map v_Address (validator_rows L s))" by (auto simp: distinct_map inj_on_def)
  then show ?thesis unfolding active_def by (rule distinct_map_filter)
qed

lemma IncrementMissed_view:
  assumes "staking_wf L s"
  shows "view L (snd (IncrementMissed L s a)) =
    (view L s)(valKey a := map_option (enc_Validator \<circ> bump_missed) (validators L s a))"
    and "staking_wf L (snd (IncrementMissed L s a))"
    and "validators L (snd (IncrementMissed L s a)) = (validators L s)(a := map_option bump_missed (validators L s a))"
proof -
  have v: "view L s (valKey a) = map_option enc_Validator (validators L s a)"
    using assms valT.view_row [of s "valKey a"] by (simp add: staking_wf_def validators_def)
  show "view L (snd (IncrementMissed L s a)) =
    (view L s)(valKey a := map_option (enc_Validator \<circ> bump_missed) (validators L s a))"
    using assms v validators_address [OF assms, of a]
    by (cases "validators L s a")
      (simp_all add: IncrementMissed_def staking_reads put_validator_def bump_missed_def fun_eq_iff)
  show "staking_wf L (snd (IncrementMissed L s a))"
    using assms by (simp add: IncrementMissed_def staking_reads staking_wf_put_validator split: option.split)
  show "validators L (snd (IncrementMissed L s a)) = (validators L s)(a := map_option bump_missed (validators L s a))"
    using assms validators_address [OF assms, of a]
    by (cases "validators L s a") (auto simp: IncrementMissed_def staking_reads validators_put bump_missed_def)
qed

text \<open>Counting the misses gives the same store contents in every order of the addresses.\<close>

lemma increment_all_view:
  assumes "staking_wf L s" "distinct addrs"
  shows "view L (increment_all L addrs s) k =
    (if k \<in> valKey ` set addrs then map_option (enc_Validator \<circ> bump_missed) (validators L s (drop 4 k)) else view L s k)"
  using assms unfolding increment_all_def
proof (induction addrs arbitrary: s)
  case (Cons a addrs)
  let ?t = "snd (IncrementMissed L s a)"
  have d: "drop 4 (valKey b) = b" for b by (simp add: valKey_def keyValPrefix_def)
  have "k \<in> valKey ` set addrs \<Longrightarrow> drop 4 k \<noteq> a" using Cons.prems(2) d by auto
  with Cons.IH [of ?t] Cons.prems d show ?case
    by (auto simp: IncrementMissed_view comp_def)
qed simp

end

text \<open>Two nodes with the same database and hash function, but with their own sort and map order.\<close>

definition same_base :: "'db node \<Rightarrow> 'db node \<Rightarrow> bool" where
  "same_base N N' \<longleftrightarrow> nd_db N' = nd_db N \<and> nd_keccak N' = nd_keccak N"

lemma handlers_same:
  assumes "same_base N N'"
  shows "handleJobRequest N' a tx = handleJobRequest N a tx"
    and "handleReveal N' a tx = handleReveal N a tx"
    and "handleCommitment N' a tx = handleCommitment N a tx"
    and "handleDispute N' a tx = handleDispute N a tx"
    and "handleObserverDispute N' a tx = handleObserverDispute N a tx"
    and "handleDisputeVote N' a tx = handleDisputeVote N a tx"
    and "handleProtocolAttestation N' a tx = handleProtocolAttestation N a tx"
    and "handleRegisterValidator N' a tx = handleRegisterValidator N a tx"
    and "handleDelegate N' a tx = handleDelegate N a tx"
    and "handleUndelegate N' a tx = handleUndelegate N a tx"
    and "handleUnjail N' a tx = handleUnjail N a tx"
    and "handleProposeModel N' a tx = handleProposeModel N a tx"
    and "handleApproveModel N' a tx = handleApproveModel N a tx"
    and "handleDeposit N' a tx = handleDeposit N a tx"
    and "handleSubscribe N' a tx = handleSubscribe N a tx"
    and "handleCancelSubscription N' a tx = handleCancelSubscription N a tx"
proof -
  have "nd_db N' = nd_db N" "nd_keccak N' = nd_keccak N" using assms by (simp_all add: same_base_def)
  note defs = this handleJobRequest_def handleReveal_def handleCommitment_def handleDispute_def
    handleObserverDispute_def handleDisputeVote_def handleProtocolAttestation_def handleRegisterValidator_def
    handleDelegate_def handleUndelegate_def handleUnjail_def handleProposeModel_def
    handleApproveModel_def handleDeposit_def handleSubscribe_def handleCancelSubscription_def
  show "handleJobRequest N' a tx = handleJobRequest N a tx" unfolding defs by (rule refl)
  show "handleReveal N' a tx = handleReveal N a tx" unfolding defs by (rule refl)
  show "handleCommitment N' a tx = handleCommitment N a tx" unfolding defs by (rule refl)
  show "handleDispute N' a tx = handleDispute N a tx" unfolding defs by (rule refl)
  show "handleObserverDispute N' a tx = handleObserverDispute N a tx" unfolding defs by (rule refl)
  show "handleDisputeVote N' a tx = handleDisputeVote N a tx" unfolding defs by (rule refl)
  show "handleProtocolAttestation N' a tx = handleProtocolAttestation N a tx" unfolding defs by (rule refl)
  show "handleRegisterValidator N' a tx = handleRegisterValidator N a tx" unfolding defs by (rule refl)
  show "handleDelegate N' a tx = handleDelegate N a tx" unfolding defs by (rule refl)
  show "handleUndelegate N' a tx = handleUndelegate N a tx" unfolding defs by (rule refl)
  show "handleUnjail N' a tx = handleUnjail N a tx" unfolding defs by (rule refl)
  show "handleProposeModel N' a tx = handleProposeModel N a tx" unfolding defs by (rule refl)
  show "handleApproveModel N' a tx = handleApproveModel N a tx" unfolding defs by (rule refl)
  show "handleDeposit N' a tx = handleDeposit N a tx" unfolding defs by (rule refl)
  show "handleSubscribe N' a tx = handleSubscribe N a tx" unfolding defs by (rule refl)
  show "handleCancelSubscription N' a tx = handleCancelSubscription N a tx" unfolding defs by (rule refl)
qed

lemma deliverTx_same:
  assumes "same_base N N'"
  shows "deliverTx N' = deliverTx N"
  by (simp add: fun_eq_iff deliverTx_def handlers_same [OF assms] split: option.split)

lemma deliver_loop_same:
  assumes "same_base N N'"
  shows "deliver_loop N' a txs = deliver_loop N a txs"
  by (induction txs arbitrary: a) (simp_all add: deliverTx_same [OF assms] case_prod_unfold split: sum.split)

lemma tally_events_same: "same_base N N' \<Longrightarrow> tally_events N' a evs = tally_events N a evs"
  by (induction evs arbitrary: a) (simp_all add: same_base_def)

lemma begin_block_same:
  assumes "same_base N N'" "elect N' a req = elect N a req"
  shows "begin_block N' a req = begin_block N a req"
proof -
  have "nd_db N' = nd_db N" "endEpoch N' b n = endEpoch N b n" for b n
    using assms(1) by (simp_all add: same_base_def endEpoch_def)
  then show ?thesis unfolding begin_block_def assms(2) tally_events_same [OF assms(1)] by (simp only:)
qed

text \<open>No two active validators have the same hash in the election of this block.\<close>

definition no_collision :: "'db node \<Rightarrow> 'db App \<Rightarrow> RequestFinalizeBlock \<Rightarrow> bool" where
  "no_collision N a req \<longleftrightarrow>
    inj_on (vrf_hash (nd_keccak N)
        (EpochSeed (nd_keccak N) (rf_ProposerAddress req) (idiv (rf_Height req) EpochSlots)) (rf_Height req))
      (set (map v_Address (fst (ListActive (nd_db N) (a_store a)))))"

context chain_node
begin

lemma FinaliseSlot_inv:
  "node_inv N a \<Longrightarrow> chain_inv (nd_db N) (nd_keccak N) (snd (FinaliseSlot (nd_db N) (a_store a) slot))"
  by (rule chain_steps_inv [OF op_chain(12)])

lemma begin_block_inv: "node_inv N a \<Longrightarrow> node_inv N (begin_block N a req)"
  by (rule chain_steps_inv [OF begin_block_steps])

lemma deliver_loop_inv: "node_inv N a \<Longrightarrow> node_inv N (snd (deliver_loop N a txs))"
  by (rule chain_steps_inv [OF deliver_loop_steps])

lemma elect_spec_block:
  assumes "node_inv N a" "no_collision N a req"
  shows "ElectSlot (nd_sort N) (nd_keccak N) (EpochSeed (nd_keccak N) (rf_ProposerAddress req) (idiv (rf_Height req) EpochSlots))
      (rf_Height req) (fst (ListActive (nd_db N) (a_store a))) =
    elect_spec (vrf_hash (nd_keccak N)
        (EpochSeed (nd_keccak N) (rf_ProposerAddress req) (idiv (rf_Height req) EpochSlots)) (rf_Height req))
      (map v_Address (active (validator_rows (nd_db N) (a_store a))))"
proof -
  note wf = chain_invD(3) [OF assms(1)]
  have act: "active (active vs) = active vs" for vs by (simp add: active_def)
  show ?thesis
    using assms(2) active_rows_distinct [OF wf]
    by (simp add: ElectSlot_spec [OF node_sort node_hash] ListActive_wf [OF wf] act no_collision_def)
qed

end

lemma elect_same:
  assumes "chain_node N" "chain_node N'" "same_base N N'" "node_inv N a" "no_collision N a req"
  shows "elect N' a req = elect N a req"
proof -
  have "node_inv N' a" "no_collision N' a req" using assms(3-5) by (simp_all add: same_base_def no_collision_def)
  with chain_node.elect_spec_block [OF assms(2)] chain_node.elect_spec_block [OF assms(1,4,5)] assms(3)
  show ?thesis by (simp add: elect_def Let_def case_prod_unfold same_base_def)
qed

lemma end_block_same:
  assumes "chain_node N" "chain_node N'" "same_base N N'" "node_inv N a"
  shows "\<exists>s. end_block N' a = (end_block N a)\<lparr>a_store := s\<rparr> \<and> view (nd_db N) s = view (nd_db N) (a_store (end_block N a))"
proof -
  let ?r = "FinaliseSlot (nd_db N) (a_store a) (currentSlot a)"
  let ?m = "fst (snd (fst ?r))"
  have wf: "staking_wf (nd_db N) (snd ?r)"
    using chain_node.FinaliseSlot_inv [OF assms(1,4)] by (rule chain_invD(3))
  have r: "distinct (nd_range N ?m)" "distinct (nd_range N' ?m)" "set (nd_range N' ?m) = set (nd_range N ?m)"
    using chain_node.node_range [OF assms(1)] chain_node.node_range [OF assms(2)] by (simp_all add: range_ok_def)
  have "leveldb (nd_db N)" using assms(1) by (rule chain_node.node_db)
  with wf r have "view (nd_db N) (increment_all (nd_db N) (nd_range N' ?m) (snd ?r)) =
      view (nd_db N) (increment_all (nd_db N) (nd_range N ?m) (snd ?r))"
    by (simp add: leveldb.increment_all_view fun_eq_iff)
  moreover have "nd_db N' = nd_db N" using assms(3) by (simp add: same_base_def)
  ultimately show ?thesis
    by (intro exI [of _ "a_store (end_block N' a)"]) (simp add: end_block_def case_prod_unfold)
qed

section \<open>Properties\<close>

text \<open>A node for the witnesses, started from the default genesis document.\<close>

definition example_node :: "(bytes \<times> json) list node" where
  "example_node = \<lparr>nd_db = list_db, nd_keccak = pad_hash, nd_sort = insertion_sort,
    nd_range = (\<lambda>m. sorted_list_of_fset (fmdom m))\<rparr>"

interpretation example: chain_node example_node
  by (rule chain_node.intro)
    (simp_all add: example_node_def listdb.leveldb_axioms insertion.go_sort_axioms hash32_pad_hash range_ok_def
      sorted_list_of_fset.rep_eq)

definition example_app :: "(bytes \<times> json) list App" where
  "example_app = snd (InitChain example_node (app_New []) (Some (enc_Genesis (Default example_time))))"

lemma example_init: "InitChain example_node (app_New []) (Some (enc_Genesis (Default example_time))) = (None, example_app)"
proof -
  have "fst (InitChain example_node (app_New []) (Some (enc_Genesis (Default example_time)))) = None"
    by (simp add: InitChain_def unmarshal_def Default_def example_time_ok genesis_msg_def app_New_def example_node_def
        TotalSupply_def run_eval keys)
  then show ?thesis by (simp add: example_app_def prod_eq_iff)
qed

lemma example_reachable: "reachable example_node example_app"
  by (rule reachable.init [OF _ example_init]) (simp add: example_node_def view_def run_eval fun_eq_iff)

text \<open>C1: The invariant of the chain holds in every reachable state. After \<open>InitChain\<close> on an
  empty store and any number of blocks with any transactions, every table of the store is well formed, every
  active validator has at least the minimum bond, every job satisfies the job invariant and has the prompt that
  was committed, every dispute can be voted on, and a model is active only with three distinct votes.\<close>

theorem chain_invariant:
  assumes "chain_node N" and "reachable N a"
  shows "chain_inv (nd_db N) (nd_keccak N) (a_store a)"
  using chain_node.reachable_inv [OF assms] .

theorem chain_invariant_witness:
  "chain_inv list_db pad_hash (a_store example_app) \<and> length (validator_rows list_db (a_store example_app)) = 1"
proof
  show "chain_inv list_db pad_hash (a_store example_app)"
    using chain_invariant [OF example.chain_node_axioms example_reachable] by (simp add: example_node_def)
  show "length (validator_rows list_db (a_store example_app)) = 1"
    by (simp add: example_app_def InitChain_def unmarshal_def Default_def example_time_ok genesis_msg_def
        app_New_def example_node_def TotalSupply_def run_eval keys)
qed

text \<open>C2: A block never panics and answers every transaction. From every reachable state, every request
  (whatever its height, proposer and raw transactions) is executed to the end, with exactly one result per
  transaction, and leads to a reachable state.\<close>

theorem block_total:
  assumes "chain_node N" and "reachable N a"
  shows "\<exists>results b. FinalizeBlock N a req = (Inr results, b) \<and> length results = length (rf_Txs req) \<and> reachable N b"
proof -
  obtain rs where rs: "fst (FinalizeBlock N a req) = Inr rs" "length rs = length (rf_Txs req)"
    using chain_node.FinalizeBlock_total [OF assms(1) chain_node.reachable_inv [OF assms]] by blast
  then have "FinalizeBlock N a req = (Inr rs, snd (FinalizeBlock N a req))" by (simp add: prod_eq_iff)
  with rs assms(2) show ?thesis by (blast intro: reachable.block)
qed

definition example_block :: RequestFinalizeBlock where
  "example_block = \<lparr>rf_Height = 14400, rf_ProposerAddress = ''p'', rf_Txs =
    [None,
     Some (JObj [(''type'', JStr ''vote'')]),
     Some (JObj [(''type'', JStr ''dispute_vote''), (''payload'', JObj [(''job_id'', JStr ''a'')])])]\<rparr>"

theorem block_total_witness:
  "\<exists>results b. FinalizeBlock example_node example_app example_block = (Inr results, b) \<and> length results = 3 \<and>
    reachable example_node b"
  using block_total [OF example.chain_node_axioms example_reachable, of example_block] by (simp add: example_block_def numeral_3_eq_3)

text \<open>C3: Failed transactions are atomic, with one exception, wherever in a block they stand. From every reachable state
  and in every block, the transaction is executed in the state that the beginning of the block and the transactions before it
  have left, and its result is the one in its place in the answer. A transaction that is answered
  with an error code leaves the whole state of the node as it was, unless the code is 13: then the job request was refused
  by the jobs module after the subscription module had already counted the job against a user's quota.\<close>

theorem failed_tx_atomic:
  assumes "chain_node N" and "reachable N a" and "rf_Txs req = txs @ rawTx # rest"
    and "m = snd (deliver_loop N (begin_block N a req) txs)"
  shows "\<exists>r b rs. deliverTx N m rawTx = (Inr r, b) \<and> fst (FinalizeBlock N a req) = Inr rs \<and> rs ! length txs = r \<and>
    (x_Code r \<noteq> 0 \<longrightarrow> (if x_Code r = 13 then burnt N m b else b = m))"
proof -
  note inv = chain_node.reachable_inv [OF assms(1,2)]
  have "node_inv N m"
    unfolding assms(4) by (rule chain_node.deliver_loop_inv [OF assms(1) chain_node.begin_block_inv [OF assms(1) inv]])
  note tx = chain_node.deliverTx_result [OF assms(1) this, of rawTx]
  obtain rs where rs: "fst (FinalizeBlock N a req) = Inr rs"
    using chain_node.FinalizeBlock_total [OF assms(1) inv] by blast
  then have "fst (deliver_loop N (begin_block N a req) (txs @ rawTx # rest)) = Inr rs"
    by (auto simp: FinalizeBlock_def assms(3) case_prod_unfold split: sum.splits)
  from chain_node.deliver_loop_nth [OF assms(1) this] obtain r where
    r: "fst (deliverTx N m rawTx) = Inr r" "rs ! length txs = r" unfolding assms(4) by blast
  then have "deliverTx N m rawTx = (Inr r, snd (deliverTx N m rawTx))" by (simp add: prod_eq_iff)
  moreover have "x_Code r \<noteq> 0 \<longrightarrow> (if x_Code r = 13 then burnt N m (snd (deliverTx N m rawTx)) else snd (deliverTx N m rawTx) = m)"
    using tx r(1) by (auto simp: result_ok_def failure_clean_def split: prod.splits)
  ultimately show ?thesis using rs r(2) by blast
qed

theorem failed_tx_atomic_witness:
  "let m = snd (deliver_loop example_node (begin_block example_node example_app example_block) [None]) in
    \<exists>r b. deliverTx example_node m (Some (JObj [(''type'', JStr ''vote'')])) = (Inr r, b) \<and> x_Code r = 2 \<and> b = m"
proof -
  let ?raw = "Some (JObj [(''type'', JStr ''vote'')])"
  define m where "m = snd (deliver_loop example_node (begin_block example_node example_app example_block) [None])"
  have txs: "rf_Txs example_block = [None] @ ?raw # [Some (JObj [(''type'', JStr ''dispute_vote''),
      (''payload'', JObj [(''job_id'', JStr ''a'')])])]" by (simp add: example_block_def)
  obtain b where "deliverTx example_node m ?raw = (Inr (errResult 2 (''unknown tx type: %s'', [AStr ''vote''])), b)"
    by (simp add: deliverTx_def unmarshal_def codec_defs Tx_fields_def zero_Tx_def tx_types handled_def)
  then show ?thesis
    using failed_tx_atomic [OF example.chain_node_axioms example_reachable txs m_def]
    unfolding Let_def m_def [symmetric] by (auto simp: errResult_def)
qed

text \<open>C4: A block has the same outcome on every node. Two nodes with the same database and hash function,
  in the same reachable state, that execute the same block give the same transaction results, the same election
  and the same contents of the store, whatever sort implementation each uses and in whatever order each ranges
  over the map of missed servers, as long as no two active validators collide in the election hash.\<close>

theorem block_deterministic:
  assumes "chain_node N" and "chain_node N'" and "same_base N N'"
    and "reachable N a" and "no_collision N a req"
  shows "fst (FinalizeBlock N' a req) = fst (FinalizeBlock N a req) \<and>
    (\<exists>s. snd (FinalizeBlock N' a req) = (snd (FinalizeBlock N a req))\<lparr>a_store := s\<rparr> \<and>
       view (nd_db N) s = view (nd_db N) (a_store (snd (FinalizeBlock N a req))))"
proof -
  have inv: "node_inv N a" by (rule chain_node.reachable_inv [OF assms(1,4)])
  have b: "begin_block N' a req = begin_block N a req"
    by (rule begin_block_same [OF assms(3) elect_same [OF assms(1-3) inv assms(5)]])
  define d where "d = deliver_loop N (begin_block N a req) (rf_Txs req)"
  have d': "deliver_loop N' (begin_block N' a req) (rf_Txs req) = d"
    by (simp add: deliver_loop_same [OF assms(3)] b d_def)
  have "node_inv N (begin_block N a req)"
    using chain_node.begin_block_inv [OF assms(1) inv] .
  then have "node_inv N (snd d)" unfolding d_def by (rule chain_node.deliver_loop_inv [OF assms(1)])
  with end_block_same [OF assms(1-3)] show ?thesis
    unfolding FinalizeBlock_def d' d_def [symmetric]
    by (cases d; cases "fst d") (auto intro: exI [of _ "a_store (snd d)"])
qed

definition example_node2 :: "(bytes \<times> json) list node" where
  "example_node2 = example_node\<lparr>nd_range := (\<lambda>m. rev (sorted_list_of_fset (fmdom m)))\<rparr>"

interpretation example2: chain_node example_node2
  by (rule chain_node.intro)
    (simp_all add: example_node2_def example_node_def listdb.leveldb_axioms insertion.go_sort_axioms hash32_pad_hash
      range_ok_def sorted_list_of_fset.rep_eq)

theorem block_deterministic_witness:
  "fst (FinalizeBlock example_node2 example_app example_block) = fst (FinalizeBlock example_node example_app example_block)"
proof -
  have "no_collision example_node example_app example_block"
    by (simp add: no_collision_def example_app_def InitChain_def unmarshal_def Default_def example_time_ok genesis_msg_def
        app_New_def example_node_def TotalSupply_def run_eval keys)
  then show ?thesis
    using block_deterministic [OF example.chain_node_axioms example2.chain_node_axioms _ example_reachable]
    by (simp add: same_base_def example_node2_def)
qed

definition example_quota :: "(bytes \<times> json) list App" where
  "example_quota = (app_New
     (jobs_exec list_db pad_hash (OpCommit (example_request ''a'') 5 ''v1'')
       (registry_run list_db registry_quorum
         [OpPropose \<lparr>mp_ModelID = ''m'', mp_WeightsHash = ''w'', mp_TokenizerHash = ''t'', mp_Quantisation = ''q'', mp_GraceSlots = 0\<rparr>,
           OpApprove \<lparr>ma_ModelID = ''m'', ma_ValidatorAddr = ''v1''\<rparr> 1,
          OpApprove \<lparr>ma_ModelID = ''m'', ma_ValidatorAddr = ''v2''\<rparr> 1, OpApprove \<lparr>ma_ModelID = ''m'', ma_ValidatorAddr = ''v3''\<rparr> 1]
         (sub_run list_db
           [OpDeposit \<lparr>dp_UserAddr = ''u'', dp_Amount = 20000000\<rparr>,
            OpSubscribe \<lparr>sx_UserAddr = ''u'', sx_Plan = ''basic'', sx_AutoRenew = False\<rparr> 1] []))))
     \<lparr>currentSlot := 6\<rparr>"

definition example_request_tx :: raw where
  "example_request_tx = Some (JObj [(''type'', JStr ''job_request''),
     (''payload'', JObj [(''job_id'', JStr ''a''), (''model_id'', JStr ''m''), (''user_addr'', JStr ''u'')])])"

definition example_request2 :: JobRequest where
  "example_request2 = zero_JobRequest\<lparr>jr_JobID := ''a'', jr_ModelID := ''m'', jr_UserAddr := ''u''\<rparr>"

lemma example_request_dispatch:
  "deliverTx example_node a example_request_tx = handled (handleJobRequest example_node a
     \<lparr>tx_Type = ''job_request'',
       tx_Payload = Some (JObj [(''job_id'', JStr ''a''), (''model_id'', JStr ''m''), (''user_addr'', JStr ''u'')]), tx_Sender = []\<rparr>)"
  by (simp add: deliverTx_def example_request_tx_def unmarshal_def codec_defs Tx_fields_def zero_Tx_def tx_types dec_RawMessage_def)

lemma example_request_payload:
  "unmarshal JobRequest_fields zero_JobRequest
     (Some (JObj [(''job_id'', JStr ''a''), (''model_id'', JStr ''m''), (''user_addr'', JStr ''u'')])) = Some example_request2"
  by (simp add: unmarshal_def codec_defs JobRequest_fields_def zero_JobRequest_def example_request2_def)

lemma example_quota_store:
  "a_store example_quota =
    [(''job/a'', enc_Job \<lparr>j_JobID = ''a'', j_ModelID = ''llama'', j_PromptHash = pad_hash ''hin'', j_UserAddr = ''u'',
        j_Prompt = [], j_Params = \<lparr>p_Temperature = FInt 0, p_MaxTokens = 8\<rparr>, j_State = 0, j_Slot = 5,
        j_Server = ''v1'', j_Commitment = None\<rparr>),
     (''model/m'', enc_Model \<lparr>m_ModelID = ''m'', m_WeightsHash = ''w'', m_TokenizerHash = ''t'', m_Quantisation = ''q'',
        m_Status = 1, m_ApprovedAtSlot = 1, m_DeprecatedAtSlot = 0, m_GraceSlots = 14400, m_Votes = [''v1'', ''v2'', ''v3'']\<rparr>),
     (''sub/u'', enc_Subscription \<lparr>s_UserAddr = ''u'', s_Plan = ''basic'', s_StartSlot = 1, s_ExpiresSlot = 432001,
        s_JobsUsed = 0, s_JobsLimit = 100, s_PaidAmount = 10000000, s_AutoRenew = False\<rparr>),
     (''acct/u'', enc_Account (zero_Account\<lparr>a_Address := ''u'', a_Balance := 10000000\<rparr>))]"
proof -
  have "a_Balance zero_Account = 0" by (simp add: zero_Account_def)
  then show ?thesis
    by (simp add: example_quota_def app_New_def registry_quorum_def example_request_def run_eval keys)
qed

lemma example_quota_eval:
  "IsValid list_db (a_store example_quota) ''m'' 6 = Inr True"
  "fst (ConsumeJob list_db (a_store example_quota) ''u'' 6) = None"
  "map_option s_JobsUsed (subs list_db (a_store example_quota) ''u'') = Some 0"
  "map_option s_JobsUsed (subs list_db (snd (ConsumeJob list_db (a_store example_quota) ''u'' 6)) ''u'') = Some 1"
  "fst (jobs_Commit list_db (snd (ConsumeJob list_db (a_store example_quota) ''u'' 6)) example_request2 6 []) =
     Some (Errorf ''job %s already exists'' [AStr ''a''])"
  "snd (jobs_Commit list_db (snd (ConsumeJob list_db (a_store example_quota) ''u'' 6)) example_request2 6 []) =
     snd (ConsumeJob list_db (a_store example_quota) ''u'' 6)"
  "view list_db (snd (ConsumeJob list_db (a_store example_quota) ''u'' 6)) ''job/a'' = view list_db (a_store example_quota) ''job/a''"
  by (simp_all add: example_quota_store example_request2_def view_def run_eval keys)

lemma example_quota_app: "currentSlot example_quota = 6" "server example_quota = []"
  "jr_ModelID example_request2 = ''m''" "jr_UserAddr example_request2 = ''u''"
  by (simp_all add: example_quota_def app_New_def example_request2_def)

lemma example_node_fields: "nd_db example_node = list_db"
  by (simp add: example_node_def)

text \<open>A repeated job request costs quota. With an approved model, a basic subscription and the job
  \<open>a\<close> already committed, a second request for job \<open>a\<close> is refused with code 13, the job stays as it
  was, and still one of the user's 100 jobs is used up.\<close>

theorem duplicate_request_burns_quota:
  "case deliverTx example_node example_quota example_request_tx of
     (Inl e, b) \<Rightarrow> False
   | (Inr r, b) \<Rightarrow>
       x_Code r = 13 \<and>
       view list_db (a_store b) ''job/a'' = view list_db (a_store example_quota) ''job/a'' \<and>
       map_option s_JobsUsed (subs list_db (a_store example_quota) ''u'') = Some 0 \<and>
       map_option s_JobsUsed (subs list_db (a_store b) ''u'') = Some 1"
  using example_quota_eval example_quota_app
  by (simp add: example_request_dispatch example_request_payload handleJobRequest_def handled_def
      case_prod_unfold example_node_fields errResult_def)

end
