(* ===== verification/Checkpoint.thy ===== *)
theory Checkpoint
  imports Types
begin

text \<open>
  Epoch checkpoints, after \<open>chain/modules/checkpoint/checkpoint.go\<close>: hashing, the EIP-191 wrapping,
  signing and recovery. The secp256k1 package is a parameter (the functions the code calls); what the proofs
  rely on is \<open>secp_ok\<close>: a signature by a non-zero key has 65 bytes and recovers to the public key of that
  key, and an uncompressed public key has 65 bytes. A Go array \<open>[n]byte\<close> is a byte string of length
  \<open>n\<close>.
\<close>

section \<open>Operations\<close>

text \<open>The built-in \<open>copy\<close>, and the zero value of an array.\<close>

definition go_copy :: "bytes \<Rightarrow> bytes \<Rightarrow> bytes" where
  "go_copy dst src = take (length dst) src @ drop (length src) dst"

definition zeros :: "nat \<Rightarrow> bytes" where
  "zeros n = replicate n (CHR 0x00)"

definition domainPrefix :: bytes where
  "domainPrefix = CHR 0x19 # ''BIGT Checkpoint'' @ [CHR 0x00]"

record Checkpoint =
  cp_Epoch :: uint64
  cp_BlockHash :: bytes
  cp_ValidatorSetHash :: bytes

definition checkpoint_New :: "uint64 \<Rightarrow> bytes \<Rightarrow> bytes \<Rightarrow> Checkpoint" where
  "checkpoint_New epoch blockHash validatorSetHash =
    \<lparr>cp_Epoch = epoch, cp_BlockHash = blockHash, cp_ValidatorSetHash = validatorSetHash\<rparr>"

definition Hash :: "hash_fn \<Rightarrow> Checkpoint \<Rightarrow> bytes" where
  "Hash keccak cp =
    Keccak256 keccak [domainPrefix, be64 (cp_Epoch cp), cp_BlockHash cp, cp_ValidatorSetHash cp]"

definition eth_prefix :: bytes where
  "eth_prefix = CHR 0x19 # ''Ethereum Signed Message:'' @ CHR 0x0A # ''32''"

definition EthSignHash :: "hash_fn \<Rightarrow> bytes \<Rightarrow> bytes" where
  "EthSignHash keccak cpHash = Keccak256 keccak [eth_prefix, cpHash]"

record ('sk, 'pk) secp_api =
  PrivKeyFromBytes :: "bytes \<Rightarrow> 'sk"
  IsZero :: "'sk \<Rightarrow> bool"
  PubKey :: "'sk \<Rightarrow> 'pk"
  SignCompact :: "'sk \<Rightarrow> bytes \<Rightarrow> bool \<Rightarrow> bytes"
  RecoverCompact :: "bytes \<Rightarrow> bytes \<Rightarrow> error + 'pk \<times> bool"
  SerializeUncompressed :: "'pk \<Rightarrow> bytes"

definition secp_ok :: "('sk, 'pk) secp_api \<Rightarrow> bool" where
  "secp_ok S \<longleftrightarrow>
    (\<forall>k h c. \<not> IsZero S k \<and> length h = 32 \<longrightarrow>
       length (SignCompact S k h c) = 65 \<and> RecoverCompact S (SignCompact S k h c) h = Inr (PubKey S k, c)) \<and>
    (\<forall>p. length (SerializeUncompressed S p) = 65)"

definition checkpoint_Sign :: "hash_fn \<Rightarrow> ('sk, 'pk) secp_api \<Rightarrow> Checkpoint \<Rightarrow> bytes \<Rightarrow> error + bytes" where
  "checkpoint_Sign keccak S cp privKeyBytes =
    (if length privKeyBytes \<noteq> 32
     then Inl (Errorf ''private key must be 32 bytes, got %d'' [ALen (length privKeyBytes)])
     else
       let ethHash = EthSignHash keccak (Hash keccak cp);
           privKey = PrivKeyFromBytes S privKeyBytes;
           compact = SignCompact S privKey ethHash False
       in if length compact \<noteq> 65
          then Inl (Errorf ''unexpected compact signature length %d'' [ALen (length compact)])
          else Inr (take 32 (drop 1 compact) @ take 32 (drop 33 compact) @ [compact ! 0]))"

text \<open>\<open>pubKeyToAddress\<close> and \<open>AddressFromPrivKey\<close>.\<close>

definition pubKeyToAddress :: "hash_fn \<Rightarrow> ('sk, 'pk) secp_api \<Rightarrow> 'pk \<Rightarrow> bytes" where
  "pubKeyToAddress keccak S pubKey =
    (let uncompressed = SerializeUncompressed S pubKey;
         addrHash = Keccak256 keccak [drop 1 uncompressed]
     in go_copy (zeros 20) (drop 12 addrHash))"

definition RecoverSigner :: "hash_fn \<Rightarrow> ('sk, 'pk) secp_api \<Rightarrow> Checkpoint \<Rightarrow> bytes \<Rightarrow> error + bytes" where
  "RecoverSigner keccak S cp sig =
    (if length sig \<noteq> 65 then Inl (Errorf ''signature must be 65 bytes, got %d'' [ALen (length sig)])
     else
       let ethHash = EthSignHash keccak (Hash keccak cp);
           compact = sig ! 64 # take 32 sig @ take 32 (drop 32 sig)
       in case RecoverCompact S compact ethHash of
            Inl e \<Rightarrow> Inl (Errorf ''recover failed: %w'' [AErr e])
          | Inr (pubKey, _) \<Rightarrow> Inr (pubKeyToAddress keccak S pubKey))"

definition AddressFromPrivKey :: "hash_fn \<Rightarrow> ('sk, 'pk) secp_api \<Rightarrow> bytes \<Rightarrow> bytes" where
  "AddressFromPrivKey keccak S privKeyBytes =
    pubKeyToAddress keccak S (PubKey S (PrivKeyFromBytes S privKeyBytes))"

section \<open>Lengths and reordering\<close>

lemma length_go_copy [simp]: "length (go_copy dst src) = length dst"
  by (simp add: go_copy_def)

lemma go_copy_full: "length src = length dst \<Longrightarrow> go_copy dst src = src"
  by (simp add: go_copy_def)

lemma length_zeros [simp]: "length (zeros n) = n"
  by (simp add: zeros_def)

lemma length_Hash: "hash32 keccak \<Longrightarrow> length (Hash keccak cp) = 32"
  by (simp add: Hash_def Keccak256_concat hash32D)

lemma length_EthSignHash: "hash32 keccak \<Longrightarrow> length (EthSignHash keccak h) = 32"
  by (simp add: EthSignHash_def Keccak256_concat hash32D)

lemma length_address: "length (pubKeyToAddress keccak S p) = 20"
  by (simp add: pubKeyToAddress_def Let_def)

text \<open>From \<open>[v || r || s]\<close> to \<open>[r || s || v]\<close> and back.\<close>

lemma reorder:
  assumes "length compact = 65"
  defines "sig \<equiv> take 32 (drop 1 compact) @ take 32 (drop 33 compact) @ [compact ! 0]"
  shows "length sig = 65" and "sig ! 64 # take 32 sig @ take 32 (drop 32 sig) = compact"
proof -
  obtain v rs where c: "compact = v # rs" using assms(1) by (cases compact) auto
  then have n: "length rs = 64" using assms(1) by simp
  then show "length sig = 65" by (simp add: sig_def c)
  have "take 32 (drop 32 rs) = drop 32 rs" using n by simp
  with n show "sig ! 64 # take 32 sig @ take 32 (drop 32 sig) = compact"
    by (simp add: sig_def c nth_append)
qed

text \<open>The bytes that are hashed; different checkpoints have different bytes.\<close>

definition cp_bytes :: "Checkpoint \<Rightarrow> bytes" where
  "cp_bytes cp = domainPrefix @ be64 (cp_Epoch cp) @ cp_BlockHash cp @ cp_ValidatorSetHash cp"

definition cp_ok :: "Checkpoint \<Rightarrow> bool" where
  "cp_ok cp \<longleftrightarrow> length (cp_BlockHash cp) = 32 \<and> length (cp_ValidatorSetHash cp) = 32"

lemma Hash_bytes: "Hash keccak cp = keccak (cp_bytes cp)"
  by (simp add: Hash_def Keccak256_concat cp_bytes_def)

lemma cp_bytes_inject: "cp_ok cp \<Longrightarrow> cp_ok cp' \<Longrightarrow> cp_bytes cp = cp_bytes cp' \<Longrightarrow> cp = cp'"
  by (auto simp: cp_bytes_def cp_ok_def append_eq_append_conv)

lemma EthSignHash_bytes: "EthSignHash keccak h = keccak (eth_prefix @ h)"
  by (simp add: EthSignHash_def Keccak256_concat)

lemma sign_recover:
  assumes "secp_ok S" "hash32 keccak" "length key = 32" "\<not> IsZero S (PrivKeyFromBytes S key)"
  obtains sig where "checkpoint_Sign keccak S cp key = Inr sig" "length sig = 65"
    "RecoverSigner keccak S cp sig = Inr (AddressFromPrivKey keccak S key)"
proof -
  define c where "c = SignCompact S (PrivKeyFromBytes S key) (EthSignHash keccak (Hash keccak cp)) False"
  have c: "length c = 65" "RecoverCompact S c (EthSignHash keccak (Hash keccak cp)) = Inr (PubKey S (PrivKeyFromBytes S key), False)"
    using assms length_EthSignHash [OF assms(2)] by (simp_all add: secp_ok_def c_def)
  define sig where "sig = take 32 (drop 1 c) @ take 32 (drop 33 c) @ [c ! 0]"
  note r = reorder [OF c(1), folded sig_def]
  have "checkpoint_Sign keccak S cp key = Inr sig"
    using assms(3) c(1) by (simp add: checkpoint_Sign_def Let_def sig_def flip: c_def)
  moreover have "RecoverSigner keccak S cp sig = Inr (AddressFromPrivKey keccak S key)"
    using c(2) by (simp add: RecoverSigner_def r AddressFromPrivKey_def)
  ultimately show thesis using that r(1) by blast
qed

section \<open>Properties\<close>

text \<open>A signature scheme for the witnesses, in which the key itself is the signature.\<close>

definition pad32 :: "bytes \<Rightarrow> bytes" where
  "pad32 b = take 32 (b @ zeros 32)"

definition toy_secp :: "(bytes, bytes) secp_api" where
  "toy_secp = \<lparr>PrivKeyFromBytes = pad32, IsZero = (\<lambda>k. k = zeros 32), PubKey = pad32,
    SignCompact = (\<lambda>k h c. (if c then CHR 0x1F else CHR 0x1B) # pad32 k @ pad32 h),
    RecoverCompact = (\<lambda>sig h. Inr (take 32 (drop 1 sig), take 1 sig = [CHR 0x1F])),
    SerializeUncompressed = (\<lambda>p. CHR 0x04 # pad32 p @ zeros 32)\<rparr>"

lemma length_pad32 [simp]: "length (pad32 b) = 32"
  by (simp add: pad32_def)

lemma secp_ok_toy: "secp_ok toy_secp"
  by (simp add: secp_ok_def toy_secp_def)

text \<open>C29: A signed checkpoint identifies its signer and its content. For every 32-byte key that is not
  the zero scalar, \<open>Sign\<close> succeeds with 65 bytes, and \<open>RecoverSigner\<close> returns the address of the key.
  The signature covers the whole checkpoint: two different checkpoints hash to the same digest only through a
  collision of the hash function on the two encodings, which differ. A key of another length is refused.\<close>

theorem checkpoint_sign_recover:
  assumes "secp_ok S" and "hash32 keccak" and "\<not> IsZero S (PrivKeyFromBytes S key)"
    and "cp_ok cp" and "cp_ok cp'" and "cp \<noteq> cp'"
  shows "(case checkpoint_Sign keccak S cp key of
       Inr sig \<Rightarrow> length key = 32 \<and> length sig = 65 \<and>
         RecoverSigner keccak S cp sig = Inr (AddressFromPrivKey keccak S key)
     | Inl e \<Rightarrow> length key \<noteq> 32) \<and>
    (Hash keccak cp = Hash keccak cp' \<longrightarrow>
       cp_bytes cp \<noteq> cp_bytes cp' \<and> keccak (cp_bytes cp) = keccak (cp_bytes cp'))"
proof
  show "case checkpoint_Sign keccak S cp key of
       Inr sig \<Rightarrow> length key = 32 \<and> length sig = 65 \<and>
         RecoverSigner keccak S cp sig = Inr (AddressFromPrivKey keccak S key)
     | Inl e \<Rightarrow> length key \<noteq> 32"
  proof (cases "length key = 32")
    case True
    then obtain sig where "checkpoint_Sign keccak S cp key = Inr sig" "length sig = 65"
      "RecoverSigner keccak S cp sig = Inr (AddressFromPrivKey keccak S key)"
      using sign_recover [OF assms(1,2) True assms(3), of cp] by blast
    with True show ?thesis by simp
  qed (simp add: checkpoint_Sign_def)
  show "Hash keccak cp = Hash keccak cp' \<longrightarrow>
      cp_bytes cp \<noteq> cp_bytes cp' \<and> keccak (cp_bytes cp) = keccak (cp_bytes cp')"
    using assms(4-6) cp_bytes_inject by (auto simp: Hash_bytes)
qed

definition example_cp :: "uint64 \<Rightarrow> Checkpoint" where
  "example_cp e = checkpoint_New e (zeros 32) (zeros 32)"

theorem checkpoint_sign_recover_witness:
  "\<exists>sig. checkpoint_Sign pad_hash toy_secp (example_cp 1) (pad32 ''k'') = Inr sig \<and>
     RecoverSigner pad_hash toy_secp (example_cp 1) sig = Inr (AddressFromPrivKey pad_hash toy_secp (pad32 ''k''))"
proof -
  have "\<not> IsZero toy_secp (PrivKeyFromBytes toy_secp (pad32 ''k''))"
    by (simp add: toy_secp_def pad32_def zeros_def numeral_eq_Suc)
  from checkpoint_sign_recover [OF secp_ok_toy hash32_pad_hash this, of "example_cp 1" "example_cp 2"] show ?thesis
    by (simp add: example_cp_def checkpoint_New_def cp_ok_def split: sum.splits)
qed

end
