(* ===== verification/Abi.thy ===== *)
theory Abi
  imports Checkpoint GoSort
begin

text \<open>
  The calldata encoder of the relayer, after \<open>encodeSubmitCheckpoint\<close> in \<open>cmd/relayer/relayer.go\<close>,
  and a decoder for \<open>submitCheckpoint(uint64,bytes32,bytes32,address[],bytes[])\<close>. The decoder has a parameter
  \<open>rel\<close>: the position, counted from the length word of a \<open>bytes[]\<close>, from which the offsets of its
  elements are measured. The contract ABI specification says 32 (behind the length word); the encoder counts
  from the length word itself, which is 0.
\<close>

section \<open>The encoder\<close>

definition submitCheckpointSelector :: "hash_fn \<Rightarrow> bytes" where
  "submitCheckpointSelector keccak =
    go_copy (zeros 4) (take 4 (Keccak256 keccak [''submitCheckpoint(uint64,bytes32,bytes32,address[],bytes[])'']))"

definition write32 :: "bytes \<Rightarrow> bytes" where
  "write32 val = take (32 - length val) (zeros 32) @ go_copy (drop (32 - length val) (zeros 32)) val"

text \<open>\<open>binary.BigEndian.PutUint64\<close> of a Go \<open>int\<close>, as a padded word.\<close>

definition write_int :: "nat \<Rightarrow> bytes" where
  "write_int n = write32 (be64 (of_nat n))"

definition paired_less :: "bytes \<times> bytes \<Rightarrow> bytes \<times> bytes \<Rightarrow> bool" where
  "paired_less p q \<longleftrightarrow> fst p < fst q"

definition sigDataPaddedSize :: nat where
  "sigDataPaddedSize = ((65 + 31) div 32) * 32"

definition encodeSubmitCheckpoint ::
  "hash_fn \<Rightarrow> ((bytes \<times> bytes \<Rightarrow> bytes \<times> bytes \<Rightarrow> bool) \<Rightarrow> (bytes \<times> bytes) list \<Rightarrow> (bytes \<times> bytes) list) \<Rightarrow>
    uint64 \<Rightarrow> bytes \<Rightarrow> bytes \<Rightarrow> bytes list \<Rightarrow> bytes list \<Rightarrow> error + bytes" where
  "encodeSubmitCheckpoint keccak sort_slice epoch blockHash valSetHash signers sigs =
    (if length signers \<noteq> length sigs then Inl (Errorf ''signers/sigs length mismatch'' [])
     else
       let paired = sort_slice paired_less (zip signers sigs);
           n = length signers;
           headSize = 5 * 32;
           signersDataSize = 32 + n * 32;
           signersOffset = headSize;
           sigsOffset = headSize + signersDataSize;
           subOffsetBase = (1 + n) * 32
       in Inr (submitCheckpointSelector keccak @
            write32 (be64 epoch) @ blockHash @ valSetHash @ write_int signersOffset @ write_int sigsOffset @
            write_int n @ concat (map (\<lambda>p. write32 (fst p)) paired) @
            write_int n @
            concat (map (\<lambda>i. write_int (subOffsetBase + i * (32 + sigDataPaddedSize))) [0..<n]) @
            concat (map (\<lambda>p. write_int 65 @ go_copy (zeros sigDataPaddedSize) (snd p)) paired)))"

section \<open>The decoder\<close>

definition word_at :: "bytes \<Rightarrow> nat \<Rightarrow> bytes option" where
  "word_at d k = (let w = take 32 (drop k d) in if length w = 32 then Some w else None)"

definition uint_at :: "bytes \<Rightarrow> nat \<Rightarrow> nat option" where
  "uint_at d k = map_option be_val (word_at d k)"

definition address_at :: "bytes \<Rightarrow> nat \<Rightarrow> bytes option" where
  "address_at d k =
    (case word_at d k of None \<Rightarrow> None | Some w \<Rightarrow> if take 12 w = zeros 12 then Some (drop 12 w) else None)"

definition bytes_at :: "bytes \<Rightarrow> nat \<Rightarrow> bytes option" where
  "bytes_at d k =
    (case uint_at d k of None \<Rightarrow> None
     | Some n \<Rightarrow> if k + 32 + n \<le> length d then Some (take n (drop (k + 32) d)) else None)"

fun opt_map :: "('a \<Rightarrow> 'b option) \<Rightarrow> 'a list \<Rightarrow> 'b list option" where
  "opt_map f [] = Some []"
| "opt_map f (x # xs) =
    (case f x of None \<Rightarrow> None | Some y \<Rightarrow> map_option (\<lambda>ys. y # ys) (opt_map f xs))"

definition array_at :: "(bytes \<Rightarrow> nat \<Rightarrow> 'a option) \<Rightarrow> bytes \<Rightarrow> nat \<Rightarrow> 'a list option" where
  "array_at elem d k =
    (case uint_at d k of None \<Rightarrow> None
     | Some n \<Rightarrow> opt_map (\<lambda>i. elem d (k + 32 + 32 * i)) [0..<n])"

definition element_at :: "nat \<Rightarrow> bytes \<Rightarrow> nat \<Rightarrow> bytes option" where
  "element_at base d k = (case uint_at d k of None \<Rightarrow> None | Some off \<Rightarrow> bytes_at d (base + off))"

definition decode_submit :: "nat \<Rightarrow> bytes \<Rightarrow> (nat \<times> bytes \<times> bytes \<times> bytes list \<times> bytes list) option" where
  "decode_submit rel d =
    (case (uint_at d 0, word_at d 32, word_at d 64, uint_at d 96, uint_at d 128) of
       (Some epoch, Some blockHash, Some valSetHash, Some signersOff, Some sigsOff) \<Rightarrow>
         (case (array_at address_at d signersOff, array_at (element_at (sigsOff + rel)) d sigsOff) of
            (Some signers, Some sigs) \<Rightarrow> Some (epoch, blockHash, valSetHash, signers, sigs)
          | _ \<Rightarrow> None)
     | _ \<Rightarrow> None)"

section \<open>Reading at an offset\<close>

lemma write32_padded: "length v \<le> 32 \<Longrightarrow> write32 v = zeros (32 - length v) @ v"
  by (simp add: write32_def zeros_def go_copy_def)

lemma length_write32 [simp]: "length v \<le> 32 \<Longrightarrow> length (write32 v) = 32"
  by (simp add: write32_padded)

lemma length_write_int [simp]: "length (write_int n) = 32"
  by (simp add: write_int_def)

lemma be_val_zeros [simp]: "be_val (zeros k @ bs) = be_val bs"
  by (induction k) (simp_all add: be_val_def zeros_def)

lemma be_val_Cons: "be_val (c # cs) = of_char c * 256 ^ length cs + be_val cs"
proof -
  have "foldl (\<lambda>a c. 256 * a + of_char c) a cs = a * 256 ^ length cs + foldl (\<lambda>a c. 256 * a + of_char c) 0 cs" for a :: nat
  proof (induction cs arbitrary: a)
    case (Cons c cs)
    show ?case using Cons.IH [of "256 * a + of_char c"] Cons.IH [of "of_char c"] by (simp add: algebra_simps)
  qed simp
  from this [of "of_char c"] show ?thesis by (simp add: be_val_def)
qed

lemma be_val_write_int: "n < 2 ^ 64 \<Longrightarrow> be_val (write_int n) = n"
  by (simp add: write_int_def write32_padded unat_of_nat take_bit_eq_mod)

lemma word_at_skip: "word_at (a @ d) (length a + k) = word_at d k"
  by (simp add: word_at_def)

lemma word_at_0: "length w = 32 \<Longrightarrow> word_at (w @ d) 0 = Some w"
  by (simp add: word_at_def)

lemma reads_skip:
  assumes "n = length a"
  shows "word_at (a @ d) (n + k) = word_at d k" and "uint_at (a @ d) (n + k) = uint_at d k"
    and "address_at (a @ d) (n + k) = address_at d k" and "bytes_at (a @ d) (n + k) = bytes_at d k"
  using assms
  by (simp_all add: word_at_skip uint_at_def address_at_def bytes_at_def add.assoc split: option.split)

lemma uint_at_0: "n < 2 ^ 64 \<Longrightarrow> uint_at (write_int n @ d) 0 = Some n"
  by (simp add: uint_at_def word_at_0 be_val_write_int)

lemma address_at_0: "length a = 20 \<Longrightarrow> address_at (write32 a @ d) 0 = Some a"
  using word_at_0 [of "write32 a" d] by (simp add: address_at_def write32_padded)

lemma bytes_at_0:
  "length b < 2 ^ 64 \<Longrightarrow> length b \<le> length pad \<Longrightarrow> bytes_at ((write_int (length b) @ go_copy pad b) @ d) 0 = Some b"
  by (simp add: bytes_at_def uint_at_0 go_copy_def)

lemma opt_map_Some: "(\<And>i. i < n \<Longrightarrow> f i = Some (g i)) \<Longrightarrow> opt_map f [0..<n] = Some (map g [0..<n])"
proof -
  have "(\<And>x. x \<in> set xs \<Longrightarrow> f x = Some (g x)) \<Longrightarrow> opt_map f xs = Some (map g xs)" for xs
    by (induction xs) auto
  from this [of "[0..<n]"] show "(\<And>i. i < n \<Longrightarrow> f i = Some (g i)) \<Longrightarrow> opt_map f [0..<n] = Some (map g [0..<n])"
    by simp
qed

lemma opt_map_None: "x \<in> set xs \<Longrightarrow> f x = None \<Longrightarrow> opt_map f xs = None"
  by (induction xs) (auto split: option.split)

text \<open>The element \<open>i\<close> of a sequence of blocks of equal size.\<close>

lemma length_blocks:
  "(\<And>x. x \<in> set xs \<Longrightarrow> length (f x) = k) \<Longrightarrow> length (concat (map f xs)) = k * length xs"
  by (induction xs) auto

lemma concat_blocks:
  assumes "\<And>x. x \<in> set xs \<Longrightarrow> length (f x) = k" "i < length xs"
  obtains a b where "concat (map f xs) = a @ f (xs ! i) @ b" "length a = k * i"
proof
  have "concat (map f xs) = concat (map f (take i xs @ xs ! i # drop (Suc i) xs))"
    by (rule arg_cong [OF id_take_nth_drop [OF assms(2)]])
  also have "\<dots> = concat (map f (take i xs)) @ f (xs ! i) @ concat (map f (drop (Suc i) xs))"
    by simp
  finally show "concat (map f xs) = concat (map f (take i xs)) @ f (xs ! i) @ concat (map f (drop (Suc i) xs))" .
  show "length (concat (map f (take i xs))) = k * i"
    by (subst length_blocks [of _ _ k]) (use assms in \<open>auto dest: in_set_takeD\<close>)
qed

lemma reads_block:
  assumes "\<And>x. x \<in> set xs \<Longrightarrow> length (f x) = k" "i < length xs"
  obtains b where "uint_at (concat (map f xs) @ d) (k * i + j) = uint_at (f (xs ! i) @ b) j"
    "address_at (concat (map f xs) @ d) (k * i + j) = address_at (f (xs ! i) @ b) j"
    "bytes_at (concat (map f xs) @ d) (k * i + j) = bytes_at (f (xs ! i) @ b) j"
    "length b \<le> length (concat (map f xs) @ d)"
proof -
  obtain a b where c: "concat (map f xs) = a @ f (xs ! i) @ b" "length a = k * i"
    by (rule concat_blocks [of xs f k i]) (use assms in auto)
  show thesis
    by (rule that [of "b @ d"]) (simp_all add: c reads_skip [OF c(2) [symmetric]])
qed

section \<open>The layout\<close>

definition args_head :: "uint64 \<Rightarrow> bytes \<Rightarrow> bytes \<Rightarrow> nat \<Rightarrow> bytes" where
  "args_head epoch blockHash valSetHash n =
    write32 (be64 epoch) @ blockHash @ valSetHash @ write_int 160 @ write_int (192 + 32 * n)"

definition sig_block :: "bytes \<times> bytes \<Rightarrow> bytes" where
  "sig_block p = write_int 65 @ go_copy (zeros 96) (snd p)"

definition args_tail :: "(bytes \<times> bytes) list \<Rightarrow> bytes" where
  "args_tail ps = write_int (length ps) @
     concat (map (\<lambda>i. write_int (32 + 32 * length ps + 128 * i)) [0..<length ps]) @ concat (map sig_block ps)"

definition args :: "uint64 \<Rightarrow> bytes \<Rightarrow> bytes \<Rightarrow> (bytes \<times> bytes) list \<Rightarrow> bytes" where
  "args epoch blockHash valSetHash ps =
    args_head epoch blockHash valSetHash (length ps) @
    (write_int (length ps) @ concat (map (\<lambda>p. write32 (fst p)) ps)) @ args_tail ps"

lemma encode_args:
  assumes "go_sort sort_slice" "length signers = length sigs"
  shows "encodeSubmitCheckpoint keccak sort_slice epoch blockHash valSetHash signers sigs =
    Inr (submitCheckpointSelector keccak @ args epoch blockHash valSetHash (sort_slice paired_less (zip signers sigs)))"
proof -
  have "length (sort_slice paired_less (zip signers sigs)) = length signers"
    using go_sort.length_sort [OF assms(1)] assms(2) by simp
  then show ?thesis
    using assms(2)
    by (simp add: encodeSubmitCheckpoint_def Let_def args_def args_head_def args_tail_def sig_block_def [abs_def]
        sigDataPaddedSize_def algebra_simps)
qed

lemma length_sig_block [simp]: "length (sig_block p) = 128"
  by (simp add: sig_block_def)

definition fits :: "(bytes \<times> bytes) list \<Rightarrow> bool" where
  "fits ps \<longleftrightarrow> length ps < 2 ^ 32 \<and> list_all (\<lambda>(a, sg). length a = 20 \<and> length sg = 65) ps"

lemma fitsD: "fits ps \<Longrightarrow> p \<in> set ps \<Longrightarrow> length (fst p) = 20 \<and> length (snd p) = 65"
  by (auto simp: fits_def list_all_iff)

lemma signers_decode:
  assumes "fits ps" "length h = 160"
  shows "array_at address_at (h @ (write_int (length ps) @ concat (map (\<lambda>p. write32 (fst p)) ps)) @ t) 160 = Some (map fst ps)"
proof -
  let ?d = "h @ (write_int (length ps) @ concat (map (\<lambda>p. write32 (fst p)) ps)) @ t"
  have n: "uint_at ?d 160 = Some (length ps)"
    using reads_skip(2) [OF assms(2) [symmetric], of _ 0] uint_at_0 assms(1) by (simp add: fits_def)
  have "address_at ?d (160 + 32 + 32 * i) = Some (fst (ps ! i))" if i: "i < length ps" for i
  proof -
    have "length (write32 (fst p)) = 32" if "p \<in> set ps" for p using fitsD [OF assms(1) that] by simp
    then obtain b where "address_at (concat (map (\<lambda>p. write32 (fst p)) ps) @ t) (32 * i + 0) =
        address_at (write32 (fst (ps ! i)) @ b) 0"
      using reads_block [of ps "\<lambda>p. write32 (fst p)" 32 i t 0] i by blast
    moreover have "length (fst (ps ! i)) = 20" using fitsD [OF assms(1)] i by simp
    ultimately show ?thesis
      using reads_skip(3) [OF assms(2) [symmetric], of _ "32 + 32 * i"] reads_skip(3) [of 32 "write_int (length ps)" _ "32 * i"]
      by (simp add: address_at_0 add.assoc)
  qed
  then have "opt_map (\<lambda>i. address_at ?d (160 + 32 + 32 * i)) [0..<length ps] = Some (map (\<lambda>i. fst (ps ! i)) [0..<length ps])"
    by (rule opt_map_Some)
  moreover have "map (\<lambda>i. fst (ps ! i)) [0..<length ps] = map fst ps" by (rule nth_equalityI) simp_all
  ultimately show ?thesis unfolding array_at_def n by simp
qed

text \<open>Reading in the part for the signatures: the offset of element \<open>i\<close>, and its block.\<close>

lemma tail_offset:
  assumes "fits ps" "i < length ps"
  shows "uint_at (args_tail ps) (32 + 32 * i) = Some (32 + 32 * length ps + 128 * i)"
proof -
  let ?f = "\<lambda>i. write_int (32 + 32 * length ps + 128 * i)"
  obtain b where "uint_at (concat (map ?f [0..<length ps]) @ concat (map sig_block ps)) (32 * i + 0) = uint_at (?f ([0..<length ps] ! i) @ b) 0"
    by (rule reads_block [of "[0..<length ps]" ?f 32 i "concat (map sig_block ps)" 0]) (use assms(2) in auto)
  moreover have "32 + 32 * length ps + 128 * i < 2 ^ 64" using assms by (simp add: fits_def)
  ultimately show ?thesis
    using assms(2) reads_skip(2) [of 32 "write_int (length ps)" _ "32 * i"] by (simp add: args_tail_def uint_at_0)
qed

lemma tail_block:
  assumes "i < length ps"
  obtains b where "bytes_at (args_tail ps) (32 + 32 * length ps + 128 * i + j) = bytes_at (sig_block (ps ! i) @ b) j"
    "length b \<le> length (args_tail ps)"
proof -
  let ?f = "\<lambda>i. write_int (32 + 32 * length ps + 128 * i)"
  let ?a = "write_int (length ps) @ concat (map ?f [0..<length ps])"
  have len: "32 + 32 * length ps = length ?a" using length_blocks [of "[0..<length ps]" ?f 32] by simp
  obtain b where b: "bytes_at (concat (map sig_block ps) @ []) (128 * i + j) = bytes_at (sig_block (ps ! i) @ b) j"
    "length b \<le> length (concat (map sig_block ps) @ [])"
    by (rule reads_block [of ps sig_block 128 i "[]" j]) (use assms in auto)
  have t: "args_tail ps = ?a @ concat (map sig_block ps)" by (simp add: args_tail_def)
  show thesis
    using b reads_skip(4) [OF len, of "concat (map sig_block ps)" "128 * i + j"]
    by (intro that [of b]) (simp_all add: t add.assoc)
qed

lemma length_args_head: "length blockHash = 32 \<Longrightarrow> length valSetHash = 32 \<Longrightarrow> length (args_head epoch blockHash valSetHash n) = 160"
  by (simp add: args_head_def)

lemma tail_count: "fits ps \<Longrightarrow> uint_at (args_tail ps) 0 = Some (length ps)"
  by (simp add: args_tail_def uint_at_0 fits_def)

lemma element_skip: "n = length a \<Longrightarrow> element_at (n + base) (a @ d) (n + k) = element_at base d k"
  by (simp add: element_at_def reads_skip add.assoc split: option.split)

lemma array_skip:
  assumes "n = length a" "\<And>k. elem (a @ d) (n + k) = elem' d k"
  shows "array_at elem (a @ d) n = array_at elem' d 0"
  using assms(2) reads_skip(2) [OF assms(1), of d 0] by (simp add: array_at_def add.assoc split: option.split)

lemma decode_args:
  assumes "fits ps" "length blockHash = 32" "length valSetHash = 32"
  shows "decode_submit rel (args epoch blockHash valSetHash ps) =
    map_option (\<lambda>sigs. (unat epoch, blockHash, valSetHash, map fst ps, sigs)) (array_at (element_at rel) (args_tail ps) 0)"
proof -
  let ?h = "args_head epoch blockHash valSetHash (length ps)"
  let ?s = "write_int (length ps) @ concat (map (\<lambda>p. write32 (fst p)) ps)"
  let ?d = "args epoch blockHash valSetHash ps"
  have d: "?d = ?h @ ?s @ args_tail ps" "?d = (?h @ ?s) @ args_tail ps" by (simp_all add: args_def)
  have h: "length ?h = 160" by (rule length_args_head [OF assms(2,3)])
  have n: "192 + 32 * length ps < 2 ^ 64" using assms(1) by (simp add: fits_def)
  have hs: "192 + 32 * length ps = length (?h @ ?s)"
    using h length_blocks [of ps "\<lambda>p. write32 (fst p)" 32] fitsD [OF assms(1)] by simp
  have w: "uint_at (write32 (be64 epoch) @ x) 0 = Some (unat epoch)" for x
    using word_at_0 [of "write32 (be64 epoch)" x] by (simp add: uint_at_def write32_padded)
  note skips = reads_skip(1,2) [of 32 "write32 (be64 epoch)"] reads_skip(1,2) [of 32 blockHash] reads_skip(2) [of 32 valSetHash]
    reads_skip(2) [of 32 "write_int 160"]
  have 0: "uint_at ?d 0 = Some (unat epoch)" by (simp add: args_def args_head_def w)
  have 1: "word_at ?d 32 = Some blockHash"
    using skips(1) [of _ 0] assms(2) by (simp add: args_def args_head_def word_at_0)
  have 2: "word_at ?d 64 = Some valSetHash"
    using skips(1) [of _ "32 + 0"] skips(3) [of _ 0] assms(2,3) by (simp add: args_def args_head_def word_at_0)
  have 3: "uint_at ?d 96 = Some 160"
    using skips(2) [of _ "32 + (32 + 0)"] skips(4) [of _ "32 + 0"] skips(5) [of _ 0] assms(2,3)
    by (simp add: args_def args_head_def uint_at_0)
  have 4: "uint_at ?d 128 = Some (192 + 32 * length ps)"
    using skips(2) [of _ "32 + (32 + (32 + 0))"] skips(4) [of _ "32 + (32 + 0)"] skips(5) [of _ "32 + 0"] skips(6) [of _ 0]
      assms(2,3) n by (simp add: args_def args_head_def uint_at_0)
  have 5: "array_at address_at ?d 160 = Some (map fst ps)"
    unfolding d(1) by (rule signers_decode [OF assms(1) h])
  have 6: "array_at (element_at (192 + 32 * length ps + rel)) ?d (192 + 32 * length ps) = array_at (element_at rel) (args_tail ps) 0"
    unfolding d(2) by (rule array_skip [OF hs]) (rule element_skip [OF hs])
  show ?thesis unfolding decode_submit_def 0 1 2 3 4 by (simp add: 5 6 split: option.split)
qed

lemma sigs_decode:
  assumes "fits ps"
  shows "array_at (element_at 0) (args_tail ps) 0 = Some (map snd ps)"
proof -
  have "element_at 0 (args_tail ps) (0 + 32 + 32 * i) = Some (snd (ps ! i))" if i: "i < length ps" for i
  proof -
    obtain b where b: "bytes_at (args_tail ps) (32 + 32 * length ps + 128 * i + 0) = bytes_at (sig_block (ps ! i) @ b) 0"
      using tail_block [OF i] by blast
    have l: "length (snd (ps ! i)) = 65" using fitsD [OF assms] i by simp
    then have "bytes_at (sig_block (ps ! i) @ b) 0 = Some (snd (ps ! i))"
      using bytes_at_0 [of "snd (ps ! i)" "zeros 96" b] by (simp add: sig_block_def)
    with b i show ?thesis by (simp add: element_at_def tail_offset [OF assms])
  qed
  then have "opt_map (\<lambda>i. element_at 0 (args_tail ps) (0 + 32 + 32 * i)) [0..<length ps] =
      Some (map (\<lambda>i. snd (ps ! i)) [0..<length ps])"
    by (rule opt_map_Some)
  moreover have "map (\<lambda>i. snd (ps ! i)) [0..<length ps] = map snd ps" by (rule nth_equalityI) simp_all
  ultimately show ?thesis unfolding array_at_def tail_count [OF assms] by simp
qed

text \<open>With the offsets measured as the ABI says, the first word of a signature is read as its length.\<close>

lemma length_args_tail: "length (args_tail ps) = 32 + 160 * length ps"
  using length_blocks [of "[0..<length ps]" "\<lambda>i. write_int (32 + 32 * length ps + 128 * i)" 32]
    length_blocks [of ps sig_block 128] by (simp add: args_tail_def)

lemma sigs_decode_abi:
  assumes "fits ps" "ps \<noteq> []" "2 ^ 64 \<le> be_val (take 32 (snd (hd ps)))"
  shows "array_at (element_at 32) (args_tail ps) 0 = None"
proof -
  have i: "0 < length ps" using assms(2) by simp
  obtain b where b: "bytes_at (args_tail ps) (32 + 32 * length ps + 128 * 0 + 32) = bytes_at (sig_block (ps ! 0) @ b) 32"
    "length b \<le> length (args_tail ps)"
    by (rule tail_block [OF i])
  have l: "length (snd (ps ! 0)) = 65" using fitsD [OF assms(1)] i by simp
  then have "uint_at (sig_block (ps ! 0) @ b) 32 = Some (be_val (take 32 (snd (ps ! 0))))"
    using reads_skip(2) [of 32 "write_int 65" _ 0] by (simp add: sig_block_def uint_at_def word_at_def go_copy_def)
  moreover have "64 + length b < 2 ^ 64" using b(2) assms(1) by (simp add: length_args_tail fits_def)
  ultimately have "bytes_at (sig_block (ps ! 0) @ b) 32 = None"
    using assms(2,3) by (simp add: bytes_at_def hd_conv_nth)
  with b(1) have "element_at 32 (args_tail ps) 32 = None"
    using tail_offset [OF assms(1) i] by (simp add: element_at_def add.commute)
  then have "opt_map (\<lambda>i. element_at 32 (args_tail ps) (0 + 32 + 32 * i)) [0..<length ps] = None"
    using i by (intro opt_map_None [of 0]) simp_all
  then show ?thesis by (simp add: array_at_def tail_count [OF assms(1)])
qed

section \<open>Properties\<close>

definition ordered_pairs :: "bytes list \<Rightarrow> bytes list \<Rightarrow> (bytes \<times> bytes) list \<Rightarrow> bool" where
  "ordered_pairs signers sigs ps \<longleftrightarrow> mset ps = mset (zip signers sigs) \<and> sorted (map fst ps)"

lemma sort_ordered:
  assumes "go_sort sort_slice"
  shows "ordered_pairs signers sigs (sort_slice paired_less (zip signers sigs))"
proof -
  have "strict_weak paired_less A" for A by (auto simp: strict_weak_def paired_less_def)
  then have "sorted_wrt (\<lambda>x y. \<not> paired_less y x) (sort_slice paired_less (zip signers sigs))"
    by (rule go_sort.sorted_sort [OF assms])
  then have "sorted (map fst (sort_slice paired_less (zip signers sigs)))"
    by (simp add: sorted_wrt_map paired_less_def not_less)
  then show ?thesis by (simp add: ordered_pairs_def go_sort.mset_sort [OF assms])
qed

lemma sort_fits:
  assumes "go_sort sort_slice" "length signers = length sigs" "length signers < 2 ^ 32"
    and "\<And>a. a \<in> set signers \<Longrightarrow> length a = 20" "\<And>sg. sg \<in> set sigs \<Longrightarrow> length sg = 65"
  shows "fits (sort_slice paired_less (zip signers sigs))"
  using assms(2-5) go_sort.length_sort [OF assms(1), of paired_less "zip signers sigs"]
    go_sort.set_sort [OF assms(1), of paired_less "zip signers sigs"]
  by (auto simp: fits_def list_all_iff dest: set_zip_leftD set_zip_rightD)

text \<open>C30: The calldata can be read back. With 20-byte addresses, 65-byte signatures and 32-byte hashes,
  the encoder succeeds, the calldata starts with the selector, and a decoder that measures the element offsets
  from the length word of the \<open>bytes[]\<close> array gets back the epoch, both hashes, and the signers in
  ascending order, each with its own signature. A different number of signers and signatures is an error.\<close>

theorem calldata_roundtrip:
  assumes "go_sort sort_slice" and "length blockHash = 32" and "length valSetHash = 32"
    and "length signers < 2 ^ 32" and "list_all (\<lambda>a. length a = 20) signers" and "list_all (\<lambda>sg. length sg = 65) sigs"
  shows "case encodeSubmitCheckpoint keccak sort_slice epoch blockHash valSetHash signers sigs of
      Inl e \<Rightarrow> length signers \<noteq> length sigs
    | Inr call \<Rightarrow> length signers = length sigs \<and> take 4 call = submitCheckpointSelector keccak \<and>
        (\<exists>ps. ordered_pairs signers sigs ps \<and>
           decode_submit 0 (drop 4 call) = Some (unat epoch, blockHash, valSetHash, map fst ps, map snd ps))"
proof (cases "length signers = length sigs")
  case True
  let ?ps = "sort_slice paired_less (zip signers sigs)"
  have fit: "fits ?ps" by (rule sort_fits [OF assms(1) True assms(4)]) (use assms(5,6) in \<open>simp_all add: list_all_iff\<close>)
  have "length (submitCheckpointSelector keccak) = 4" by (simp add: submitCheckpointSelector_def)
  with True show ?thesis
    using sort_ordered [OF assms(1)]
    by (auto simp: encode_args [OF assms(1) True] decode_args [OF fit assms(2,3)] sigs_decode [OF fit])
qed (simp add: encodeSubmitCheckpoint_def)

theorem calldata_roundtrip_witness:
  "\<exists>call ps. encodeSubmitCheckpoint pad_hash insertion_sort 7 (zeros 32) (zeros 32)
      [replicate 20 (CHR ''b''), replicate 20 (CHR ''a'')] [replicate 65 (CHR ''1''), replicate 65 (CHR ''2'')] = Inr call \<and>
    ordered_pairs [replicate 20 (CHR ''b''), replicate 20 (CHR ''a'')] [replicate 65 (CHR ''1''), replicate 65 (CHR ''2'')] ps \<and>
    decode_submit 0 (drop 4 call) = Some (7, zeros 32, zeros 32, map fst ps, map snd ps)"
  using calldata_roundtrip [OF insertion.go_sort_axioms, of "zeros 32" "zeros 32"
      "[replicate 20 (CHR ''b''), replicate 20 (CHR ''a'')]" "[replicate 65 (CHR ''1''), replicate 65 (CHR ''2'')]" pad_hash 7]
  by (auto split: sum.splits)

text \<open>C31: The calldata is not what the contract reads. The ABI measures the offsets of the elements of
  a \<open>bytes[]\<close> from behind its length word, but the encoder counts the length word as well, so every offset
  is 32 too large and the first word of a signature (its \<open>r\<close>) is read as the length. A decoder that follows
  the ABI rejects the calldata of every checkpoint with at least one signature, unless \<open>r\<close> happens to
  be below \<open>2 ^ 64\<close>.\<close>

theorem calldata_rejected_by_abi:
  assumes "go_sort sort_slice" and "length blockHash = 32" and "length valSetHash = 32"
    and "length signers < 2 ^ 32" and "list_all (\<lambda>a. length a = 20) signers" and "list_all (\<lambda>sg. length sg = 65) sigs"
    and "signers \<noteq> []" and "list_all (\<lambda>sg. 2 ^ 64 \<le> be_val (take 32 sg)) sigs"
    and "encodeSubmitCheckpoint keccak sort_slice epoch blockHash valSetHash signers sigs = Inr call"
  shows "decode_submit 32 (drop 4 call) = None"
proof -
  have True: "length signers = length sigs"
    using assms(9) by (simp add: encodeSubmitCheckpoint_def split: if_splits)
  let ?ps = "sort_slice paired_less (zip signers sigs)"
  have fit: "fits ?ps" by (rule sort_fits [OF assms(1) True assms(4)]) (use assms(5,6) in \<open>simp_all add: list_all_iff\<close>)
  have "length ?ps = length signers" using go_sort.length_sort [OF assms(1)] True by simp
  then have ne: "?ps \<noteq> []" using assms(7) by auto
  then have "hd ?ps \<in> set (zip signers sigs)" using go_sort.set_sort [OF assms(1)] by (metis hd_in_set)
  then have "2 ^ 64 \<le> be_val (take 32 (snd (hd ?ps)))"
    using assms(8) by (metis list_all_iff prod.collapse set_zip_rightD)
  then have "decode_submit 32 (args epoch blockHash valSetHash ?ps) = None"
    by (simp add: decode_args [OF fit assms(2,3)] sigs_decode_abi [OF fit ne])
  moreover have "drop 4 call = args epoch blockHash valSetHash ?ps"
    using assms(9) by (auto simp: encode_args [OF assms(1) True] submitCheckpointSelector_def)
  ultimately show ?thesis by simp
qed

theorem calldata_rejected_by_abi_witness:
  "\<exists>call. encodeSubmitCheckpoint pad_hash insertion_sort 7 (zeros 32) (zeros 32)
      [replicate 20 (CHR ''a'')] [replicate 65 (CHR ''1'')] = Inr call \<and> decode_submit 32 (drop 4 call) = None"
proof -
  let ?e = "encodeSubmitCheckpoint pad_hash insertion_sort 7 (zeros 32) (zeros 32) [replicate 20 (CHR ''a'')] [replicate 65 (CHR ''1'')]"
  have r: "take 32 (replicate 65 (CHR ''1'')) = replicate 32 (CHR ''1'')" by simp
  have "be_val (CHR ''1'' # replicate 31 (CHR ''1'')) \<ge> 49 * 256 ^ 31" by (simp add: be_val_Cons)
  then have v: "2 ^ 64 \<le> be_val (replicate 32 (CHR ''1''))"
    by (simp add: replicate_Suc [symmetric] del: replicate_Suc)
  obtain call where "?e = Inr call" by (simp add: encode_args [OF insertion.go_sort_axioms])
  with calldata_rejected_by_abi [OF insertion.go_sort_axioms, of "zeros 32" "zeros 32" "[replicate 20 (CHR ''a'')]"
      "[replicate 65 (CHR ''1'')]" pad_hash 7 call] v r
  show ?thesis by auto
qed

end
