(* ===== verification/Relayer.thy ===== *)
theory Relayer
  imports Abi Types
begin

text \<open>
  The relayer, after \<open>cmd/relayer/relayer.go\<close>: the key and block parsers, one poll, the polling loop, and
  the submitter that sends the calldata over JSON-RPC. What the program talks to is a state of type
  \<open>'w\<close> that only the parameters read and change: the HTTP client (\<open>http_api\<close>), the submitter that
  \<open>poll\<close> calls, and what happens to the world between two ticks. A response body has two readings, the
  whole body (\<open>io.ReadAll\<close> and \<open>json.Unmarshal\<close>) and its first JSON value (\<open>json.Decoder\<close>).
  The loop runs until its context is cancelled, so it is a function of the number of ticks before that.
\<close>

section \<open>Parsing\<close>

definition ParseHexKey :: "string \<Rightarrow> error + bytes" where
  "ParseHexKey hexStr =
    (case hex_DecodeString hexStr of
       None \<Rightarrow> Inl (Errorf ''hex decode: %w'' [AErr ErrHex])
     | Some b \<Rightarrow> if length b \<noteq> 32 then Inl (Errorf ''key must be 32 bytes, got %d'' [ALen (length b)]) else Inr b)"

text \<open>\<open>fmt.Sscanf(s, "%d", &height)\<close> into an unsigned 64-bit variable that is 0 before: leading white
  space (the encodings of the runes \<open>fmt\<close> treats as space) is skipped, a newline ends the scan, the longest run of
  digits is converted, whatever follows is ignored, and on every failure the variable keeps its value.\<close>

definition space_runes :: "string list" where
  "space_runes =
    [[CHR 0x09], [CHR 0x0B], [CHR 0x0C], [CHR 0x0D], [CHR 0x20], [CHR 0xC2, CHR 0x85], [CHR 0xC2, CHR 0xA0],
     [CHR 0xE1, CHR 0x9A, CHR 0x80],
     [CHR 0xE2, CHR 0x80, CHR 0x80], [CHR 0xE2, CHR 0x80, CHR 0x81], [CHR 0xE2, CHR 0x80, CHR 0x82],
     [CHR 0xE2, CHR 0x80, CHR 0x83], [CHR 0xE2, CHR 0x80, CHR 0x84], [CHR 0xE2, CHR 0x80, CHR 0x85],
     [CHR 0xE2, CHR 0x80, CHR 0x86], [CHR 0xE2, CHR 0x80, CHR 0x87], [CHR 0xE2, CHR 0x80, CHR 0x88],
     [CHR 0xE2, CHR 0x80, CHR 0x89], [CHR 0xE2, CHR 0x80, CHR 0x8A],
     [CHR 0xE2, CHR 0x80, CHR 0xA8], [CHR 0xE2, CHR 0x80, CHR 0xA9], [CHR 0xE2, CHR 0x80, CHR 0xAF],
     [CHR 0xE2, CHR 0x81, CHR 0x9F], [CHR 0xE3, CHR 0x80, CHR 0x80]]"

definition space_len :: "string \<Rightarrow> nat" where
  "space_len s = (case find (\<lambda>p. prefix p s) space_runes of None \<Rightarrow> 0 | Some p \<Rightarrow> length p)"

lemma space_len_le: "space_len s \<le> length s"
  by (auto simp: space_len_def find_Some_iff prefix_length_le split: option.split)

function SkipSpace :: "string \<Rightarrow> string option" where
  "SkipSpace s =
    (if take 1 s = [CHR 0x0A] then None
     else if space_len s = 0 then Some s
     else SkipSpace (drop (space_len s) s))"
  by pat_completeness auto

termination
proof (relation "measure length")
  fix s :: string
  assume "space_len s \<noteq> 0"
  then show "(drop (space_len s) s, s) \<in> measure length"
    using space_len_le [of s] by simp
qed simp

declare SkipSpace.simps [simp del]

definition Sscanf_uint64 :: "string \<Rightarrow> uint64" where
  "Sscanf_uint64 s =
    (case SkipSpace s of
       None \<Rightarrow> 0
     | Some t \<Rightarrow>
         let tok = takeWhile is_digit t
         in if tok = [] then 0 else if undigits tok < 2 ^ 64 then of_nat (undigits tok) else 0)"

record cmtLastBlockID =
  cb_Hash :: string

definition cmtLastBlockID_fields :: "cmtLastBlockID fields" where
  "cmtLastBlockID_fields = [(''hash'', fld dec_string cb_Hash cb_Hash_update)]"

record cmtHeader =
  cb_Height :: string
  cb_LastBlockID :: cmtLastBlockID

definition cmtHeader_fields :: "cmtHeader fields" where
  "cmtHeader_fields =
    [(''height'', fld dec_string cb_Height cb_Height_update),
     (''last_block_id'', fld (dec_struct cmtLastBlockID_fields) cb_LastBlockID cb_LastBlockID_update)]"

record cmtInner =
  cb_Header :: cmtHeader

definition cmtInner_fields :: "cmtInner fields" where
  "cmtInner_fields = [(''header'', fld (dec_struct cmtHeader_fields) cb_Header cb_Header_update)]"

record cmtResult =
  cb_Block :: cmtInner

definition cmtResult_fields :: "cmtResult fields" where
  "cmtResult_fields = [(''block'', fld (dec_struct cmtInner_fields) cb_Block cb_Block_update)]"

record cmtBlock =
  cb_Result :: cmtResult

definition cmtBlock_fields :: "cmtBlock fields" where
  "cmtBlock_fields = [(''result'', fld (dec_struct cmtResult_fields) cb_Result cb_Result_update)]"

definition zero_cmtBlock :: cmtBlock where
  "zero_cmtBlock = \<lparr>cb_Result = \<lparr>cb_Block = \<lparr>cb_Header = \<lparr>cb_Height = [], cb_LastBlockID = \<lparr>cb_Hash = []\<rparr>\<rparr>\<rparr>\<rparr>\<rparr>"

definition parseBlock :: "raw \<Rightarrow> error + uint64 \<times> string" where
  "parseBlock data =
    (case unmarshal cmtBlock_fields zero_cmtBlock data of
       None \<Rightarrow> Inl ErrJSON
     | Some blk \<Rightarrow>
         let header = cb_Header (cb_Block (cb_Result blk))
         in Inr (Sscanf_uint64 (cb_Height header), cb_Hash (cb_LastBlockID header)))"

definition computeValSetHash :: "hash_fn \<Rightarrow> uint64 \<Rightarrow> bytes" where
  "computeValSetHash keccak epoch = go_copy (zeros 32) (Keccak256 keccak [''valset'', be64 epoch])"

section \<open>HTTP\<close>

record Request =
  q_Method :: string
  q_URL :: string
  q_Body :: raw
  q_ContentType :: string

record Body =
  body_all :: "error + raw"
  body_first :: "error + raw"

record 'w http_api =
  http_NewRequest :: "Request \<Rightarrow> error option"
  http_Do :: "'w \<Rightarrow> Request \<Rightarrow> (error + Body) \<times> 'w"

section \<open>Polling\<close>

record Config =
  cfg_CMTRPCURL :: string
  cfg_EpochSlots :: uint64
  cfg_PrivKey :: bytes
  cfg_PollInterval :: int64

record Relayer =
  r_cfg :: Config
  r_lastEpoch :: uint64

definition relayer_New :: "Config \<Rightarrow> Relayer" where
  "relayer_New cfg =
    \<lparr>r_cfg = (if cfg_PollInterval cfg = 0 then cfg\<lparr>cfg_PollInterval := 5000000000\<rparr> else cfg), r_lastEpoch = 0\<rparr>"

definition latestBlock :: "'w http_api \<Rightarrow> Relayer \<Rightarrow> 'w \<Rightarrow> (error + raw) \<times> 'w" where
  "latestBlock H r w =
    (let req = \<lparr>q_Method = ''GET'', q_URL = cfg_CMTRPCURL (r_cfg r) @ ''/block'', q_Body = None, q_ContentType = []\<rparr>
     in case http_NewRequest H req of
          Some e \<Rightarrow> (Inl e, w)
        | None \<Rightarrow>
            (case http_Do H w req of
               (Inl e, w) \<Rightarrow> (Inl e, w)
             | (Inr body, w) \<Rightarrow> (body_all body, w)))"

type_synonym 'w submitter = "'w \<Rightarrow> Checkpoint \<Rightarrow> bytes list \<Rightarrow> bytes list \<Rightarrow> (error + string) \<times> 'w"

text \<open>A poll returns its error, the epoch and transaction hash it reports as anchored, and the new state.\<close>

definition poll ::
  "hash_fn \<Rightarrow> ('sk, 'pk) secp_api \<Rightarrow> 'w http_api \<Rightarrow> 'w submitter \<Rightarrow> Relayer \<Rightarrow> 'w \<Rightarrow>
    error option \<times> (uint64 \<times> string) option \<times> Relayer \<times> 'w" where
  "poll keccak S H submit r w =
    (case latestBlock H r w of
       (Inl e, w) \<Rightarrow> (Some (Errorf ''latestBlock: %w'' [AErr e]), None, r, w)
     | (Inr blk, w) \<Rightarrow>
         (case parseBlock blk of
            Inl e \<Rightarrow> (Some (Errorf ''parseBlock: %w'' [AErr e]), None, r, w)
          | Inr (height, blockHashHex) \<Rightarrow>
              if cfg_EpochSlots (r_cfg r) = 0 then (Some (GoPanic ''integer divide by zero''), None, r, w)
              else
                let epoch = height div cfg_EpochSlots (r_cfg r) in
                if epoch = 0 \<or> epoch \<le> r_lastEpoch r then (None, None, r, w)
                else
                  (case hex_DecodeString blockHashHex of
                     None \<Rightarrow> (Some (Errorf ''decode blockHash: %w'' [AErr ErrHex]), None, r, w)
                   | Some blockHashBytes \<Rightarrow>
                       let blockHash = go_copy (zeros 32) blockHashBytes;
                           cp = checkpoint_New epoch blockHash (computeValSetHash keccak epoch)
                       in (case checkpoint_Sign keccak S cp (cfg_PrivKey (r_cfg r)) of
                             Inl e \<Rightarrow> (Some (Errorf ''sign: %w'' [AErr e]), None, r, w)
                           | Inr sig \<Rightarrow>
                               let signer = AddressFromPrivKey keccak S (cfg_PrivKey (r_cfg r))
                               in (case submit w cp [signer] [sig] of
                                     (Inl e, w) \<Rightarrow>
                                       (Some (Errorf ''submit epoch %d: %w'' [AInt epoch, AErr e]), None, r, w)
                                   | (Inr txHash, w) \<Rightarrow>
                                       (None, Some (epoch, txHash), r\<lparr>r_lastEpoch := epoch\<rparr>, w))))))"

definition is_panic :: "error option \<Rightarrow> bool" where
  "is_panic e = (case e of Some (GoPanic p) \<Rightarrow> True | _ \<Rightarrow> False)"

text \<open>\<open>Run\<close>: at every tick the world has moved on (\<open>tick\<close>) and one poll runs; its error is printed
  and the loop continues, except after a panic, which ends the program. The result is the list of anchored epochs
  with their transactions, and the final state.\<close>

fun Run ::
  "hash_fn \<Rightarrow> ('sk, 'pk) secp_api \<Rightarrow> 'w http_api \<Rightarrow> 'w submitter \<Rightarrow> ('w \<Rightarrow> 'w) \<Rightarrow> nat \<Rightarrow> Relayer \<Rightarrow> 'w \<Rightarrow>
    (uint64 \<times> string) list \<times> Relayer \<times> 'w" where
  "Run keccak S H submit tick 0 r w = ([], r, w)"
| "Run keccak S H submit tick (Suc n) r w =
    (case poll keccak S H submit r (tick w) of
       (err, anchored, r, w) \<Rightarrow>
         if is_panic err then ([], r, w)
         else (case Run keccak S H submit tick n r w of
                 (rest, r, w) \<Rightarrow> ((case anchored of None \<Rightarrow> rest | Some x \<Rightarrow> x # rest), r, w)))"

section \<open>The JSON-RPC submitter\<close>

record HTTPSubmitter =
  hs_l1RPCURL :: string
  hs_contractAddr :: string

definition NewHTTPSubmitter :: "string \<Rightarrow> string \<Rightarrow> HTTPSubmitter" where
  "NewHTTPSubmitter l1RPCURL contractAddr = \<lparr>hs_l1RPCURL = l1RPCURL, hs_contractAddr = contractAddr\<rparr>"

record rpc_error =
  re_Message :: string

definition rpc_error_fields :: "rpc_error fields" where
  "rpc_error_fields = [(''message'', fld dec_string re_Message re_Message_update)]"

record rpc_result =
  rr_Result :: string
  rr_Error :: "rpc_error option"

definition rpc_result_fields :: "rpc_result fields" where
  "rpc_result_fields =
    [(''result'', fld dec_string rr_Result rr_Result_update),
     (''error'', fld (dec_ptr rpc_error_fields \<lparr>re_Message = []\<rparr>) rr_Error rr_Error_update)]"

text \<open>A Go map is printed with its keys in order.\<close>

definition rpc_body :: "json \<Rightarrow> json" where
  "rpc_body params =
    JObj [(''id'', JInt 1), (''jsonrpc'', JStr ''2.0''), (''method'', JStr ''eth_sendTransaction''), (''params'', JArr [params])]"

definition ethSendTransaction :: "'w http_api \<Rightarrow> HTTPSubmitter \<Rightarrow> 'w \<Rightarrow> json \<Rightarrow> (error + string) \<times> 'w" where
  "ethSendTransaction H s w params =
    (let req = \<lparr>q_Method = ''POST'', q_URL = hs_l1RPCURL s, q_Body = Some (rpc_body params),
               q_ContentType = ''application/json''\<rparr>
     in case http_NewRequest H req of
          Some e \<Rightarrow> (Inl e, w)
        | None \<Rightarrow>
            (case http_Do H w req of
               (Inl e, w) \<Rightarrow> (Inl e, w)
             | (Inr body, w) \<Rightarrow>
                 (case body_first body of
                    Inl e \<Rightarrow> (Inl (Errorf ''decode response: %w'' [AErr e]), w)
                  | Inr data \<Rightarrow>
                      (case unmarshal rpc_result_fields \<lparr>rr_Result = [], rr_Error = None\<rparr> data of
                         None \<Rightarrow> (Inl (Errorf ''decode response: %w'' [AErr ErrJSON]), w)
                       | Some result \<Rightarrow>
                           (case rr_Error result of
                              Some e \<Rightarrow> (Inl (Errorf ''rpc error: %s'' [AStr (re_Message e)]), w)
                            | None \<Rightarrow> (Inr (rr_Result result), w))))))"

definition tx_params :: "HTTPSubmitter \<Rightarrow> bytes \<Rightarrow> json" where
  "tx_params s calldata =
    JObj [(''data'', JStr (''0x'' @ hex_EncodeToString calldata)), (''gas'', JStr ''0x100000''), (''to'', JStr (hs_contractAddr s))]"

definition HTTPSubmitter_Submit ::
  "hash_fn \<Rightarrow> ((bytes \<times> bytes \<Rightarrow> bytes \<times> bytes \<Rightarrow> bool) \<Rightarrow> (bytes \<times> bytes) list \<Rightarrow> (bytes \<times> bytes) list) \<Rightarrow>
    'w http_api \<Rightarrow> HTTPSubmitter \<Rightarrow> 'w submitter" where
  "HTTPSubmitter_Submit keccak sort_slice H s w cp signers sigs =
    (case encodeSubmitCheckpoint keccak sort_slice (cp_Epoch cp) (cp_BlockHash cp) (cp_ValidatorSetHash cp) signers sigs of
       Inl e \<Rightarrow> (Inl (Errorf ''encode calldata: %w'' [AErr e]), w)
     | Inr calldata \<Rightarrow>
         ethSendTransaction H s w (tx_params s calldata))"

section \<open>Start\<close>

text \<open>\<open>main\<close> after \<open>flag.Parse\<close>: the flags are checked and the submitter and the relayer are set up; \<open>Inl\<close>
  is the message before exit code 1.\<close>

record relayer_flags =
  fl_cmt :: string
  fl_l1 :: string
  fl_contract :: string
  fl_key :: string
  fl_epoch_slots :: uint64

definition relayer_main :: "relayer_flags \<Rightarrow> error + HTTPSubmitter \<times> Relayer" where
  "relayer_main fl =
    (if fl_contract fl = [] \<or> fl_key fl = [] then Inl (Errorf ''error: --contract and --key are required'' [])
     else
       (case ParseHexKey (fl_key fl) of
          Inl e \<Rightarrow> Inl (Errorf ''error: bad --key: %v'' [AErr e])
        | Inr privKey \<Rightarrow>
            Inr (NewHTTPSubmitter (fl_l1 fl) (fl_contract fl),
                 relayer_New \<lparr>cfg_CMTRPCURL = fl_cmt fl, cfg_EpochSlots = fl_epoch_slots fl, cfg_PrivKey = privKey,
                              cfg_PollInterval = 5000000000\<rparr>)))"

section \<open>Scanning the height\<close>

text \<open>No space is a prefix of another one, so the first match is the only one; none is empty or starts with a newline
  or a digit.\<close>

lemma space_runes_prefix_free: "list_all (\<lambda>p. list_all (\<lambda>q. prefix q p \<longrightarrow> q = p) space_runes) space_runes"
  by code_simp

lemma space_runes_heads:
  "list_all (\<lambda>p. p \<noteq> [] \<and> take 1 p \<noteq> [CHR 0x0A] \<and> \<not> is_digit (hd p)) space_runes"
  by code_simp

lemma space_runes_comparable:
  assumes "p \<in> set space_runes" "q \<in> set space_runes" "prefix q (p @ t)"
  shows "q = p"
proof -
  have "prefix p q \<or> prefix q p" using assms(3) prefix_same_cases [of p "p @ t" q] by simp
  then show ?thesis using space_runes_prefix_free assms(1, 2) by (auto simp: list_all_iff)
qed

lemma space_len_rune:
  assumes "p \<in> set space_runes"
  shows "space_len (p @ t) = length p"
proof -
  have "find (\<lambda>q. prefix q (p @ t)) space_runes = Some p"
  proof (cases "find (\<lambda>q. prefix q (p @ t)) space_runes")
    case None
    then show ?thesis using assms by (auto simp: find_None_iff)
  next
    case (Some q)
    then have "q \<in> set space_runes" "prefix q (p @ t)" by (auto simp: find_Some_iff in_set_conv_nth)
    then show ?thesis using space_runes_comparable [OF assms] Some by simp
  qed
  then show ?thesis by (simp add: space_len_def)
qed

lemma space_len_digit:
  assumes "is_digit c"
  shows "space_len (c # t) = 0"
proof -
  have "\<not> prefix p (c # t)" if "p \<in> set space_runes" for p
    using space_runes_heads that assms by (cases p) (auto simp: list_all_iff)
  then have "find (\<lambda>p. prefix p (c # t)) space_runes = None" by (simp add: find_None_iff)
  then show ?thesis by (simp add: space_len_def)
qed

lemma is_digit_digit: "d < 10 \<Longrightarrow> is_digit (digit d)"
  by (simp add: is_digit_def less_eq_char_def of_char_digit)

lemma digits_are_digits: "c \<in> set (digits n) \<Longrightarrow> is_digit c"
  using set_digits is_digit_digit by blast

lemma digits_nonempty: "digits n \<noteq> []"
  by (subst digits.simps) simp

lemma SkipSpace_rune:
  assumes "p \<in> set space_runes"
  shows "SkipSpace (p @ t) = SkipSpace t"
proof -
  have "p \<noteq> []" "take 1 p \<noteq> [CHR 0x0A]" using space_runes_heads assms by (auto simp: list_all_iff)
  then obtain c cs where p: "p = c # cs" "c \<noteq> CHR 0x0A" by (cases p) auto
  then show ?thesis using space_len_rune [OF assms, of t] by (subst SkipSpace.simps) simp
qed

lemma SkipSpace_runes: "set ps \<subseteq> set space_runes \<Longrightarrow> SkipSpace (concat ps @ t) = SkipSpace t"
  by (induction ps) (simp_all add: SkipSpace_rune)

lemma SkipSpace_digit:
  assumes "is_digit c"
  shows "SkipSpace (c # t) = Some (c # t)"
proof -
  have "c \<noteq> CHR 0x0A" using assms by (auto simp: is_digit_def less_eq_char_def)
  with assms show ?thesis by (subst SkipSpace.simps) (simp add: space_len_digit)
qed

lemma SkipSpace_newline: "SkipSpace (CHR 0x0A # t) = None"
  by (subst SkipSpace.simps) simp

lemma Sscanf_digits:
  assumes "set ps \<subseteq> set space_runes" "\<not> (\<exists>c cs. rest = c # cs \<and> is_digit c)"
  shows "Sscanf_uint64 (concat ps @ digits n @ rest) = (if n < 2 ^ 64 then of_nat n else 0)"
proof -
  obtain c cs where c: "digits n = c # cs" "is_digit c"
    using digits_nonempty [of n] digits_are_digits [of _ n] by (cases "digits n") auto
  have "SkipSpace (concat ps @ digits n @ rest) = Some (digits n @ rest)"
    using SkipSpace_digit [OF c(2), of "cs @ rest"] by (simp add: SkipSpace_runes [OF assms(1)] c(1))
  moreover have "takeWhile is_digit rest = []" using assms(2) by (cases rest) auto
  then have "takeWhile is_digit (digits n @ rest) = digits n"
    using digits_are_digits by (simp add: takeWhile_append2)
  ultimately show ?thesis by (simp add: Sscanf_uint64_def digits_nonempty)
qed

section \<open>Polls\<close>

text \<open>Whatever happens, a poll moves the last epoch exactly when it reports an anchored one, and then forward.\<close>

lemma poll_state:
  assumes "poll keccak S H submit r w = (err, anchored, r', w')"
  shows "case anchored of None \<Rightarrow> r' = r
    | Some (epoch, tx) \<Rightarrow> r_lastEpoch r < epoch \<and> err = None \<and> r' = r\<lparr>r_lastEpoch := epoch\<rparr>"
  using assms
  by (auto simp: poll_def Let_def split: prod.splits sum.splits option.splits if_splits)

definition epochs_from :: "uint64 \<Rightarrow> (uint64 \<times> string) list \<Rightarrow> uint64 list" where
  "epochs_from e anchors = e # map fst anchors"

lemma Run_epochs:
  assumes "Run keccak S H submit tick n r w = (anchors, r', w')"
  shows "sorted_wrt (<) (epochs_from (r_lastEpoch r) anchors) \<and>
    r_lastEpoch r' = last (epochs_from (r_lastEpoch r) anchors) \<and> r_cfg r' = r_cfg r"
  using assms
proof (induction n arbitrary: r w anchors r' w')
  case (Suc n)
  obtain err anchored r1 w1 where p: "poll keccak S H submit r (tick w) = (err, anchored, r1, w1)"
    by (metis prod_cases4)
  note st = poll_state [OF p]
  show ?case
  proof (cases "is_panic err")
    case True
    then have "anchored = None" using st by (auto simp: is_panic_def split: option.splits)
    with True p st Suc.prems show ?thesis by (simp add: epochs_from_def)
  next
    case False
    obtain rest r2 w2 where R: "Run keccak S H submit tick n r1 w1 = (rest, r2, w2)" by (metis prod_cases3)
    have IH: "sorted_wrt (<) (epochs_from (r_lastEpoch r1) rest)" "r_lastEpoch r2 = last (epochs_from (r_lastEpoch r1) rest)"
      "r_cfg r2 = r_cfg r1" using Suc.IH [OF R] by simp_all
    have out: "anchors = (case anchored of None \<Rightarrow> rest | Some x \<Rightarrow> x # rest)" "r' = r2"
      using Suc.prems p R False by auto
    show ?thesis
      using IH st out by (cases anchored) (auto simp: epochs_from_def)
  qed
qed (auto simp: epochs_from_def)

section \<open>What a poll submits\<close>

text \<open>What the submitter's answer means for the relayer.\<close>

definition report :: "Relayer \<Rightarrow> uint64 \<Rightarrow> (error + string) \<times> 'w \<Rightarrow> error option \<times> (uint64 \<times> string) option \<times> Relayer \<times> 'w" where
  "report r epoch res =
    (case res of
       (Inl e, w) \<Rightarrow> (Some (Errorf ''submit epoch %d: %w'' [AInt epoch, AErr e]), None, r, w)
     | (Inr tx, w) \<Rightarrow> (None, Some (epoch, tx), r\<lparr>r_lastEpoch := epoch\<rparr>, w))"

definition signs_for :: "hash_fn \<Rightarrow> ('sk, 'pk) secp_api \<Rightarrow> bytes \<Rightarrow> Checkpoint \<Rightarrow> bytes \<Rightarrow> bool" where
  "signs_for keccak S key cp sig \<longleftrightarrow>
    length sig = 65 \<and> RecoverSigner keccak S cp sig = Inr (AddressFromPrivKey keccak S key)"

definition key_ok :: "('sk, 'pk) secp_api \<Rightarrow> bytes \<Rightarrow> bool" where
  "key_ok S key \<longleftrightarrow> length key = 32 \<and> \<not> IsZero S (PrivKeyFromBytes S key)"

lemma length_computeValSetHash [simp]: "length (computeValSetHash keccak epoch) = 32"
  by (simp add: computeValSetHash_def)

lemma poll_submits:
  assumes "secp_ok S" "hash32 keccak" "key_ok S (cfg_PrivKey (r_cfg r))" "cfg_EpochSlots (r_cfg r) \<noteq> 0"
    and "latestBlock H r w = (Inr blk, w1)" "parseBlock blk = Inr (height, hex)"
    and "r_lastEpoch r < height div cfg_EpochSlots (r_cfg r)" "hex_DecodeString hex = Some b"
  obtains sig where
    "signs_for keccak S (cfg_PrivKey (r_cfg r))
       (checkpoint_New (height div cfg_EpochSlots (r_cfg r)) (go_copy (zeros 32) b)
         (computeValSetHash keccak (height div cfg_EpochSlots (r_cfg r)))) sig"
    "poll keccak S H submit r w =
      report r (height div cfg_EpochSlots (r_cfg r))
        (submit w1 (checkpoint_New (height div cfg_EpochSlots (r_cfg r)) (go_copy (zeros 32) b)
          (computeValSetHash keccak (height div cfg_EpochSlots (r_cfg r))))
          [AddressFromPrivKey keccak S (cfg_PrivKey (r_cfg r))] [sig])"
    "checkpoint_Sign keccak S (checkpoint_New (height div cfg_EpochSlots (r_cfg r)) (go_copy (zeros 32) b)
         (computeValSetHash keccak (height div cfg_EpochSlots (r_cfg r)))) (cfg_PrivKey (r_cfg r)) = Inr sig"
proof -
  let ?e = "height div cfg_EpochSlots (r_cfg r)"
  let ?cp = "checkpoint_New ?e (go_copy (zeros 32) b) (computeValSetHash keccak ?e)"
  obtain sig where sig: "checkpoint_Sign keccak S ?cp (cfg_PrivKey (r_cfg r)) = Inr sig" "length sig = 65"
    "RecoverSigner keccak S ?cp sig = Inr (AddressFromPrivKey keccak S (cfg_PrivKey (r_cfg r)))"
    using assms(3) sign_recover [OF assms(1,2)] unfolding key_ok_def by metis
  have e: "\<not> (?e = 0 \<or> ?e \<le> r_lastEpoch r)" using assms(7) by (auto simp: not_le)
  have "poll keccak S H submit r w =
      report r ?e (submit w1 ?cp [AddressFromPrivKey keccak S (cfg_PrivKey (r_cfg r))] [sig])"
    unfolding poll_def report_def Let_def assms(5,6,8) prod.case sum.case option.case sig(1)
    using e assms(4) by simp
  then show thesis using that sig by (simp add: signs_for_def)
qed

lemma poll_waits:
  assumes "cfg_EpochSlots (r_cfg r) \<noteq> 0" "latestBlock H r w = (Inr blk, w1)" "parseBlock blk = Inr (height, hex)"
    and "height div cfg_EpochSlots (r_cfg r) \<le> r_lastEpoch r"
  shows "poll keccak S H submit r w = (None, None, r, w1)"
  using assms by (simp add: poll_def)

text \<open>A relayer started with an epoch size of 0 stops with a division by zero at the first block it reads.\<close>

lemma poll_zero_slots:
  assumes "cfg_EpochSlots (r_cfg r) = 0" "latestBlock H r w = (Inr blk, w1)" "parseBlock blk = Inr (height, hex)"
  shows "poll keccak S H submit r w = (Some (GoPanic ''integer divide by zero''), None, r, w1)"
  using assms by (simp add: poll_def)

text \<open>A relayer that \<open>main\<close> starts has anchored nothing and has a key of the right length, the one of the flag.\<close>

lemma relayer_main_starts:
  assumes "relayer_main fl = Inr (s, r)"
  shows "r_lastEpoch r = 0" "length (cfg_PrivKey (r_cfg r)) = 32" "hex_DecodeString (fl_key fl) = Some (cfg_PrivKey (r_cfg r))"
    "cfg_EpochSlots (r_cfg r) = fl_epoch_slots fl" "hs_contractAddr s \<noteq> []"
  using assms
  by (auto simp: relayer_main_def ParseHexKey_def relayer_New_def NewHTTPSubmitter_def split: if_splits sum.splits option.splits)

lemma copy_zeros: "go_copy (zeros 32) b = take 32 (b @ zeros 32)"
  by (simp add: go_copy_def zeros_def drop_replicate take_replicate min_def)

lemma encode_single:
  assumes "go_sort sort_slice" "length blockHash = 32" "length valSetHash = 32" "length addr = 20" "length sig = 65"
  obtains call where "encodeSubmitCheckpoint keccak sort_slice epoch blockHash valSetHash [addr] [sig] = Inr call"
    "take 4 call = submitCheckpointSelector keccak"
    "decode_submit 0 (drop 4 call) = Some (unat epoch, blockHash, valSetHash, [addr], [sig])"
proof -
  have "mset (sort_slice paired_less (zip [addr] [sig])) = {#(addr, sig)#}" using go_sort.mset_sort [OF assms(1)] by simp
  then have ps: "sort_slice paired_less (zip [addr] [sig]) = [(addr, sig)]" by simp
  have fit: "fits [(addr, sig)]" using assms(4,5) by (simp add: fits_def)
  have "length (submitCheckpointSelector keccak) = 4" by (simp add: submitCheckpointSelector_def)
  then show thesis
    using that encode_args [OF assms(1), of "[addr]" "[sig]" keccak epoch blockHash valSetHash] ps
      decode_args [OF fit assms(2,3), of 0 epoch] sigs_decode [OF fit] by simp
qed

section \<open>What a poll sends\<close>

text \<open>A connection that writes down every request and its answer, and the two kinds of request.\<close>

definition recorded :: "'w http_api \<Rightarrow> ('w \<times> (Request \<times> (error + Body)) list) http_api" where
  "recorded H =
    \<lparr>http_NewRequest = http_NewRequest H,
     http_Do = (\<lambda>(w, l) req. case http_Do H w req of (res, w) \<Rightarrow> (res, (w, l @ [(req, res)])))\<rparr>"

definition block_request :: "Relayer \<Rightarrow> Request" where
  "block_request r = \<lparr>q_Method = ''GET'', q_URL = cfg_CMTRPCURL (r_cfg r) @ ''/block'', q_Body = None, q_ContentType = []\<rparr>"

definition tx_request :: "HTTPSubmitter \<Rightarrow> bytes \<Rightarrow> Request" where
  "tx_request s calldata =
    \<lparr>q_Method = ''POST'', q_URL = hs_l1RPCURL s, q_Body = Some (rpc_body (tx_params s calldata)), q_ContentType = ''application/json''\<rparr>"

text \<open>The transaction hash that an answer reports, if it arrives, can be decoded and has no error; it is empty if the answer
  has no result.\<close>

definition tx_answer :: "error + Body \<Rightarrow> string option" where
  "tx_answer ans =
    (case map_sum id body_first ans of
       Inr (Inr data) \<Rightarrow>
         (case unmarshal rpc_result_fields \<lparr>rr_Result = [], rr_Error = None\<rparr> data of
            Some res \<Rightarrow> if rr_Error res = None then Some (rr_Result res) else None
          | None \<Rightarrow> None)
     | _ \<Rightarrow> None)"

text \<open>An answer that is an object without either field counts as a success with an empty hash.\<close>

lemma tx_answer_empty: "tx_answer (Inr \<lparr>body_all = Inr d, body_first = Inr (Some (JObj []))\<rparr>) = Some []"
  by (simp add: tx_answer_def unmarshal_def dec_struct_JObj)

lemma latestBlock_recorded:
  "latestBlock (recorded H) r (w, l) =
    (case http_NewRequest H (block_request r) of
       Some e \<Rightarrow> (Inl e, (w, l))
     | None \<Rightarrow> (case http_Do H w (block_request r) of
         (Inl e, w) \<Rightarrow> (Inl e, (w, l @ [(block_request r, Inl e)]))
       | (Inr body, w) \<Rightarrow> (body_all body, (w, l @ [(block_request r, Inr body)]))))"
  by (simp add: latestBlock_def recorded_def block_request_def Let_def split: option.split prod.split sum.split)

lemma ethSendTransaction_recorded:
  assumes "http_NewRequest H = (\<lambda>req. None)" "http_Do H w (tx_request s call) = (ans, w')"
  shows "\<exists>err. ethSendTransaction (recorded H) s (w, l) (tx_params s call) =
    (case tx_answer ans of None \<Rightarrow> Inl err | Some tx \<Rightarrow> Inr tx, (w', l @ [(tx_request s call, ans)]))"
  using assms
  by (auto simp: ethSendTransaction_def recorded_def tx_request_def tx_answer_def Let_def split: option.split sum.split)

section \<open>Properties\<close>

text \<open>A node that is always at height 30001, and an Ethereum node that accepts every transaction.\<close>

definition block_response :: "string \<Rightarrow> string \<Rightarrow> json" where
  "block_response height hash =
    JObj [(''jsonrpc'', JStr ''2.0''),
      (''result'', JObj [(''block'', JObj [(''header'', JObj [(''height'', JStr height),
        (''last_block_id'', JObj [(''hash'', JStr hash)])])])])]"

definition example_http :: "unit http_api" where
  "example_http =
    \<lparr>http_NewRequest = (\<lambda>req. None),
     http_Do = (\<lambda>w req.
       let j = (if q_Method req = ''GET'' then block_response (digits 30001) ''AB01'' else JObj [(''result'', JStr ''0x77'')])
       in (Inr \<lparr>body_all = Inr (Some j), body_first = Inr (Some j)\<rparr>, w))\<rparr>"

definition example_relayer :: Relayer where
  "example_relayer = relayer_New \<lparr>cfg_CMTRPCURL = ''http://n'', cfg_EpochSlots = 14400, cfg_PrivKey = pad32 ''k'',
    cfg_PollInterval = 0\<rparr>"

lemma parse_block_response:
  "parseBlock (Some (block_response height hash)) = Inr (Sscanf_uint64 height, hash)"
  by (simp add: parseBlock_def unmarshal_def block_response_def codec_defs cmtBlock_fields_def cmtResult_fields_def
      cmtInner_fields_def cmtHeader_fields_def cmtLastBlockID_fields_def zero_cmtBlock_def)

text \<open>C35: \<open>parseBlock\<close> reads the height. In an answer of the node whose height field is a number in
  decimal, after any white space and before anything that is not a digit, the height is that number if it fits an
  unsigned 64-bit integer and 0 if it does not (the error of \<open>Sscanf\<close> is not looked at), and the block hash is
  returned as it stands.\<close>

theorem parseBlock_height:
  assumes "set ps \<subseteq> set space_runes" and "\<not> (\<exists>c cs. rest = c # cs \<and> is_digit c)"
  shows "parseBlock (Some (block_response (concat ps @ digits n @ rest) hash)) =
    Inr (if n < 2 ^ 64 then of_nat n else 0, hash)"
  by (simp add: parse_block_response Sscanf_digits [OF assms])

theorem parseBlock_height_witness:
  "parseBlock (Some (block_response (concat [[CHR 0x20], [CHR 0xC2, CHR 0xA0]] @ digits 30001 @ ''.5'') ''AB01'')) =
    Inr (30001, ''AB01'')"
proof -
  have "set [[CHR 0x20], [CHR 0xC2, CHR 0xA0]] \<subseteq> set space_runes" by (simp add: space_runes_def)
  moreover have "\<not> (\<exists>c cs. ''.5'' = c # cs \<and> is_digit c)" by (simp add: is_digit_def less_eq_char_def)
  ultimately show ?thesis by (simp add: parseBlock_height del: list.set concat.simps)
qed

text \<open>C33: One poll, on every branch, whatever the node and the submitter are. If the block cannot be fetched or parsed the poll
  fails; an epoch size of 0 is a panic; a height in an epoch that is anchored already ends the poll without an error; in a
  later epoch, a hash that is not hexadecimal and a key that is not 32 bytes long are errors. In all these cases
  nothing is submitted and the relayer stays as it was. Otherwise, with a key that is not zero, exactly one checkpoint
  is submitted: it has that epoch, the block hash (padded with zeros or cut to 32 bytes) and the validator-set hash of
  the epoch, its signature recovers to the relayer's address, and the epoch counts as anchored exactly when the
  submitter succeeds.\<close>

theorem poll_exact:
  assumes "secp_ok S" and "hash32 keccak" and "key = cfg_PrivKey (r_cfg r)" and "latestBlock H r w = (res, w1)"
  shows "case map_sum id parseBlock res of
      Inl e \<Rightarrow> poll keccak S H submit r w = (Some (Errorf ''latestBlock: %w'' [AErr e]), None, r, w1)
    | Inr (Inl e) \<Rightarrow> poll keccak S H submit r w = (Some (Errorf ''parseBlock: %w'' [AErr e]), None, r, w1)
    | Inr (Inr (height, hex)) \<Rightarrow>
        if cfg_EpochSlots (r_cfg r) = 0
        then poll keccak S H submit r w = (Some (GoPanic ''integer divide by zero''), None, r, w1)
        else let epoch = height div cfg_EpochSlots (r_cfg r) in
          if epoch \<le> r_lastEpoch r then poll keccak S H submit r w = (None, None, r, w1)
          else case hex_DecodeString hex of
              None \<Rightarrow> poll keccak S H submit r w = (Some (Errorf ''decode blockHash: %w'' [AErr ErrHex]), None, r, w1)
            | Some b \<Rightarrow>
                (length key \<noteq> 32 \<longrightarrow> (\<exists>e. poll keccak S H submit r w = (Some (Errorf ''sign: %w'' [AErr e]), None, r, w1))) \<and>
                (key_ok S key \<longrightarrow> (\<exists>cp sig. cp_Epoch cp = epoch \<and> cp_BlockHash cp = take 32 (b @ zeros 32) \<and> cp_ok cp \<and>
                   cp_ValidatorSetHash cp = computeValSetHash keccak epoch \<and> signs_for keccak S key cp sig \<and>
                   poll keccak S H submit r w = report r epoch (submit w1 cp [AddressFromPrivKey keccak S key] [sig])))"
proof (cases res)
  case (Inl e)
  then show ?thesis using assms(4) by (simp add: poll_def)
next
  case blk: (Inr blk)
  show ?thesis
  proof (cases "parseBlock blk")
    case (Inl e)
    then show ?thesis using assms(4) blk by (simp add: poll_def)
  next
    case p: (Inr hh)
    obtain height hex where hh: "hh = (height, hex)" by force
    let ?e = "height div cfg_EpochSlots (r_cfg r)"
    have l: "latestBlock H r w = (Inr blk, w1)" "parseBlock blk = Inr (height, hex)" using assms(4) blk p hh by simp_all
    show ?thesis
    proof (cases "cfg_EpochSlots (r_cfg r) = 0")
      case True
      then show ?thesis using poll_zero_slots [OF True l] by (simp add: blk p hh)
    next
      case slots: False
      show ?thesis
      proof (cases "?e \<le> r_lastEpoch r")
        case True
        then show ?thesis using poll_waits [OF slots l True] slots by (simp add: blk p hh)
      next
        case False
        then have e: "r_lastEpoch r < ?e" by (simp add: not_le)
        show ?thesis
        proof (cases "hex_DecodeString hex")
          case None
          then show ?thesis using False slots l by (auto simp: blk p hh poll_def Let_def)
        next
          case (Some b)
          let ?cp = "checkpoint_New ?e (take 32 (b @ zeros 32)) (computeValSetHash keccak ?e)"
          have "\<exists>e. poll keccak S H submit r w = (Some (Errorf ''sign: %w'' [AErr e]), None, r, w1)" if "length key \<noteq> 32"
            using that False slots l Some assms(3) by (auto simp: poll_def Let_def checkpoint_Sign_def)
          moreover have "\<exists>sig. signs_for keccak S key ?cp sig \<and>
              poll keccak S H submit r w = report r ?e (submit w1 ?cp [AddressFromPrivKey keccak S key] [sig])" if "key_ok S key"
            using poll_submits [OF assms(1,2) that [unfolded assms(3)] slots l e Some, of submit]
            unfolding copy_zeros assms(3) by metis
          moreover have "cp_Epoch ?cp = ?e" "cp_BlockHash ?cp = take 32 (b @ zeros 32)" "cp_ok ?cp"
            "cp_ValidatorSetHash ?cp = computeValSetHash keccak ?e" by (simp_all add: checkpoint_New_def cp_ok_def)
          ultimately have "(length key \<noteq> 32 \<longrightarrow> (\<exists>e. poll keccak S H submit r w = (Some (Errorf ''sign: %w'' [AErr e]), None, r, w1))) \<and>
              (key_ok S key \<longrightarrow> (\<exists>cp sig. cp_Epoch cp = ?e \<and> cp_BlockHash cp = take 32 (b @ zeros 32) \<and> cp_ok cp \<and>
                 cp_ValidatorSetHash cp = computeValSetHash keccak ?e \<and> signs_for keccak S key cp sig \<and>
                 poll keccak S H submit r w = report r ?e (submit w1 cp [AddressFromPrivKey keccak S key] [sig])))"
            by blast
          then show ?thesis using False slots Some by (simp add: blk p hh Let_def)
        qed
      qed
    qed
  qed
qed

lemma example_key: "key_ok toy_secp (cfg_PrivKey (r_cfg example_relayer))"
  by (simp add: key_ok_def example_relayer_def relayer_New_def toy_secp_def pad32_def zeros_def numeral_eq_Suc)

lemma example_slots: "cfg_EpochSlots (r_cfg example_relayer) = 14400" "r_lastEpoch example_relayer = 0"
  by (simp_all add: example_relayer_def relayer_New_def)

lemma example_latest: "latestBlock example_http example_relayer () = (Inr (Some (block_response (digits 30001) ''AB01'')), ())"
  by (simp add: latestBlock_def example_http_def Let_def)

lemma example_height: "parseBlock (Some (block_response (digits 30001) ''AB01'')) = Inr (30001, ''AB01'')"
  using Sscanf_digits [of "[]" "[]" 30001] by (simp add: parse_block_response)

lemma example_hash: "hex_DecodeString ''AB01'' = Some [CHR 0xAB, CHR 0x01]"
  by code_simp

theorem poll_exact_witness:
  "\<exists>cp sig. cp_Epoch cp = 2 \<and> cp_BlockHash cp = take 32 ([CHR 0xAB, CHR 0x01] @ zeros 32) \<and>
     signs_for pad_hash toy_secp (cfg_PrivKey (r_cfg example_relayer)) cp sig \<and>
     poll pad_hash toy_secp example_http (\<lambda>w cp signers sigs. (Inr ''0x77'', w)) example_relayer () =
       (None, Some (2, ''0x77''), example_relayer\<lparr>r_lastEpoch := 2\<rparr>, ())"
  using poll_exact [OF secp_ok_toy hash32_pad_hash refl example_latest, of "\<lambda>w cp signers sigs. (Inr ''0x77'', w)"]
  by (auto simp: example_height example_slots example_hash example_key report_def Let_def simp del: hex_DecodeString.simps)

text \<open>C34: A relayer never anchors an epoch twice and never goes back: over any number of polls, with any
  node, submitter and environment, failures included, the anchored epochs are strictly increasing, all
  above the epoch it started from, and the epoch it ends with is the last one anchored.\<close>

theorem relayer_epochs_increase:
  "case Run keccak S H submit tick n r w of (anchors, r', w') \<Rightarrow>
     sorted_wrt (<) (epochs_from (r_lastEpoch r) anchors) \<and>
     r_lastEpoch r' = last (epochs_from (r_lastEpoch r) anchors) \<and> r_cfg r' = r_cfg r"
  by (cases "Run keccak S H submit tick n r w") (auto dest: Run_epochs)

text \<open>C32: The relayer with its JSON-RPC submitter, from the node to the contract call. When the URLs are well formed, the
  node's block lies in an epoch that is not anchored yet and its hash is hexadecimal, the poll makes exactly two HTTP
  requests: it fetches the block, and it posts one \<open>eth_sendTransaction\<close> whose data is the hexadecimal calldata.
  Read back (with the encoder's own base for the element offsets), the calldata is that epoch, the block hash, the
  validator-set hash, the relayer's address and a signature that recovers to it. The epoch counts as anchored
  exactly when the answer to the post can be decoded and has no error, even if it has no result either.\<close>

theorem relayer_anchors:
  assumes "secp_ok S" and "hash32 keccak" and "go_sort sort_slice" and "key_ok S (cfg_PrivKey (r_cfg r))"
    and "http_NewRequest H = (\<lambda>req. None)" and "http_Do H w (block_request r) = (Inr body, w1)" and "body_all body = Inr blk"
    and "cfg_EpochSlots (r_cfg r) \<noteq> 0" and "parseBlock blk = Inr (height, hex)"
    and "epoch = height div cfg_EpochSlots (r_cfg r)" and "r_lastEpoch r < epoch" and "hex_DecodeString hex = Some b"
  shows "\<exists>cp sig call ans w2 err. cp_Epoch cp = epoch \<and> cp_BlockHash cp = take 32 (b @ zeros 32) \<and>
    signs_for keccak S (cfg_PrivKey (r_cfg r)) cp sig \<and> take 4 call = submitCheckpointSelector keccak \<and>
    decode_submit 0 (drop 4 call) = Some (unat epoch, cp_BlockHash cp, cp_ValidatorSetHash cp,
      [AddressFromPrivKey keccak S (cfg_PrivKey (r_cfg r))], [sig]) \<and>
    http_Do H w1 (tx_request s call) = (ans, w2) \<and>
    poll keccak S (recorded H) (HTTPSubmitter_Submit keccak sort_slice (recorded H) s) r (w, []) =
      (case tx_answer ans of
         None \<Rightarrow> (Some err, None, r, (w2, [(block_request r, Inr body), (tx_request s call, ans)]))
       | Some tx \<Rightarrow> (None, Some (epoch, tx), r\<lparr>r_lastEpoch := epoch\<rparr>,
           (w2, [(block_request r, Inr body), (tx_request s call, ans)])))"
proof -
  let ?addr = "AddressFromPrivKey keccak S (cfg_PrivKey (r_cfg r))"
  let ?cp = "checkpoint_New epoch (go_copy (zeros 32) b) (computeValSetHash keccak epoch)"
  let ?submit = "HTTPSubmitter_Submit keccak sort_slice (recorded H) s"
  let ?l = "[(block_request r, Inr body)]"
  have l: "latestBlock (recorded H) r (w, []) = (Inr blk, (w1, ?l))"
    using assms(5-7) by (simp add: latestBlock_recorded)
  have e: "r_lastEpoch r < height div cfg_EpochSlots (r_cfg r)" using assms(10,11) by simp
  obtain sig where sig: "signs_for keccak S (cfg_PrivKey (r_cfg r)) ?cp sig"
    and poll: "poll keccak S (recorded H) ?submit r (w, []) = report r epoch (?submit (w1, ?l) ?cp [?addr] [sig])"
    using poll_submits [OF assms(1,2,4,8) l assms(9) e assms(12), of ?submit]
    unfolding assms(10) [symmetric] by metis
  obtain call where call: "encodeSubmitCheckpoint keccak sort_slice epoch (cp_BlockHash ?cp) (cp_ValidatorSetHash ?cp) [?addr] [sig] = Inr call"
    "take 4 call = submitCheckpointSelector keccak"
    "decode_submit 0 (drop 4 call) = Some (unat epoch, cp_BlockHash ?cp, cp_ValidatorSetHash ?cp, [?addr], [sig])"
    using encode_single [OF assms(3), of "cp_BlockHash ?cp" "cp_ValidatorSetHash ?cp" ?addr sig keccak epoch] sig
    by (auto simp: checkpoint_New_def signs_for_def AddressFromPrivKey_def length_address)
  obtain ans w2 where post: "http_Do H w1 (tx_request s call) = (ans, w2)" by force
  obtain err where "?submit (w1, ?l) ?cp [?addr] [sig] =
      (case tx_answer ans of None \<Rightarrow> Inl err | Some tx \<Rightarrow> Inr tx, (w2, ?l @ [(tx_request s call, ans)]))"
    using call(1) ethSendTransaction_recorded [OF assms(5) post, of ?l]
    by (auto simp: HTTPSubmitter_Submit_def checkpoint_New_def)
  then have "poll keccak S (recorded H) ?submit r (w, []) =
      (case tx_answer ans of
         None \<Rightarrow> (Some (Errorf ''submit epoch %d: %w'' [AInt epoch, AErr err]), None, r, (w2, ?l @ [(tx_request s call, ans)]))
       | Some tx \<Rightarrow> (None, Some (epoch, tx), r\<lparr>r_lastEpoch := epoch\<rparr>, (w2, ?l @ [(tx_request s call, ans)])))"
    unfolding poll by (simp add: report_def split: option.split)
  moreover have "cp_BlockHash ?cp = take 32 (b @ zeros 32)" "cp_Epoch ?cp = epoch" by (simp_all add: checkpoint_New_def copy_zeros)
  ultimately show ?thesis using sig call(2,3) post unfolding append.simps by metis
qed

theorem relayer_anchors_witness:
  "\<exists>log. poll pad_hash toy_secp (recorded example_http)
       (HTTPSubmitter_Submit pad_hash insertion_sort (recorded example_http) (NewHTTPSubmitter ''http://l1'' ''0xC0'')) example_relayer ((), []) =
       (None, Some (2, ''0x77''), example_relayer\<lparr>r_lastEpoch := 2\<rparr>, ((), log)) \<and> length log = 2"
proof -
  let ?s = "NewHTTPSubmitter ''http://l1'' ''0xC0''"
  let ?blk = "Some (block_response (digits 30001) ''AB01'')"
  have p: "cfg_EpochSlots (r_cfg example_relayer) \<noteq> 0" "2 = 30001 div cfg_EpochSlots (r_cfg example_relayer)"
    "r_lastEpoch example_relayer < 2" by (simp_all add: example_slots)
  have h: "http_NewRequest example_http = (\<lambda>req. None)"
    "http_Do example_http () (block_request example_relayer) = (Inr \<lparr>body_all = Inr ?blk, body_first = Inr ?blk\<rparr>, ())"
    "body_all \<lparr>body_all = Inr ?blk, body_first = Inr ?blk\<rparr> = Inr ?blk"
    by (simp_all add: example_http_def block_request_def Let_def)
  have tx: "\<exists>ans. http_Do example_http () (tx_request ?s call) = (ans, ()) \<and> tx_answer ans = Some ''0x77''" for call
    by (simp add: example_http_def tx_request_def tx_answer_def unmarshal_def codec_defs rpc_result_fields_def Let_def)
  from relayer_anchors [OF secp_ok_toy hash32_pad_hash insertion.go_sort_axioms example_key h p(1) example_height p(2,3) example_hash, of ?s]
  obtain call ans w2 err where post: "http_Do example_http () (tx_request ?s call) = (ans, w2)"
    and poll: "poll pad_hash toy_secp (recorded example_http) (HTTPSubmitter_Submit pad_hash insertion_sort (recorded example_http) ?s)
      example_relayer ((), []) =
      (case tx_answer ans of
         None \<Rightarrow> (Some err, None, example_relayer, (w2, [(block_request example_relayer, Inr \<lparr>body_all = Inr ?blk, body_first = Inr ?blk\<rparr>), (tx_request ?s call, ans)]))
       | Some tx \<Rightarrow> (None, Some (2, tx), example_relayer\<lparr>r_lastEpoch := 2\<rparr>,
           (w2, [(block_request example_relayer, Inr \<lparr>body_all = Inr ?blk, body_first = Inr ?blk\<rparr>), (tx_request ?s call, ans)])))"
    by blast
  have "tx_answer ans = Some ''0x77''" using tx [of call] post by auto
  with poll show ?thesis by auto
qed

end
