(* ===== verification/Commands.thy ===== *)
theory Commands
  imports App
begin

text \<open>
  The program of a node operator, \<open>cmd/bigt/main.go\<close>: initialise a home directory, run a node. The operating
  system and CometBFT are parameters (the record \<open>host\<close>). A library call that ends the process when it fails
  (\<open>LoadOrGenFilePV\<close>, \<open>WriteConfigFile\<close>) has no error result. \<open>Inl\<close> is the message
  before exit code 1.
\<close>

section \<open>Programs\<close>




definition store_OpenMemory :: "error + 'db" where
  "store_OpenMemory = Inl (Errorf ''use Open with a temp dir for in-memory stores'' [])"








section \<open>Starting from an initialised home directory\<close>




section \<open>Properties\<close>










end
