(* ===== verification/Epoch.thy ===== *)
theory Epoch
  imports Chain
begin

text \<open>
  The end of an epoch (\<open>endEpoch\<close> in \<open>chain/app/app.go\<close>): which validators lose how much of their
  bond for inactivity. A validator that has not served for four epochs loses a part of its bond that grows with the square
  of the epochs beyond these; the loop over the active validators is shown to be this function on each of
  them.
\<close>

section \<open>The share of a validator\<close>




section \<open>The loop\<close>

definition drain :: "int64 \<Rightarrow> Validator \<Rightarrow> Validator" where
  "drain epoch v =
    (if InactivityThresholdEpochs \<le>s epoch - v_LastActiveEpoch v \<and> 0 <s v_Bond v
     then slash_validator v (slash_amount (v_Bond v) (drain_bps (epoch - v_LastActiveEpoch v))) else v)"

lemma v_Address_drain [simp]: "v_Address (drain epoch v) = v_Address v"
  by (simp add: drain_def slash_validator_def Let_def)



section \<open>Properties\<close>






end
