(* ===== verification/Typing.thy ===== *)
theory Typing
  imports Chain
begin

text \<open>
  The type of the shared store. All modules write JSON documents into one key-value store, so what keeps a module from
  reading another one's documents is a convention on keys. \<open>key_type\<close> is this convention, \<open>has_type\<close>
  says that a document is a value of a type stored under its own key, and every step of the chain is shown to keep the store
  well typed. In a well-typed store no read of any module fails to decode.
\<close>

section \<open>Types of keys and documents\<close>

datatype doc_type = TValidator | TUnbonding | TTotal | TJob | TDispute | TStats | TAccount | TSubscription | TModel

definition key_type :: "bytes \<Rightarrow> doc_type option" where
  "key_type k =
    map_of [(''val'', TValidator), (''ub'', TUnbonding), (''total_stake'', TTotal), (''job'', TJob), (''dispute'', TDispute),
      (''epoch_stats'', TStats), (''acct'', TAccount), (''sub'', TSubscription), (''model'', TModel)] (namespace k)"

definition is_doc :: "'a fields \<Rightarrow> 'a \<Rightarrow> ('a \<Rightarrow> json) \<Rightarrow> ('a \<Rightarrow> bytes) \<Rightarrow> bytes \<Rightarrow> json \<Rightarrow> bool" where
  "is_doc tab zero enc keyof k j =
    (case dec_struct tab j zero of None \<Rightarrow> False | Some x \<Rightarrow> enc x = j \<and> keyof x = k)"

fun has_type :: "doc_type \<Rightarrow> bytes \<Rightarrow> json \<Rightarrow> bool" where
  "has_type TValidator = is_doc Validator_fields zero_Validator enc_Validator (\<lambda>v. valKey (v_Address v))"
| "has_type TUnbonding = is_doc UnbondingEntry_fields zero_UnbondingEntry enc_UnbondingEntry ub_keyof"
| "has_type TTotal = (\<lambda>k j. k = keyTotalStake \<and> (case dec_int64 j 0 of None \<Rightarrow> False | Some w \<Rightarrow> enc_int64 w = j))"
| "has_type TJob = is_doc Job_fields zero_Job enc_Job (\<lambda>j. jobKey (j_JobID j))"
| "has_type TDispute = is_doc DisputeRecord_fields zero_DisputeRecord enc_DisputeRecord (\<lambda>d. disputeKey (dr_JobID d))"
| "has_type TStats = is_doc EpochStats_fields zero_EpochStats enc_EpochStats stats_keyof"
| "has_type TAccount = is_doc Account_fields zero_Account enc_Account (\<lambda>a. accountKey (a_Address a))"
| "has_type TSubscription = is_doc Subscription_fields zero_Subscription enc_Subscription (\<lambda>u. subKey (s_UserAddr u))"
| "has_type TModel = is_doc Model_fields zero_Model enc_Model (\<lambda>m. modelKey (m_ModelID m))"

definition typed :: "bytes \<Rightarrow> json \<Rightarrow> bool" where
  "typed k j = (case key_type k of None \<Rightarrow> False | Some ty \<Rightarrow> has_type ty k j)"

definition store_typed :: "'db db_api \<Rightarrow> 'db \<Rightarrow> bool" where
  "store_typed L s \<longleftrightarrow> (\<forall>k j. view L s k = Some j \<longrightarrow> typed k j)"

lemma typed_docs [simp]:
  "typed (valKey (v_Address v)) (enc_Validator v)"
  "typed (ub_keyof e) (enc_UnbondingEntry e)"
  "typed keyTotalStake (enc_int64 w)"
  "typed (jobKey (j_JobID j)) (enc_Job j)"
  "typed (disputeKey (dr_JobID d)) (enc_DisputeRecord d)"
  "typed (stats_keyof st) (enc_EpochStats st)"
  "typed (accountKey (a_Address a)) (enc_Account a)"
  "typed (subKey (s_UserAddr u)) (enc_Subscription u)"
  "typed (modelKey (m_ModelID m)) (enc_Model m)"
  by (simp_all add: typed_def key_type_def is_doc_def codec ub_keyof_def)

section \<open>Preservation\<close>

context leveldb
begin

lemma typed_put: "store_typed L s \<Longrightarrow> typed k j \<Longrightarrow> store_typed L (put L s k j)"
  by (simp add: store_typed_def)

lemma typed_sweep: "store_typed L s \<Longrightarrow> store_typed L (sweep L s slot)"
  unfolding store_typed_def sweep_def view_deletes by (auto split: if_splits)

lemma typed_puts:
  assumes "store_typed L s"
  shows "store_typed L (put_validator L s v)" "store_typed L (put_stake L s v d)" "store_typed L (put_unbonding L s e)"
    "store_typed L (put_job L s j)" "store_typed L (put_dispute L s dr)" "store_typed L (put_stats L s st)"
    "store_typed L (put_account L s a)" "store_typed L (put_sub L s u)" "store_typed L (put_model L s m)"
  using assms
  by (simp_all add: typed_put put_validator_def put_stake_def put_unbonding_def put_job_def put_dispute_def put_stats_def
      put_account_def put_sub_def put_model_def)

lemma staking_step_typed: "staking_step L g s t \<Longrightarrow> staking_wf L s \<Longrightarrow> store_typed L s \<Longrightarrow> store_typed L t"
  by (induction rule: staking_step.induct) (simp_all add: typed_puts ProcessMature_wf typed_put typed_sweep)

lemma jobs_step_typed: "jobs_step L keccak s t \<Longrightarrow> store_typed L s \<Longrightarrow> store_typed L t"
  by (induction rule: jobs_step.induct) (simp_all add: typed_puts)

lemma registry_step_typed: "registry_step L q s t \<Longrightarrow> store_typed L s \<Longrightarrow> store_typed L t"
  by (induction rule: registry_step.induct) (simp_all add: typed_puts)

lemma market_puts: "putAccount L s a = (None, put_account L s a)" "putSubscription L s u = (None, put_sub L s u)"
  by (simp_all add: putAccount_def putSubscription_def put_account_def put_sub_def)

lemma market_typed:
  assumes "store_typed L s"
  shows "store_typed L (snd (Deposit L s dp))" "store_typed L (snd (Subscribe L s sx slot))"
    "store_typed L (snd (CancelAutoRenew L s a))" "store_typed L (snd (ConsumeJob L s a slot))"
  using assms
  by (auto simp: Deposit_def Subscribe_def CancelAutoRenew_def ConsumeJob_def market_puts Let_def
      typed_puts case_prod_unfold split: sum.split option.split)

lemma renew_loop_typed: "store_typed L s \<Longrightarrow> store_typed L (snd (renew_loop L slot s n as))"
proof (induction as arbitrary: s n)
  case (Cons a as)
  then show ?case
    by (auto simp: market_puts market_typed typed_puts case_prod_unfold split: sum.split option.split)
qed simp

lemma sub_exec_typed: "store_typed L s \<Longrightarrow> store_typed L (sub_exec L op s)"
  by (cases op) (auto simp: market_typed ProcessAutoRenewals_def renew_loop_typed case_prod_unfold split: option.split)

lemma chain_step_typed:
  assumes "chain_step L keccak s t" "chain_inv L keccak s" "store_typed L s"
  shows "store_typed L t"
  using assms
proof (induction rule: chain_step.induct)
  case (core s t)
  from core.hyps show ?case
  proof (cases rule: core_step.cases)
    case (stake op)
    then show ?thesis
      using staking_step_typed [OF staking_exec_step] chain_invD(3) [OF core.prems(1)] core.prems(2) by blast
  qed (use jobs_step_typed core.prems(2) in blast)
qed (auto simp: typed_puts sub_exec_typed intro: registry_step_typed)

lemma chain_steps_typed: "chain_steps L keccak s t \<Longrightarrow> chain_inv L keccak s \<Longrightarrow> store_typed L s \<Longrightarrow> store_typed L t"
  by (induction rule: rtranclp_induct) (auto intro: chain_step_typed chain_steps_inv)

end

context chain_node
begin

lemma reachable_typed: "reachable N a \<Longrightarrow> store_typed (nd_db N) (a_store a)"
proof (induction rule: reachable.induct)
  case (init s appState a)
  have "node_inv N (app_New s)" using chain_inv_empty [OF init(1)] by (simp add: app_New_def)
  moreover have "store_typed (nd_db N) (a_store (app_New s))" by (simp add: store_typed_def app_New_def init(1))
  ultimately show ?case using chain_steps_typed [OF InitChain_steps] init(2) by (metis snd_conv)
next
  case (block a req results b)
  then show ?case
    using chain_steps_typed [OF FinalizeBlock_steps] reachable_inv by (metis snd_conv)
qed

end

section \<open>Properties\<close>

definition reads_decode :: "'db db_api \<Rightarrow> 'db \<Rightarrow> bool" where
  "reads_decode L s \<longleftrightarrow>
    (\<forall>x. \<not> isl (GetValidator L s x) \<and> \<not> isl (GetJob L s x) \<and> \<not> isl (GetDispute L s x) \<and> \<not> isl (GetAccount L s x) \<and>
       \<not> isl (GetSubscription L s x) \<and> \<not> isl (GetModel L s x)) \<and> \<not> isl (TotalStake L s) \<and>
    snd (ListActive L s) = None"

text \<open>C5: The shared store is well typed. In every reachable state every key belongs to exactly one kind of
  document, and the document under it is a value of that kind stored under its own key: no module ever
  overwrites or misreads a document of another one, whatever addresses, job ids and model ids (with slashes
  or empty) the transactions contain. Therefore no read of any module returns a decoding error.\<close>

theorem store_well_typed:
  assumes "chain_node N" and "reachable N a"
  shows "store_typed (nd_db N) (a_store a) \<and> reads_decode (nd_db N) (a_store a)"
proof
  have db: "leveldb (nd_db N)" using assms(1) by (simp add: chain_node_def)
  note wf = chain_invD [OF chain_node.reachable_inv [OF assms]]
  show "store_typed (nd_db N) (a_store a)" by (rule chain_node.reachable_typed [OF assms])
  show "reads_decode (nd_db N) (a_store a)"
    using wf(3)
    by (simp add: reads_decode_def leveldb.GetValidator_wf [OF db wf(3)] leveldb.GetJob_wf [OF db wf(4)] leveldb.GetDispute_wf [OF db wf(4)]
        leveldb.subscription_reads [OF db wf(6)] leveldb.registry_reads [OF db wf(7)] leveldb.ListActive_wf [OF db wf(3)]
        staking_wf_def isl_def split: sum.splits)
qed

theorem store_well_typed_witness:
  "store_typed list_db (a_store example_app) \<and> view list_db (a_store example_app) ''total_stake'' = Some (JInt 10000000000)"
proof
  show "store_typed list_db (a_store example_app)"
    using store_well_typed [OF example.chain_node_axioms example_reachable] by (simp add: example_node_def)
  show "view list_db (a_store example_app) ''total_stake'' = Some (JInt 10000000000)"
    by (simp add: example_app_def InitChain_def unmarshal_def Default_def example_time_ok genesis_msg_def view_def enc_int64_def
        app_New_def example_node_def TotalSupply_def run_eval keys)
qed

end
