(* ===== verification/Anchor.thy ===== *)
theory Anchor
  imports Relayer
begin

text \<open>
  The contract that receives the checkpoints, after \<open>contracts/src/CheckpointAnchor.sol\<close>, and the relayer in
  front of it. The storage of the contract is a record, a mapping is a total function with the zero value as
  default, an address is its 20 bytes (whose lexicographic order is the order of the addresses as numbers), a
  call returns the error it reverts with or the new storage and the emitted events. The precompiled
  contract \<open>ecrecover\<close> and \<open>keccak256\<close> are parameters.
\<close>

section \<open>The contract\<close>

record sol_Checkpoint =
  sc_epoch :: uint64
  sc_blockHash :: bytes
  sc_validatorSetHash :: bytes
  sc_submittedAt :: uint64

definition zero_sol_Checkpoint :: sol_Checkpoint where
  "zero_sol_Checkpoint = \<lparr>sc_epoch = 0, sc_blockHash = zeros 32, sc_validatorSetHash = zeros 32, sc_submittedAt = 0\<rparr>"

record CheckpointAnchor =
  ca_owner :: bytes
  ca_quorumRequired :: "256 word"
  ca_isRelayer :: "bytes \<Rightarrow> bool"
  ca_relayers :: "bytes list"
  ca_checkpoints :: "uint64 \<Rightarrow> sol_Checkpoint"
  ca_latestEpoch :: uint64

datatype sol_event =
    CheckpointAnchored uint64 bytes bytes uint64
  | RelayerAdded bytes
  | RelayerRemoved bytes
  | QuorumChanged "256 word" "256 word"

datatype sol_error =
    NotOwner
  | NotRelayer bytes
  | EpochAlreadyAnchored uint64
  | EpochNotSequential uint64 uint64
  | InsufficientSignatures nat "256 word"
  | DuplicateSigner bytes
  | InvalidSignature
  | SolRequire string
  | SolOverflow

type_synonym sol_result = "sol_error + CheckpointAnchor \<times> sol_event list"

text \<open>What the contract knows of the call: \<open>msg.sender\<close> and \<open>block.number\<close>.\<close>

record call_env =
  env_sender :: bytes
  env_block_number :: "256 word"

type_synonym ecrecover_fn = "bytes \<Rightarrow> char \<Rightarrow> bytes \<Rightarrow> bytes \<Rightarrow> bytes"

definition sol_checkpointHash :: "hash_fn \<Rightarrow> uint64 \<Rightarrow> bytes \<Rightarrow> bytes \<Rightarrow> bytes" where
  "sol_checkpointHash keccak epoch blockHash validatorSetHash =
    keccak ((CHR 0x19 # ''BIGT Checkpoint'' @ [CHR 0x00]) @ be64 epoch @ blockHash @ validatorSetHash)"

definition splitSignature :: "bytes \<Rightarrow> sol_error + char \<times> bytes \<times> bytes" where
  "splitSignature sig =
    (if length sig \<noteq> 65 then Inl (SolRequire ''bad sig length'')
     else Inr (sig ! 64, take 32 sig, take 32 (drop 32 sig)))"

fun verify_loop ::
  "ecrecover_fn \<Rightarrow> CheckpointAnchor \<Rightarrow> bytes \<Rightarrow> bytes \<Rightarrow> (bytes \<times> bytes) list \<Rightarrow> sol_error option" where
  "verify_loop ecrecover c ethHash lastSigner [] = None"
| "verify_loop ecrecover c ethHash lastSigner ((signer, signature) # rest) =
    (if signer \<le> lastSigner then Some (DuplicateSigner signer)
     else if \<not> ca_isRelayer c signer then Some (NotRelayer signer)
     else
       (case splitSignature signature of
          Inl e \<Rightarrow> Some e
        | Inr (v, r, s) \<Rightarrow>
            let recovered = ecrecover ethHash v r s
            in if recovered = zeros 20 \<or> recovered \<noteq> signer then Some InvalidSignature
               else verify_loop ecrecover c ethHash signer rest))"

definition verifyRelayerSignatures ::
  "hash_fn \<Rightarrow> ecrecover_fn \<Rightarrow> CheckpointAnchor \<Rightarrow> bytes \<Rightarrow> bytes list \<Rightarrow> bytes list \<Rightarrow> sol_error option" where
  "verifyRelayerSignatures keccak ecrecover c hash signers signatures =
    (if length signers < unat (ca_quorumRequired c)
     then Some (InsufficientSignatures (length signers) (ca_quorumRequired c))
     else
       let ethHash = keccak ((CHR 0x19 # ''Ethereum Signed Message:'' @ CHR 0x0A # ''32'') @ hash)
       in verify_loop ecrecover c ethHash (zeros 20) (zip signers signatures))"

text \<open>The sum \<open>latestEpoch + 1\<close> is checked arithmetic and is computed before \<open>latestEpoch\<close> is compared
  with 0.\<close>

definition submitCheckpoint ::
  "hash_fn \<Rightarrow> ecrecover_fn \<Rightarrow> call_env \<Rightarrow> CheckpointAnchor \<Rightarrow> uint64 \<Rightarrow> bytes \<Rightarrow> bytes \<Rightarrow> bytes list \<Rightarrow> bytes list \<Rightarrow>
    sol_result" where
  "submitCheckpoint keccak ecrecover env c epoch blockHash validatorSetHash signers signatures =
    (if \<not> ca_isRelayer c (env_sender env) then Inl (NotRelayer (env_sender env))
     else if sc_submittedAt (ca_checkpoints c epoch) \<noteq> 0 then Inl (EpochAlreadyAnchored epoch)
     else if ca_latestEpoch c = - 1 then Inl SolOverflow
     else if epoch \<noteq> ca_latestEpoch c + 1 \<and> ca_latestEpoch c \<noteq> 0
     then Inl (EpochNotSequential (ca_latestEpoch c + 1) epoch)
     else if length signers \<noteq> length signatures
     then Inl (InsufficientSignatures (length signers) (ca_quorumRequired c))
     else
       let cpHash = sol_checkpointHash keccak epoch blockHash validatorSetHash
       in case verifyRelayerSignatures keccak ecrecover c cpHash signers signatures of
            Some e \<Rightarrow> Inl e
          | None \<Rightarrow>
              let at = ucast (env_block_number env);
                  cp = \<lparr>sc_epoch = epoch, sc_blockHash = blockHash, sc_validatorSetHash = validatorSetHash, sc_submittedAt = at\<rparr>
              in Inr (c\<lparr>ca_checkpoints := (ca_checkpoints c)(epoch := cp), ca_latestEpoch := epoch\<rparr>,
                      [CheckpointAnchored epoch blockHash validatorSetHash at]))"

definition add_relayer :: "CheckpointAnchor \<Rightarrow> bytes \<Rightarrow> sol_result" where
  "add_relayer c relayer =
    (if ca_isRelayer c relayer then Inl (SolRequire ''already a relayer'')
     else Inr (c\<lparr>ca_isRelayer := (ca_isRelayer c)(relayer := True), ca_relayers := ca_relayers c @ [relayer]\<rparr>,
               [RelayerAdded relayer]))"

fun add_relayers :: "CheckpointAnchor \<Rightarrow> bytes list \<Rightarrow> sol_result" where
  "add_relayers c [] = Inr (c, [])"
| "add_relayers c (a # as) =
    (case add_relayer c a of
       Inl e \<Rightarrow> Inl e
     | Inr (c, evs) \<Rightarrow> (case add_relayers c as of Inl e \<Rightarrow> Inl e | Inr (c, evs') \<Rightarrow> Inr (c, evs @ evs')))"

definition anchor_constructor :: "call_env \<Rightarrow> bytes list \<Rightarrow> 256 word \<Rightarrow> sol_result" where
  "anchor_constructor env relayers quorum =
    add_relayers \<lparr>ca_owner = env_sender env, ca_quorumRequired = quorum, ca_isRelayer = (\<lambda>_. False), ca_relayers = [],
      ca_checkpoints = (\<lambda>_. zero_sol_Checkpoint), ca_latestEpoch = 0\<rparr> relayers"

definition addRelayer :: "call_env \<Rightarrow> CheckpointAnchor \<Rightarrow> bytes \<Rightarrow> sol_result" where
  "addRelayer env c relayer = (if env_sender env \<noteq> ca_owner c then Inl NotOwner else add_relayer c relayer)"

definition removeRelayer :: "call_env \<Rightarrow> CheckpointAnchor \<Rightarrow> bytes \<Rightarrow> sol_result" where
  "removeRelayer env c relayer =
    (if env_sender env \<noteq> ca_owner c then Inl NotOwner
     else if \<not> ca_isRelayer c relayer then Inl (SolRequire ''not a relayer'')
     else Inr (c\<lparr>ca_isRelayer := (ca_isRelayer c)(relayer := False)\<rparr>, [RelayerRemoved relayer]))"

definition setQuorum :: "call_env \<Rightarrow> CheckpointAnchor \<Rightarrow> 256 word \<Rightarrow> sol_result" where
  "setQuorum env c newQuorum =
    (if env_sender env \<noteq> ca_owner c then Inl NotOwner
     else Inr (c\<lparr>ca_quorumRequired := newQuorum\<rparr>, [QuorumChanged (ca_quorumRequired c) newQuorum]))"

definition getLatestCheckpoint :: "CheckpointAnchor \<Rightarrow> sol_error + sol_Checkpoint" where
  "getLatestCheckpoint c =
    (if ca_latestEpoch c = 0 then Inl (SolRequire ''no checkpoint yet'')
     else Inr (ca_checkpoints c (ca_latestEpoch c)))"

definition getCheckpoint :: "CheckpointAnchor \<Rightarrow> uint64 \<Rightarrow> sol_error + sol_Checkpoint" where
  "getCheckpoint c epoch =
    (if sc_submittedAt (ca_checkpoints c epoch) = 0 then Inl (SolRequire ''epoch not anchored'')
     else Inr (ca_checkpoints c epoch))"

section \<open>Histories of calls\<close>

datatype sol_call =
    CallSubmit uint64 bytes bytes "bytes list" "bytes list"
  | CallAdd bytes
  | CallRemove bytes
  | CallQuorum "256 word"

fun sol_exec :: "hash_fn \<Rightarrow> ecrecover_fn \<Rightarrow> call_env \<Rightarrow> CheckpointAnchor \<Rightarrow> sol_call \<Rightarrow> sol_result" where
  "sol_exec keccak ecrecover env c (CallSubmit epoch bh vh signers sigs) =
    submitCheckpoint keccak ecrecover env c epoch bh vh signers sigs"
| "sol_exec keccak ecrecover env c (CallAdd a) = addRelayer env c a"
| "sol_exec keccak ecrecover env c (CallRemove a) = removeRelayer env c a"
| "sol_exec keccak ecrecover env c (CallQuorum q) = setQuorum env c q"

text \<open>A transaction that reverts leaves the storage as it was. Block numbers fit 64 bits and are not 0.\<close>

inductive sol_step :: "hash_fn \<Rightarrow> ecrecover_fn \<Rightarrow> CheckpointAnchor \<Rightarrow> CheckpointAnchor \<Rightarrow> bool" for keccak ecrecover where
  call: "sol_exec keccak ecrecover env c cl = Inr (c', evs) \<Longrightarrow> ucast (env_block_number env) \<noteq> (0 :: uint64) \<Longrightarrow>
    sol_step keccak ecrecover c c'"

inductive_cases sol_stepE: "sol_step keccak ecrecover c c'"

section \<open>What the contract verifies\<close>

definition anchored :: "CheckpointAnchor \<Rightarrow> uint64 \<Rightarrow> bool" where
  "anchored c e \<longleftrightarrow> sc_submittedAt (ca_checkpoints c e) \<noteq> 0"

text \<open>Two programs in two languages hash the same bytes.\<close>

lemma sol_hash_is_Hash: "sol_checkpointHash keccak epoch bh vh = Hash keccak (checkpoint_New epoch bh vh)"
  by (simp add: sol_checkpointHash_def Hash_bytes cp_bytes_def domainPrefix_def checkpoint_New_def)

definition signed_by :: "ecrecover_fn \<Rightarrow> bytes \<Rightarrow> bytes \<times> bytes \<Rightarrow> bool" where
  "signed_by ecrecover h p \<longleftrightarrow>
    (case p of (signer, sig) \<Rightarrow>
       length sig = 65 \<and> ecrecover h (sig ! 64) (take 32 sig) (take 32 (drop 32 sig)) = signer)"

lemma verify_loop_None:
  assumes "zeros 20 \<le> a"
  shows "verify_loop ecrecover c h a ps = None \<longleftrightarrow>
    sorted_wrt (<) (a # map fst ps) \<and> list_all (\<lambda>p. ca_isRelayer c (fst p) \<and> signed_by ecrecover h p) ps"
  using assms
proof (induction ps arbitrary: a)
  case (Cons p ps)
  obtain x sg where p: "p = (x, sg)" by force
  show ?case
  proof (cases "a < x")
    case True
    then have x: "zeros 20 < x" using Cons.prems by simp
    then have x0: "x \<noteq> zeros 20" by blast
    have na: "\<not> x \<le> a" using True by (simp add: not_le)
    have "verify_loop ecrecover c h a (p # ps) = None \<longleftrightarrow>
        ca_isRelayer c x \<and> signed_by ecrecover h p \<and> verify_loop ecrecover c h x ps = None"
      using x0 na by (auto simp: p splitSignature_def Let_def signed_by_def)
    moreover have "sorted_wrt (<) (a # map fst (p # ps)) \<longleftrightarrow> sorted_wrt (<) (x # map fst ps)"
      using True by (simp add: p sorted_wrt2 [OF transp_on_less] del: sorted_wrt.simps)
    ultimately show ?thesis using Cons.IH [of x] x by (auto simp: p)
  next
    case False
    then have "x \<le> a" by (simp add: not_less)
    with False show ?thesis by (simp add: p)
  qed
qed simp

text \<open>The quorum condition on a list of signers and signatures for a checkpoint, with the hashes of the Go code.\<close>

definition quorum_signed ::
  "hash_fn \<Rightarrow> ecrecover_fn \<Rightarrow> CheckpointAnchor \<Rightarrow> Checkpoint \<Rightarrow> bytes list \<Rightarrow> bytes list \<Rightarrow> bool" where
  "quorum_signed keccak ecrecover c cp signers sigs \<longleftrightarrow>
    length signers = length sigs \<and> unat (ca_quorumRequired c) \<le> length signers \<and>
    sorted_wrt (<) (zeros 20 # signers) \<and> list_all (ca_isRelayer c) signers \<and>
    list_all (signed_by ecrecover (EthSignHash keccak (Hash keccak cp))) (zip signers sigs)"

lemma verify_quorum:
  assumes "length signers = length sigs"
  shows "verifyRelayerSignatures keccak ecrecover c (Hash keccak cp) signers sigs = None \<longleftrightarrow>
    quorum_signed keccak ecrecover c cp signers sigs"
proof -
  have "list_all (\<lambda>p. ca_isRelayer c (fst p)) (zip signers sigs) \<longleftrightarrow> list_all (ca_isRelayer c) signers"
    using list.pred_map [of "ca_isRelayer c" fst "zip signers sigs"] assms by (simp add: comp_def)
  then show ?thesis
    using assms
    by (auto simp: verifyRelayerSignatures_def quorum_signed_def Let_def verify_loop_None not_less
        EthSignHash_bytes eth_prefix_def list_all_iff map_fst_zip)
qed

definition next_epoch :: "CheckpointAnchor \<Rightarrow> uint64 \<Rightarrow> bool" where
  "next_epoch c epoch \<longleftrightarrow>
    \<not> anchored c epoch \<and> ca_latestEpoch c \<noteq> - 1 \<and> (ca_latestEpoch c = 0 \<or> epoch = ca_latestEpoch c + 1)"

definition anchor_at :: "call_env \<Rightarrow> CheckpointAnchor \<Rightarrow> Checkpoint \<Rightarrow> CheckpointAnchor" where
  "anchor_at env c cp =
    c\<lparr>ca_checkpoints := (ca_checkpoints c)(cp_Epoch cp :=
        \<lparr>sc_epoch = cp_Epoch cp, sc_blockHash = cp_BlockHash cp, sc_validatorSetHash = cp_ValidatorSetHash cp,
         sc_submittedAt = ucast (env_block_number env)\<rparr>),
      ca_latestEpoch := cp_Epoch cp\<rparr>"

lemma submit_cases:
  defines "res cp env c keccak ecrecover signers sigs \<equiv>
    submitCheckpoint keccak ecrecover env c (cp_Epoch cp) (cp_BlockHash cp) (cp_ValidatorSetHash cp) signers sigs"
  shows "ca_isRelayer c (env_sender env) \<Longrightarrow> next_epoch c (cp_Epoch cp) \<Longrightarrow> quorum_signed keccak ecrecover c cp signers sigs \<Longrightarrow>
      \<exists>evs. res cp env c keccak ecrecover signers sigs = Inr (anchor_at env c cp, evs)"
    and "res cp env c keccak ecrecover signers sigs = Inr (c', evs) \<Longrightarrow>
      ca_isRelayer c (env_sender env) \<and> next_epoch c (cp_Epoch cp) \<and> quorum_signed keccak ecrecover c cp signers sigs \<and>
      c' = anchor_at env c cp"
proof -
  have h: "sol_checkpointHash keccak (cp_Epoch cp) (cp_BlockHash cp) (cp_ValidatorSetHash cp) = Hash keccak cp"
    by (cases cp) (simp add: sol_hash_is_Hash checkpoint_New_def)
  note defs = res_def submitCheckpoint_def Let_def next_epoch_def anchored_def anchor_at_def h
  show "ca_isRelayer c (env_sender env) \<Longrightarrow> next_epoch c (cp_Epoch cp) \<Longrightarrow> quorum_signed keccak ecrecover c cp signers sigs \<Longrightarrow>
      \<exists>evs. res cp env c keccak ecrecover signers sigs = Inr (anchor_at env c cp, evs)"
    using verify_quorum [of signers sigs keccak ecrecover c cp] by (auto simp: defs quorum_signed_def)
  show "res cp env c keccak ecrecover signers sigs = Inr (c', evs) \<Longrightarrow>
      ca_isRelayer c (env_sender env) \<and> next_epoch c (cp_Epoch cp) \<and> quorum_signed keccak ecrecover c cp signers sigs \<and>
      c' = anchor_at env c cp"
    using verify_quorum [of signers sigs keccak ecrecover c cp] by (auto simp: defs split: if_splits option.splits)
qed

section \<open>The history of the contract\<close>

definition anchor_ok :: "CheckpointAnchor \<Rightarrow> bool" where
  "anchor_ok c \<longleftrightarrow>
    (\<forall>e. anchored c e \<longrightarrow> sc_epoch (ca_checkpoints c e) = e) \<and>
    (ca_latestEpoch c \<noteq> 0 \<longrightarrow> anchored c (ca_latestEpoch c)) \<and>
    (\<exists>first. \<forall>e. 0 < e \<longrightarrow> (anchored c e \<longleftrightarrow> first \<le> e \<and> e \<le> ca_latestEpoch c))"

text \<open>What one call does to the anchored checkpoints: nothing, or one new checkpoint.\<close>

lemma sol_step_anchors:
  assumes "sol_step keccak ecrecover c c'"
  shows "ca_checkpoints c' = ca_checkpoints c \<and> ca_latestEpoch c' = ca_latestEpoch c \<or>
    (\<exists>env cp. ucast (env_block_number env) \<noteq> (0 :: uint64) \<and> next_epoch c (cp_Epoch cp) \<and> c' = anchor_at env c cp)"
  using assms
proof (cases rule: sol_step.cases)
  case (call env cl evs)
  note 1 = call
  show ?thesis
  proof (cases cl)
    case (CallSubmit epoch bh vh signers sigs)
    then have "next_epoch c epoch \<and> c' = anchor_at env c (checkpoint_New epoch bh vh)"
      using 1 submit_cases(2) [of keccak ecrecover env c "checkpoint_New epoch bh vh" signers sigs c' evs]
      by (simp add: checkpoint_New_def)
    then have "next_epoch c (cp_Epoch (checkpoint_New epoch bh vh)) \<and> c' = anchor_at env c (checkpoint_New epoch bh vh)"
      by (simp add: checkpoint_New_def)
    with 1 show ?thesis by blast
  qed (use 1 in \<open>auto simp: addRelayer_def add_relayer_def removeRelayer_def setQuorum_def split: if_splits\<close>)
qed

lemma anchored_anchor_at:
  "ucast (env_block_number env) \<noteq> (0 :: uint64) \<Longrightarrow>
   anchored (anchor_at env c cp) e \<longleftrightarrow> e = cp_Epoch cp \<or> anchored c e"
  by (simp add: anchored_def anchor_at_def)

lemma anchor_ok_step:
  assumes "ucast (env_block_number env) \<noteq> (0 :: uint64)" "next_epoch c (cp_Epoch cp)" "anchor_ok c"
  shows "anchor_ok (anchor_at env c cp)"
proof -
  let ?c = "anchor_at env c cp"
  note an = anchored_anchor_at [OF assms(1)]
  obtain first where f: "\<And>e. 0 < e \<Longrightarrow> anchored c e \<longleftrightarrow> first \<le> e \<and> e \<le> ca_latestEpoch c"
    using assms(3) by (auto simp: anchor_ok_def)
  have latest: "ca_latestEpoch ?c = cp_Epoch cp" by (simp add: anchor_at_def)
  have "\<exists>first. \<forall>e. 0 < e \<longrightarrow> (anchored ?c e \<longleftrightarrow> first \<le> e \<and> e \<le> ca_latestEpoch ?c)"
  proof (cases "ca_latestEpoch c = 0")
    case True
    then have "\<not> anchored c e" if "0 < e" for e using f [OF that] that by (simp add: word_gt_0)
    then show ?thesis by (intro exI [of _ "cp_Epoch cp"]) (auto simp: an latest)
  next
    case False
    then have n: "cp_Epoch cp = ca_latestEpoch c + 1" "ca_latestEpoch c \<noteq> - 1"
      using assms(2) by (auto simp: next_epoch_def)
    have "anchored c (ca_latestEpoch c)" using assms(3) False by (simp add: anchor_ok_def)
    then have l: "first \<le> ca_latestEpoch c" using f [of "ca_latestEpoch c"] False by (simp add: word_gt_0)
    have "1 + ca_latestEpoch c \<noteq> 0" using n(2) by (metis add_eq_0_iff add.commute)
    then have "unat (ca_latestEpoch c + 1) = Suc (unat (ca_latestEpoch c))" using unatSuc [of "ca_latestEpoch c"] by (metis add.commute)
    then have up: "e \<le> ca_latestEpoch c + 1 \<longleftrightarrow> e \<le> ca_latestEpoch c \<or> e = ca_latestEpoch c + 1" for e
      by (auto simp: word_le_nat_alt le_Suc_eq word_unat_eq_iff)
    show ?thesis
      using f l up by (intro exI [of _ first]) (auto simp: an latest n(1))
  qed
  moreover have "\<forall>e. anchored ?c e \<longrightarrow> sc_epoch (ca_checkpoints ?c e) = e"
    using assms(3) by (auto simp: an anchor_ok_def) (auto simp: anchor_at_def)
  ultimately show ?thesis using an by (auto simp: anchor_ok_def latest)
qed

lemma sol_step_ok:
  assumes "sol_step keccak ecrecover c c'" "anchor_ok c"
  shows "anchor_ok c'"
  using sol_step_anchors [OF assms(1)]
proof
  assume "ca_checkpoints c' = ca_checkpoints c \<and> ca_latestEpoch c' = ca_latestEpoch c"
  then show ?thesis using assms(2) by (simp add: anchor_ok_def anchored_def)
qed (use anchor_ok_step assms(2) in blast)

lemma sol_step_kept:
  assumes "sol_step keccak ecrecover c c'" "anchored c e"
  shows "ca_checkpoints c' e = ca_checkpoints c e" "anchored c' e"
  using sol_step_anchors [OF assms(1)] assms(2) by (auto simp: next_epoch_def anchored_def anchor_at_def split: if_splits)

lemma sol_steps_kept:
  assumes "(sol_step keccak ecrecover)\<^sup>*\<^sup>* c c'" "anchored c e"
  shows "ca_checkpoints c' e = ca_checkpoints c e \<and> anchored c' e"
  using assms by (induction rule: rtranclp_induct) (auto dest: sol_step_kept)

text \<open>Checkpoints are added in the order of their epochs; epoch 0 only before any other one.\<close>

lemma sol_steps_order:
  assumes "(sol_step keccak ecrecover)\<^sup>*\<^sup>* c c'"
  shows "ca_latestEpoch c \<le> ca_latestEpoch c' \<and>
    (\<forall>e. anchored c' e \<longrightarrow> anchored c e \<or> ca_latestEpoch c < e \<or> e = 0 \<and> ca_latestEpoch c = 0)"
  using assms
proof (induction rule: rtranclp_induct)
  case (step c1 c2)
  from sol_step_anchors [OF step.hyps(2)] show ?case
  proof
    assume "ca_checkpoints c2 = ca_checkpoints c1 \<and> ca_latestEpoch c2 = ca_latestEpoch c1"
    then show ?thesis using step.IH by (simp add: anchored_def)
  next
    assume "\<exists>env cp. ucast (env_block_number env) \<noteq> (0 :: uint64) \<and> next_epoch c1 (cp_Epoch cp) \<and> c2 = anchor_at env c1 cp"
    then obtain env cp where n: "ucast (env_block_number env) \<noteq> (0 :: uint64)" "next_epoch c1 (cp_Epoch cp)" "c2 = anchor_at env c1 cp"
      by blast
    have up: "ca_latestEpoch c1 < cp_Epoch cp \<or> cp_Epoch cp = 0 \<and> ca_latestEpoch c1 = 0"
    proof (cases "ca_latestEpoch c1 = 0")
      case False
      then have "cp_Epoch cp = ca_latestEpoch c1 + 1" "ca_latestEpoch c1 \<noteq> - 1" using n(2) by (auto simp: next_epoch_def)
      moreover from this have "1 + ca_latestEpoch c1 \<noteq> 0" by (metis add_eq_0_iff add.commute)
      then have "unat (ca_latestEpoch c1 + 1) = Suc (unat (ca_latestEpoch c1))" using unatSuc [of "ca_latestEpoch c1"] by (metis add.commute)
      ultimately show ?thesis by (simp add: word_less_nat_alt)
    qed (auto simp: word_gt_0)
    moreover have "ca_latestEpoch c2 = cp_Epoch cp" by (simp add: n(3) anchor_at_def)
    ultimately show ?thesis
      using step.IH anchored_anchor_at [OF n(1)] by (auto simp: n(3) word_le_0_iff intro: less_imp_le order_trans)
  qed
qed simp

lemma add_relayers_checkpoints:
  "add_relayers c as = Inr (c', evs) \<Longrightarrow> ca_checkpoints c' = ca_checkpoints c \<and> ca_latestEpoch c' = ca_latestEpoch c"
  by (induction as arbitrary: c evs) (fastforce simp: add_relayer_def split: sum.splits if_splits)+

lemma constructor_ok:
  assumes "anchor_constructor env rs q = Inr (c, evs)"
  shows "anchor_ok c"
  using add_relayers_checkpoints [OF assms [unfolded anchor_constructor_def]]
  by (auto simp: anchor_ok_def anchored_def zero_sol_Checkpoint_def)

section \<open>The relayer in front of the contract\<close>



lemma sign_length: "checkpoint_Sign keccak S cp key = Inr sig \<Longrightarrow> length sig = 65"
  by (auto simp: checkpoint_Sign_def Let_def split: if_splits)


text \<open>What the contract does with calldata: it decodes the arguments, with the offsets of array elements counted from
  \<open>rel\<close> (32 in the contract ABI, 0 as the encoder writes them), and runs the call. Calldata that cannot be decoded
  reverts.\<close>

definition accepts_calldata :: "nat \<Rightarrow> hash_fn \<Rightarrow> ecrecover_fn \<Rightarrow> call_env \<Rightarrow> CheckpointAnchor \<Rightarrow> bytes \<Rightarrow> bool" where
  "accepts_calldata rel keccak ecrecover env c calldata \<longleftrightarrow>
    (case decode_submit rel (drop 4 calldata) of
       None \<Rightarrow> False
     | Some (epoch, bh, vh, signers, sigs) \<Rightarrow>
         \<not> isl (submitCheckpoint keccak ecrecover env c (of_nat epoch) bh vh signers sigs))"

text \<open>Whatever the decoder, the contract sees the epoch that was encoded, so it refuses an epoch out of sequence.\<close>

lemma calldata_gap:
  assumes "go_sort sort_slice" "length bh = 32" "length vh = 32" "length addr = 20" "length sig = 65"
    and "encodeSubmitCheckpoint keccak sort_slice epoch bh vh [addr] [sig] = Inr call" "\<not> next_epoch c epoch"
  shows "\<not> accepts_calldata rel keccak ecrecover env c call"
proof -
  have "mset (sort_slice paired_less [(addr, sig)]) = {#(addr, sig)#}" using go_sort.mset_sort [OF assms(1)] by simp
  then have ps: "sort_slice paired_less [(addr, sig)] = [(addr, sig)]" by simp
  have fit: "fits [(addr, sig)]" using assms(4,5) by (simp add: fits_def)
  have sel: "length (submitCheckpointSelector keccak) = 4" by (simp add: submitCheckpointSelector_def)
  have no: "isl (submitCheckpoint keccak ecrecover env c epoch bh' vh' ss gs)" for bh' vh' ss gs
    using submit_cases(2) [of keccak ecrecover env c "checkpoint_New epoch bh' vh'" ss gs] assms(7)
    by (cases "submitCheckpoint keccak ecrecover env c epoch bh' vh' ss gs") (auto simp: checkpoint_New_def)
  show ?thesis
    using assms(6) encode_args [OF assms(1), of "[addr]" "[sig]" keccak epoch bh vh] sel
    by (auto simp: accepts_calldata_def no ps decode_args [OF fit assms(2,3)] split: option.split)
qed

section \<open>The requests of a running relayer\<close>

text \<open>A log of requests in which every transaction is for the epoch of a block that was read.\<close>

definition block_read :: "Relayer \<Rightarrow> (Request \<times> (error + Body)) list \<Rightarrow> uint64 \<Rightarrow> bool" where
  "block_read r l height \<longleftrightarrow>
    (\<exists>body blk hex. (block_request r, Inr body) \<in> set l \<and> body_all body = Inr blk \<and> parseBlock blk = Inr (height, hex))"

definition tx_for ::
  "hash_fn \<Rightarrow> ((bytes \<times> bytes \<Rightarrow> bytes \<times> bytes \<Rightarrow> bool) \<Rightarrow> (bytes \<times> bytes) list \<Rightarrow> (bytes \<times> bytes) list) \<Rightarrow> HTTPSubmitter \<Rightarrow>
    Request \<Rightarrow> bytes \<Rightarrow> uint64 \<Rightarrow> bool" where
  "tx_for keccak sort_slice s req call epoch \<longleftrightarrow> req = tx_request s call \<and>
    (\<exists>bh vh addr sig. length bh = 32 \<and> length vh = 32 \<and> length addr = 20 \<and> length sig = 65 \<and>
       encodeSubmitCheckpoint keccak sort_slice epoch bh vh [addr] [sig] = Inr call)"

definition log_ok ::
  "hash_fn \<Rightarrow> ((bytes \<times> bytes \<Rightarrow> bytes \<times> bytes \<Rightarrow> bool) \<Rightarrow> (bytes \<times> bytes) list \<Rightarrow> (bytes \<times> bytes) list) \<Rightarrow> HTTPSubmitter \<Rightarrow>
    Relayer \<Rightarrow> (Request \<times> (error + Body)) list \<Rightarrow> bool" where
  "log_ok keccak sort_slice s r l \<longleftrightarrow>
    (\<forall>(req, ans) \<in> set l. req = block_request r \<or>
       (\<exists>call height. block_read r l height \<and> tx_for keccak sort_slice s req call (height div cfg_EpochSlots (r_cfg r))))"

lemma block_read_mono: "block_read r l h \<Longrightarrow> block_read r (l @ l') h"
  by (auto simp: block_read_def)

lemma log_ok_append:
  assumes "log_ok keccak sort_slice s r l"
    and "req = block_request r \<or>
      (\<exists>call height. block_read r l height \<and> tx_for keccak sort_slice s req call (height div cfg_EpochSlots (r_cfg r)))"
  shows "log_ok keccak sort_slice s r (l @ [(req, ans)])"
  using assms block_read_mono [of r l _ "[(req, ans)]"] unfolding log_ok_def by fastforce

lemma ethSendTransaction_log:
  "\<exists>res w'. ethSendTransaction (recorded H) s (w, l) (tx_params s call) = (res, (w', l)) \<or>
     (\<exists>ans. ethSendTransaction (recorded H) s (w, l) (tx_params s call) = (res, (w', l @ [(tx_request s call, ans)])))"
  by (auto simp: ethSendTransaction_def recorded_def tx_request_def Let_def split: option.split prod.split sum.split)

lemma poll_world:
  assumes "poll keccak S H submit r w = (err, a, r', w')" "latestBlock H r w = (res, w1)"
  shows "w' = w1 \<or>
    (\<exists>blk height hex bh sig. res = Inr blk \<and> parseBlock blk = Inr (height, hex) \<and> length bh = 32 \<and> length sig = 65 \<and>
       w' = snd (submit w1 (checkpoint_New (height div cfg_EpochSlots (r_cfg r)) bh
           (computeValSetHash keccak (height div cfg_EpochSlots (r_cfg r))))
         [AddressFromPrivKey keccak S (cfg_PrivKey (r_cfg r))] [sig]))"
proof (rule ccontr)
  assume no: "\<not> ?thesis"
  obtain blk height hex b sig where h: "res = Inr blk" "parseBlock blk = Inr (height, hex)"
    "checkpoint_Sign keccak S (checkpoint_New (height div cfg_EpochSlots (r_cfg r)) (go_copy (zeros 32) b)
       (computeValSetHash keccak (height div cfg_EpochSlots (r_cfg r)))) (cfg_PrivKey (r_cfg r)) = Inr sig"
    "w' = snd (submit w1 (checkpoint_New (height div cfg_EpochSlots (r_cfg r)) (go_copy (zeros 32) b)
       (computeValSetHash keccak (height div cfg_EpochSlots (r_cfg r)))) [AddressFromPrivKey keccak S (cfg_PrivKey (r_cfg r))] [sig])"
    using assms no by (auto simp: poll_def Let_def split: sum.splits prod.splits option.splits if_splits)
  have "length (go_copy (zeros 32) b) = 32" by simp
  with h no sign_length show False by blast
qed

lemma Submit_log:
  assumes "log_ok keccak sort_slice s r l" "block_read r l height" "epoch = height div cfg_EpochSlots (r_cfg r)"
    and "length bh = 32" "length addr = 20" "length sig = 65"
  shows "log_ok keccak sort_slice s r (snd (snd
    (HTTPSubmitter_Submit keccak sort_slice (recorded H) s (w, l) (checkpoint_New epoch bh (computeValSetHash keccak epoch)) [addr] [sig])))"
proof (cases "encodeSubmitCheckpoint keccak sort_slice epoch bh (computeValSetHash keccak epoch) [addr] [sig]")
  case (Inl e)
  then show ?thesis using assms(1) by (simp add: HTTPSubmitter_Submit_def checkpoint_New_def)
next
  case (Inr call)
  then have "tx_for keccak sort_slice s (tx_request s call) call epoch"
    using assms(4-6) unfolding tx_for_def by (metis length_computeValSetHash)
  then have post: "log_ok keccak sort_slice s r (l @ [(tx_request s call, ans)])" for ans
    using log_ok_append [OF assms(1)] assms(2,3) by blast
  show ?thesis
    using ethSendTransaction_log [of H s w l call] post assms(1) Inr
    by (auto simp: HTTPSubmitter_Submit_def checkpoint_New_def)
qed

lemma poll_log:
  assumes "poll keccak S (recorded H) (HTTPSubmitter_Submit keccak sort_slice (recorded H) s) r (w, l) = (err, a, r', w')"
    and "log_ok keccak sort_slice s r l"
  shows "log_ok keccak sort_slice s r (snd w')"
proof -
  obtain res w1 l1 where b: "latestBlock (recorded H) r (w, l) = (res, (w1, l1))" by (metis prod.collapse)
  have l1: "log_ok keccak sort_slice s r l1"
    using b assms(2) by (auto simp: latestBlock_recorded intro: log_ok_append split: option.splits prod.splits sum.splits)
  have rd: "block_read r l1 height" if "res = Inr blk" "parseBlock blk = Inr (height, hex)" for blk height hex
    using b that by (fastforce simp: latestBlock_recorded block_read_def split: option.splits prod.splits sum.splits)
  have addr: "length (AddressFromPrivKey keccak S k) = 20" for k by (simp add: AddressFromPrivKey_def length_address)
  from poll_world [OF assms(1) b] show ?thesis
  proof (elim disjE exE conjE)
    fix blk height hex bh and sig :: bytes
    assume h: "res = Inr blk" "parseBlock blk = Inr (height, hex)" "length bh = 32" "length sig = 65"
      and w': "w' = snd (HTTPSubmitter_Submit keccak sort_slice (recorded H) s (w1, l1)
        (checkpoint_New (height div cfg_EpochSlots (r_cfg r)) bh (computeValSetHash keccak (height div cfg_EpochSlots (r_cfg r))))
        [AddressFromPrivKey keccak S (cfg_PrivKey (r_cfg r))] [sig])"
    show ?thesis unfolding w' by (rule Submit_log [OF l1 rd [OF h(1,2)] refl h(3) addr h(4)])
  qed (use l1 in simp)
qed

lemma log_ok_cfg: "r_cfg r' = r_cfg r \<Longrightarrow> log_ok keccak sort_slice s r' l \<longleftrightarrow> log_ok keccak sort_slice s r l"
  by (simp add: log_ok_def block_read_def block_request_def)

lemma Run_log:
  assumes "Run keccak S (recorded H) (HTTPSubmitter_Submit keccak sort_slice (recorded H) s) (apfst tick) n r w = (anchors, r', w')"
    and "log_ok keccak sort_slice s r (snd w)"
  shows "log_ok keccak sort_slice s r (snd w')"
  using assms
proof (induction n arbitrary: r w anchors)
  case (Suc n)
  let ?submit = "HTTPSubmitter_Submit keccak sort_slice (recorded H) s"
  obtain err a r1 w1 where p: "poll keccak S (recorded H) ?submit r (tick (fst w), snd w) = (err, a, r1, w1)"
    by (metis prod_cases4)
  have w: "apfst tick w = (tick (fst w), snd w)" by (cases w) simp
  have l: "log_ok keccak sort_slice s r (snd w1)" by (rule poll_log [OF p Suc.prems(2)])
  have cfg: "r_cfg r1 = r_cfg r" using poll_state [OF p] by (auto split: option.splits)
  show ?case
  proof (cases "is_panic err")
    case True
    then show ?thesis using Suc.prems(1) l by (simp add: w p)
  next
    case False
    then obtain rest where "Run keccak S (recorded H) ?submit (apfst tick) n r1 w1 = (rest, r', w')"
      using Suc.prems(1) by (auto simp: w p split: prod.splits)
    then show ?thesis using Suc.IH l log_ok_cfg [OF cfg] by blast
  qed
qed simp

section \<open>Properties\<close>

text \<open>A contract with two relayers, and a recovery function that agrees with the signature scheme of the witnesses.\<close>

definition anchor_key :: bytes where
  "anchor_key = replicate 32 (CHR ''k'')"

definition anchor_relayer :: Relayer where
  "anchor_relayer = relayer_New \<lparr>cfg_CMTRPCURL = ''http://n'', cfg_EpochSlots = 14400, cfg_PrivKey = anchor_key, cfg_PollInterval = 0\<rparr>"

abbreviation "anchor_addr \<equiv> AddressFromPrivKey pad_hash toy_secp anchor_key"

definition toy_ecrecover :: ecrecover_fn where
  "toy_ecrecover h v r s = pubKeyToAddress pad_hash toy_secp r"

definition anchor_env :: call_env where
  "anchor_env = \<lparr>env_sender = anchor_addr, env_block_number = 100\<rparr>"

definition example_anchor :: "uint64 \<Rightarrow> CheckpointAnchor" where
  "example_anchor latest = \<lparr>ca_owner = anchor_addr, ca_quorumRequired = 1, ca_isRelayer = (\<lambda>a. a = anchor_addr),
     ca_relayers = [anchor_addr], ca_checkpoints = (\<lambda>_. zero_sol_Checkpoint), ca_latestEpoch = latest\<rparr>"


lemma anchor_addr: "anchor_addr = replicate 20 (CHR ''k'')"
  by (simp add: AddressFromPrivKey_def pubKeyToAddress_def toy_secp_def anchor_key_def pad32_def Keccak256_concat pad_hash_def
      go_copy_def)

lemma anchor_key_ok: "key_ok toy_secp (cfg_PrivKey (r_cfg anchor_relayer))"
  by (simp add: key_ok_def anchor_relayer_def relayer_New_def anchor_key_def toy_secp_def pad32_def zeros_def numeral_eq_Suc)

definition anchor_http :: "nat \<Rightarrow> unit http_api" where
  "anchor_http n =
    \<lparr>http_NewRequest = (\<lambda>req. None),
     http_Do = (\<lambda>w req. (Inr \<lparr>body_all = Inr (Some (block_response (digits n) ''AB01'')), body_first = Inr None\<rparr>, w))\<rparr>"


lemma anchor_height: "n < 2 ^ 64 \<Longrightarrow> parseBlock (Some (block_response (digits n) ''AB01'')) = Inr (of_nat n, ''AB01'')"
  using Sscanf_digits [of "[]" "[]" n] by (simp add: parse_block_response)

lemma anchor_slots: "cfg_EpochSlots (r_cfg anchor_relayer) = 14400" "r_lastEpoch anchor_relayer = 0"
  "cfg_PrivKey (r_cfg anchor_relayer) = anchor_key"
  by (simp_all add: anchor_relayer_def relayer_New_def)

lemma anchor_addr_pos: "zeros 20 < anchor_addr"
  unfolding anchor_addr zeros_def by (simp add: numeral_eq_Suc less_char_def)

text \<open>C36: Anchored checkpoints are final. From the constructor on, along every sequence of calls by anyone, an
  anchored checkpoint is never changed or removed and is stored under its own epoch. The anchored epochs above 0 are an
  interval that ends at \<open>latestEpoch\<close>, and new ones are later than all of them; beside them epoch 0 may be
  anchored, but only as long as \<open>latestEpoch\<close> is 0 (the interval need not begin at 1 then).\<close>

theorem checkpoints_final:
  assumes "anchor_constructor env rs q = Inr (c0, evs)" and "(sol_step keccak ecrecover)\<^sup>*\<^sup>* c0 c"
    and "(sol_step keccak ecrecover)\<^sup>*\<^sup>* c c'"
  shows "(\<forall>e. anchored c e \<longrightarrow> sc_epoch (ca_checkpoints c e) = e \<and> anchored c' e \<and> ca_checkpoints c' e = ca_checkpoints c e) \<and>
    (\<exists>first. \<forall>e. 0 < e \<longrightarrow> (anchored c e \<longleftrightarrow> first \<le> e \<and> e \<le> ca_latestEpoch c)) \<and>
    (\<forall>e. anchored c' e \<and> \<not> anchored c e \<longrightarrow> ca_latestEpoch c < e \<or> e = 0 \<and> ca_latestEpoch c = 0)"
proof -
  have "anchor_ok c0" by (rule constructor_ok [OF assms(1)])
  with assms(2) have "anchor_ok c" by (induction rule: rtranclp_induct) (auto intro: sol_step_ok)
  then show ?thesis
    using sol_steps_kept [OF assms(3)] sol_steps_order [OF assms(3)] unfolding anchor_ok_def by blast
qed

definition anchor_sig :: bytes where
  "anchor_sig = anchor_key @ zeros 32 @ [CHR 0x1B]"

lemma anchor_sig: "signed_by toy_ecrecover h (anchor_addr, anchor_sig)"
  by (simp add: signed_by_def anchor_sig_def toy_ecrecover_def anchor_key_def AddressFromPrivKey_def toy_secp_def pad32_def)

text \<open>A submission of the example relayer for an epoch that the contract takes next.\<close>

lemma example_submit:
  assumes "ca_isRelayer c = (\<lambda>a. a = anchor_addr)" "ca_quorumRequired c = 1" "next_epoch c e"
  shows "sol_step pad_hash toy_ecrecover c (anchor_at anchor_env c (example_cp e))"
proof -
  let ?cp = "example_cp e"
  have e: "cp_Epoch ?cp = e" by (simp add: example_cp_def checkpoint_New_def)
  have ok: "ca_isRelayer c (env_sender anchor_env)" "next_epoch c (cp_Epoch ?cp)"
    "quorum_signed pad_hash toy_ecrecover c ?cp [anchor_addr] [anchor_sig]"
    using anchor_addr_pos assms e by (simp_all add: anchor_env_def quorum_signed_def anchor_sig)
  then obtain evs where "submitCheckpoint pad_hash toy_ecrecover anchor_env c (cp_Epoch ?cp) (cp_BlockHash ?cp)
      (cp_ValidatorSetHash ?cp) [anchor_addr] [anchor_sig] = Inr (anchor_at anchor_env c ?cp, evs)"
    using submit_cases(1) by blast
  then have "sol_exec pad_hash toy_ecrecover anchor_env c
      (CallSubmit (cp_Epoch ?cp) (cp_BlockHash ?cp) (cp_ValidatorSetHash ?cp) [anchor_addr] [anchor_sig]) =
      Inr (anchor_at anchor_env c ?cp, evs)" by simp
  then show ?thesis by (rule sol_step.call) (simp add: anchor_env_def)
qed

text \<open>The gap that epoch 0 leaves: after epochs 0 and 5 have been anchored, epoch 3 never is.\<close>

definition gap_anchor :: CheckpointAnchor where
  "gap_anchor = anchor_at anchor_env (anchor_at anchor_env (example_anchor 0) (example_cp 0)) (example_cp 5)"

lemma gap_steps: "(sol_step pad_hash toy_ecrecover)\<^sup>*\<^sup>* (example_anchor 0) gap_anchor"
proof -
  let ?c = "anchor_at anchor_env (example_anchor 0) (example_cp 0)"
  have "sol_step pad_hash toy_ecrecover (example_anchor 0) ?c"
    by (rule example_submit) (simp_all add: example_anchor_def next_epoch_def anchored_def zero_sol_Checkpoint_def)
  moreover have "sol_step pad_hash toy_ecrecover ?c gap_anchor"
    unfolding gap_anchor_def
    by (rule example_submit)
      (simp_all add: example_anchor_def next_epoch_def anchored_def zero_sol_Checkpoint_def anchor_at_def example_cp_def checkpoint_New_def)
  ultimately show ?thesis by (rule converse_rtranclp_into_rtranclp [OF _ r_into_rtranclp])
qed

lemma gap_anchored: "anchored gap_anchor 0" "anchored gap_anchor 5" "\<not> anchored gap_anchor 3" "ca_latestEpoch gap_anchor = 5"
  by (simp_all add: gap_anchor_def anchored_def anchor_at_def example_anchor_def zero_sol_Checkpoint_def example_cp_def
      checkpoint_New_def anchor_env_def)

lemma example_constructed: "anchor_constructor anchor_env [anchor_addr] 1 = Inr (example_anchor 0, [RelayerAdded anchor_addr])"
  by (auto simp: anchor_constructor_def add_relayer_def example_anchor_def anchor_env_def fun_eq_iff)

lemma epoch_zero_gap:
  assumes "(sol_step pad_hash toy_ecrecover)\<^sup>*\<^sup>* gap_anchor c"
  shows "anchored c 0 \<and> anchored c 5 \<and> \<not> anchored c 3"
  using sol_steps_kept [OF assms gap_anchored(1)] sol_steps_kept [OF assms gap_anchored(2)] sol_steps_order [OF assms] gap_anchored(3,4)
  by auto

theorem checkpoints_final_witness:
  "anchored gap_anchor 5 \<and> sc_epoch (ca_checkpoints gap_anchor 5) = 5 \<and>
   (\<exists>first. \<forall>e. anchored gap_anchor e \<longleftrightarrow> e = 0 \<or> 0 < e \<and> first \<le> e \<and> e \<le> 5)"
proof -
  note T = checkpoints_final [OF example_constructed gap_steps rtranclp.rtrancl_refl]
  have e: "sc_epoch (ca_checkpoints gap_anchor 5) = 5" using T gap_anchored(2) by blast
  obtain first where f: "\<And>e. 0 < e \<Longrightarrow> anchored gap_anchor e \<longleftrightarrow> first \<le> e \<and> e \<le> 5"
    using T gap_anchored(4) by auto
  then have "anchored gap_anchor e \<longleftrightarrow> e = 0 \<or> 0 < e \<and> first \<le> e \<and> e \<le> 5" for e
    using gap_anchored(1) f [of e] by (cases "e = 0") (simp_all add: word_gt_0)
  with e gap_anchored(2) show ?thesis by blast
qed

text \<open>C37: The contract accepts a checkpoint exactly when it should, by the hashes of the Go code. A call succeeds
  exactly for a relayer as sender, the next epoch, and at least the required number of signatures by distinct
  registered relayers in ascending order, each of which recovers to its signer on the digest that the Go
  package \<open>checkpoint\<close> computes (the two encodings agree byte by byte); it then stores exactly this checkpoint.\<close>

theorem submitCheckpoint_iff:
  "(case submitCheckpoint keccak ecrecover env c (cp_Epoch cp) (cp_BlockHash cp) (cp_ValidatorSetHash cp) signers sigs of
      Inl err \<Rightarrow> None | Inr (c', evs) \<Rightarrow> Some c') =
    (if ca_isRelayer c (env_sender env) \<and> next_epoch c (cp_Epoch cp) \<and> quorum_signed keccak ecrecover c cp signers sigs
     then Some (anchor_at env c cp) else None)"
proof (cases "submitCheckpoint keccak ecrecover env c (cp_Epoch cp) (cp_BlockHash cp) (cp_ValidatorSetHash cp) signers sigs")
  case (Inl err)
  then show ?thesis using submit_cases(1) by fastforce
next
  case (Inr res)
  then show ?thesis using submit_cases(2) by (cases res) fastforce
qed



text \<open>C39: A missed epoch is never made up for. The contract takes only the epoch after its last one, and the relayer
  submits only the epoch of the newest block. If every block that the relayer has read in a run lies beyond the next
  epoch of the contract, then every request that it has posted, in any number of polls and whatever the Ethereum
  node answered, is a transaction that the contract refuses, by whichever sender and in whichever block it is
  executed and however its calldata is decoded.\<close>

theorem missed_epoch_refused:
  assumes "go_sort sort_slice"
    and "Run keccak S (recorded H) (HTTPSubmitter_Submit keccak sort_slice (recorded H) s) (apfst tick) n r (w, []) =
      (anchors, r', w', log)"
    and "\<And>height. block_read r log height \<Longrightarrow> ca_latestEpoch c + 1 < height div cfg_EpochSlots (r_cfg r)"
    and "ca_latestEpoch c \<noteq> 0" and "(req, ans) \<in> set log" and "q_Method req = ''POST''"
  shows "\<exists>call. req = tx_request s call \<and> (\<forall>rel env. \<not> accepts_calldata rel keccak ecrecover env c call)"
proof -
  have "log_ok keccak sort_slice s r log" using Run_log [OF assms(2)] by (simp add: log_ok_def)
  moreover have "req \<noteq> block_request r" using assms(6) by (auto simp: block_request_def)
  ultimately obtain call height where h: "block_read r log height"
    "tx_for keccak sort_slice s req call (height div cfg_EpochSlots (r_cfg r))"
    using assms(5) by (fastforce simp: log_ok_def)
  have "\<not> next_epoch c (height div cfg_EpochSlots (r_cfg r))"
    using assms(3) [OF h(1)] assms(4) by (auto simp: next_epoch_def)
  with h(2) show ?thesis using calldata_gap [OF assms(1)] unfolding tx_for_def by metis
qed

theorem missed_epoch_refused_witness:
  "\<exists>w log req ans call. Run pad_hash toy_secp (recorded (anchor_http 60000))
      (HTTPSubmitter_Submit pad_hash insertion_sort (recorded (anchor_http 60000)) (NewHTTPSubmitter ''http://l1'' ''0xC0''))
      (apfst (\<lambda>_. ())) 1 anchor_relayer ((), []) = ([], anchor_relayer, w, log) \<and> (req, ans) \<in> set log \<and>
    req = tx_request (NewHTTPSubmitter ''http://l1'' ''0xC0'') call \<and>
    \<not> accepts_calldata 32 pad_hash toy_ecrecover anchor_env (example_anchor 1) call"
proof -
  let ?H = "anchor_http 60000" and ?s = "NewHTTPSubmitter ''http://l1'' ''0xC0''" and ?blk = "Some (block_response (digits 60000) ''AB01'')"
  let ?submit = "HTTPSubmitter_Submit pad_hash insertion_sort (recorded ?H) ?s"
  let ?l = "[(block_request anchor_relayer, Inr \<lparr>body_all = Inr ?blk, body_first = Inr None\<rparr>)]"
  let ?cp = "checkpoint_New 4 (go_copy (zeros 32) [CHR 0xAB, CHR 0x01]) (computeValSetHash pad_hash 4)"
  have n: "(60000 :: nat) < 2 ^ 64" by simp
  have l: "latestBlock (recorded ?H) anchor_relayer ((), []) = (Inr ?blk, ((), ?l))"
    by (simp add: latestBlock_recorded anchor_http_def)
  have e: "(of_nat 60000 :: uint64) div cfg_EpochSlots (r_cfg anchor_relayer) = 4" by (simp add: anchor_slots)
  have lt: "r_lastEpoch anchor_relayer < of_nat 60000 div cfg_EpochSlots (r_cfg anchor_relayer)" "cfg_EpochSlots (r_cfg anchor_relayer) \<noteq> 0"
    by (simp_all add: anchor_slots)
  obtain sig where sig: "signs_for pad_hash toy_secp (cfg_PrivKey (r_cfg anchor_relayer)) ?cp sig"
    and poll: "poll pad_hash toy_secp (recorded ?H) ?submit anchor_relayer ((), []) =
      report anchor_relayer 4 (?submit ((), ?l) ?cp [anchor_addr] [sig])"
    using poll_submits [OF secp_ok_toy hash32_pad_hash anchor_key_ok lt(2) l anchor_height [OF n] lt(1) example_hash, of ?submit]
    unfolding e anchor_slots(3) by metis
  obtain call where call: "encodeSubmitCheckpoint pad_hash insertion_sort 4 (cp_BlockHash ?cp) (cp_ValidatorSetHash ?cp) [anchor_addr] [sig] = Inr call"
    using encode_single [OF insertion.go_sort_axioms, of "cp_BlockHash ?cp" "cp_ValidatorSetHash ?cp" anchor_addr sig pad_hash 4] sig
    by (auto simp: checkpoint_New_def signs_for_def AddressFromPrivKey_def length_address)
  let ?a = "Inr \<lparr>body_all = Inr ?blk, body_first = Inr None\<rparr> :: error + Body"
  have "tx_answer ?a = None" by (simp add: tx_answer_def unmarshal_def)
  then obtain err where "?submit ((), ?l) ?cp [anchor_addr] [sig] = (Inl err, ((), ?l @ [(tx_request ?s call, ?a)]))"
    using ethSendTransaction_recorded [of ?H "()" ?s call ?a "()" ?l] call
    by (auto simp: HTTPSubmitter_Submit_def checkpoint_New_def anchor_http_def)
  then have p: "poll pad_hash toy_secp (recorded ?H) ?submit anchor_relayer ((), []) =
      (Some (Errorf ''submit epoch %d: %w'' [AInt 4, AErr err]), None, anchor_relayer, ((), ?l @ [(tx_request ?s call, ?a)]))"
    by (simp add: poll report_def)
  have run: "Run pad_hash toy_secp (recorded ?H) ?submit (apfst (\<lambda>_. ())) 1 anchor_relayer ((), []) =
      ([], anchor_relayer, ((), ?l @ [(tx_request ?s call, ?a)]))"
    by (simp add: p is_panic_def)
  have read: "ca_latestEpoch (example_anchor 1) + 1 < height div cfg_EpochSlots (r_cfg anchor_relayer)"
    if "block_read anchor_relayer (?l @ [(tx_request ?s call, ?a)]) height" for height
  proof -
    have "height = of_nat 60000"
      using that anchor_height [OF n] by (auto simp: block_read_def block_request_def tx_request_def)
    then show ?thesis by (simp add: anchor_slots example_anchor_def)
  qed
  have post: "(tx_request ?s call, ?a) \<in> set (?l @ [(tx_request ?s call, ?a)])" "q_Method (tx_request ?s call) = ''POST''"
    "ca_latestEpoch (example_anchor 1) \<noteq> 0"
    by (simp_all add: tx_request_def example_anchor_def)
  from missed_epoch_refused [OF insertion.go_sort_axioms run read post(3,1,2), of toy_ecrecover] run post(1)
  show ?thesis by blast
qed

end
