(* ===== verification/Validator.thy ===== *)
theory Validator
  imports Types
begin

text \<open>
  The validator client, after \<open>cmd/validator/main.go\<close>: its settings, what one job event makes it do, and the event
  loop with its goroutines. The packages it is built from (listener, router, broadcaster, observer, voter) are not
  in the repository, so the calls are parameters: functions in the sequential handler (record \<open>client\<close>), and
  in the running client two events, the call and its return, of which the second may never come. The loop, the goroutines
  and the signal that ends the process interleave in every order.
\<close>

section \<open>Settings\<close>

definition envOrDefault :: "(string \<Rightarrow> string) \<Rightarrow> string \<Rightarrow> string \<Rightarrow> string" where
  "envOrDefault getenv key def = (let v = getenv key in if v \<noteq> [] then v else def)"

text \<open>The defaults of the flags; \<open>flag.Parse\<close> may replace each of them.\<close>

record validator_flags =
  vf_chainRPC :: string
  vf_backendURL :: string
  vf_backendAPIKey :: string
  vf_backendModel :: string
  vf_validatorAddr :: string
  vf_blsPubKey :: string
  vf_blsPrivKey :: string
  vf_votePolicy :: string

definition default_flags :: "(string \<Rightarrow> string) \<Rightarrow> validator_flags" where
  "default_flags getenv =
    \<lparr>vf_chainRPC = envOrDefault getenv ''BIGT_RPC'' ''http://localhost:26657'',
     vf_backendURL = envOrDefault getenv ''BACKEND_URL'' ''https://api.together.xyz/v1'',
     vf_backendAPIKey = getenv ''BACKEND_API_KEY'',
     vf_backendModel = envOrDefault getenv ''BACKEND_MODEL'' ''meta-llama/Llama-3.3-70B-Instruct-Turbo'',
     vf_validatorAddr = getenv ''VALIDATOR_ADDR'',
     vf_blsPubKey = getenv ''BLS_PUB_KEY'',
     vf_blsPrivKey = getenv ''BLS_PRIV_KEY'',
     vf_votePolicy = envOrDefault getenv ''VOTE_POLICY'' ''verify''\<rparr>"

record router_Config =
  rc_URL :: string
  rc_APIKey :: string
  rc_Model :: string

record broadcaster_Config =
  bc_ChainRPC :: string
  bc_ValidatorAddr :: string
  bc_BLSPubKey :: string
  bc_BLSPrivKeyHex :: string

record validator_parts =
  vp_router :: router_Config
  vp_broadcaster :: broadcaster_Config
  vp_observer :: string
  vp_voter :: "string \<times> string"

text \<open>\<open>main\<close> up to the event loop; \<open>listener_New\<close> is the error of \<open>listener.New\<close>, and \<open>Inl\<close> the message
  before the process ends.\<close>

definition validator_setup :: "(string \<Rightarrow> string \<Rightarrow> error option) \<Rightarrow> validator_flags \<Rightarrow> error + validator_parts" where
  "validator_setup listener_New fl =
    (if vf_validatorAddr fl = [] then Inl (Errorf ''error: --validator-addr is required'' [])
     else
       (case listener_New (vf_chainRPC fl) (vf_validatorAddr fl) of
          Some e \<Rightarrow> Inl (Errorf ''listener: %v'' [AErr e])
        | None \<Rightarrow>
            Inr \<lparr>vp_router = \<lparr>rc_URL = vf_backendURL fl, rc_APIKey = vf_backendAPIKey fl, rc_Model = vf_backendModel fl\<rparr>,
                 vp_broadcaster = \<lparr>bc_ChainRPC = vf_chainRPC fl, bc_ValidatorAddr = vf_validatorAddr fl,
                   bc_BLSPubKey = vf_blsPubKey fl, bc_BLSPrivKeyHex = vf_blsPrivKey fl\<rparr>,
                 vp_observer = vf_validatorAddr fl,
                 vp_voter = (vf_validatorAddr fl, vf_votePolicy fl)\<rparr>))"

lemma validator_setup_iff:
  "validator_setup listener_New fl = Inr vp \<longleftrightarrow>
    vf_validatorAddr fl \<noteq> [] \<and> listener_New (vf_chainRPC fl) (vf_validatorAddr fl) = None \<and>
    vp_router vp = \<lparr>rc_URL = vf_backendURL fl, rc_APIKey = vf_backendAPIKey fl, rc_Model = vf_backendModel fl\<rparr> \<and>
    bc_ChainRPC (vp_broadcaster vp) = vf_chainRPC fl \<and> bc_ValidatorAddr (vp_broadcaster vp) = vf_validatorAddr fl \<and>
    bc_BLSPubKey (vp_broadcaster vp) = vf_blsPubKey fl \<and> bc_BLSPrivKeyHex (vp_broadcaster vp) = vf_blsPrivKey fl \<and>
    vp_observer vp = vf_validatorAddr fl \<and> vp_voter vp = (vf_validatorAddr fl, vf_votePolicy fl)"
  by (cases vp; cases "vp_broadcaster vp") (auto simp: validator_setup_def split: option.splits)

section \<open>Job events\<close>

text \<open>The calls of \<open>router.Infer\<close> (with the time it has, in nanoseconds), \<open>broadcaster.Broadcast\<close> and
  \<open>observer.RecordJob\<close>.\<close>

record 'w client =
  cl_Infer :: "'w \<Rightarrow> int64 \<Rightarrow> string \<Rightarrow> float64 \<Rightarrow> int64 \<Rightarrow> (error + string) \<times> 'w"
  cl_Broadcast :: "'w \<Rightarrow> string \<Rightarrow> int64 \<Rightarrow> string \<Rightarrow> 'w outcome"
  cl_RecordJob :: "'w \<Rightarrow> string \<Rightarrow> bytes \<Rightarrow> string \<Rightarrow> 'w"

definition infer_with_retry :: "'w client \<Rightarrow> 'w \<Rightarrow> JobRequest \<Rightarrow> (error + string) \<times> 'w" where
  "infer_with_retry C w req =
    (case cl_Infer C w 3000000000 (jr_JobID req) (p_Temperature (jr_Params req)) (p_MaxTokens (jr_Params req)) of
       (Inr output, w) \<Rightarrow> (Inr output, w)
     | (Inl _, w) \<Rightarrow>
         (case cl_Infer C w 500000000 (jr_JobID req) (p_Temperature (jr_Params req)) (p_MaxTokens (jr_Params req)) of
            (Inr output, w) \<Rightarrow> (Inr output, w)
          | (Inl e, w) \<Rightarrow> (Inl (Errorf ''inference failed after retry: %w'' [AErr e]), w)))"

definition handleJob :: "'w client \<Rightarrow> 'w \<Rightarrow> JobRequest \<Rightarrow> 'w outcome" where
  "handleJob C w req =
    (case infer_with_retry C w req of
       (Inl e, w) \<Rightarrow> (Some e, w)
     | (Inr output, w) \<Rightarrow>
         (case cl_Broadcast C w (jr_JobID req) 0 output of
            (Some e, w) \<Rightarrow> (Some (Errorf ''broadcast commitment: %w'' [AErr e]), w)
          | (None, w) \<Rightarrow> (None, w)))"

text \<open>What one job event makes the client do: serve the job when it is the elected server of the slot, observe it
  otherwise. Each event runs in its own goroutine; an error is only logged.\<close>

definition handleEvent :: "'w client \<Rightarrow> string \<Rightarrow> 'w \<Rightarrow> JobRequest \<Rightarrow> string \<Rightarrow> 'w outcome" where
  "handleEvent C validatorAddr w req srv =
    (if srv = validatorAddr then handleJob C w req
     else (None, cl_RecordJob C w (jr_JobID req) (jr_PromptHash req) srv))"

section \<open>Traces of the validator client\<close>

text \<open>A client whose calls are written down, with what they returned.\<close>

datatype call =
    CInfer int64 string float64 int64 "error + string"
  | CBroadcast string int64 string "error option"
  | CRecord string bytes string

definition traced :: "'w client \<Rightarrow> ('w \<times> call list) client" where
  "traced C =
    \<lparr>cl_Infer = (\<lambda>(w, t) d j x n. case cl_Infer C w d j x n of (r, w) \<Rightarrow> (r, w, t @ [CInfer d j x n r])),
     cl_Broadcast = (\<lambda>(w, t) j i out. case cl_Broadcast C w j i out of (r, w) \<Rightarrow> (r, w, t @ [CBroadcast j i out r])),
     cl_RecordJob = (\<lambda>(w, t) j h srv. (cl_RecordJob C w j h srv, t @ [CRecord j h srv]))\<rparr>"

text \<open>An inference attempt for a request, with \<open>k\<close> attempts left: the first one has three seconds, the
  second one half a second.\<close>

fun attempt :: "JobRequest \<Rightarrow> nat \<Rightarrow> call \<Rightarrow> bool" where
  "attempt req k (CInfer d j x n r) \<longleftrightarrow> d = (if k = 2 then 3000000000 else 500000000) \<and>
    j = jr_JobID req \<and> x = p_Temperature (jr_Params req) \<and> n = p_MaxTokens (jr_Params req)"
| "attempt req k _ \<longleftrightarrow> False"

text \<open>What may be seen of a served job: a list of inference attempts, all but the last of which failed, then
  one broadcast of the output of the last one, if it has any.\<close>

fun served :: "JobRequest \<Rightarrow> nat \<Rightarrow> error option \<Rightarrow> call list \<Rightarrow> bool" where
  "served req k err [] \<longleftrightarrow> err \<noteq> None \<and> k = 0"
| "served req k err (CInfer d j x n (Inl e) # t) \<longleftrightarrow>
    attempt req k (CInfer d j x n (Inl e)) \<and> (case k of 0 \<Rightarrow> False | Suc k \<Rightarrow> served req k err t)"
| "served req k err (CInfer d j x n (Inr out) # t) \<longleftrightarrow>
    attempt req k (CInfer d j x n (Inr out)) \<and> 0 < k \<and>
    (\<exists>b. t = [CBroadcast (jr_JobID req) 0 out b] \<and> (err = None \<longleftrightarrow> b = None))"
| "served req k err _ \<longleftrightarrow> False"

lemma handleJob_served: "case handleJob (traced C) (w, []) req of (err, w', t) \<Rightarrow> served req 2 err t"
  by (simp add: handleJob_def infer_with_retry_def traced_def numeral_2_eq_2 split: prod.splits sum.splits option.splits)

section \<open>Goroutines\<close>

text \<open>The events of a goroutine: calls, and returns with what was returned.\<close>

datatype act =
    AInfer int64 string float64 int64
  | AInferred "error + string"
  | ABroadcast string int64 string
  | ASent "error option"
  | ARecord string bytes string
  | ARecorded

primrec call_acts :: "call \<Rightarrow> act list" where
  "call_acts (CInfer d j x n res) = [AInfer d j x n, AInferred res]"
| "call_acts (CBroadcast j i out res) = [ABroadcast j i out, ASent res]"
| "call_acts (CRecord j h srv) = [ARecord j h srv, ARecorded]"

text \<open>Where a goroutine stands: before a call, in a call, or at its end.\<close>

datatype task =
    TServe JobRequest
  | TInferring JobRequest
  | TRetry JobRequest
  | TReinferring JobRequest
  | TBroadcast JobRequest string
  | TSending JobRequest string
  | TObserve JobRequest string
  | TRecording JobRequest string
  | TDone

definition start_task :: "string \<Rightarrow> JobRequest \<times> string \<Rightarrow> task" where
  "start_task validatorAddr ev =
    (case ev of (req, srv) \<Rightarrow> if srv = validatorAddr then TServe req else TObserve req srv)"

abbreviation infer_act :: "JobRequest \<Rightarrow> int64 \<Rightarrow> act" where
  "infer_act req d \<equiv> AInfer d (jr_JobID req) (p_Temperature (jr_Params req)) (p_MaxTokens (jr_Params req))"

inductive task_step :: "task \<Rightarrow> act \<Rightarrow> task \<Rightarrow> bool" where
  infer: "task_step (TServe req) (infer_act req 3000000000) (TInferring req)"
| inferred: "task_step (TInferring req) (AInferred (Inr output)) (TBroadcast req output)"
| failed: "task_step (TInferring req) (AInferred (Inl e)) (TRetry req)"
| retry: "task_step (TRetry req) (infer_act req 500000000) (TReinferring req)"
| reinferred: "task_step (TReinferring req) (AInferred (Inr output)) (TBroadcast req output)"
| refailed: "task_step (TReinferring req) (AInferred (Inl e)) TDone"
| broadcast: "task_step (TBroadcast req output) (ABroadcast (jr_JobID req) 0 output) (TSending req output)"
| sent: "task_step (TSending req output) (ASent err) TDone"
| observe: "task_step (TObserve req srv) (ARecord (jr_JobID req) (jr_PromptHash req) srv) (TRecording req srv)"
| observed: "task_step (TRecording req srv) ARecorded TDone"

declare task_step.intros [intro]

inductive_simps task_step_simps [simp]:
  "task_step (TServe req) a t" "task_step (TInferring req) a t" "task_step (TRetry req) a t" "task_step (TReinferring req) a t"
  "task_step (TBroadcast req output) a t" "task_step (TSending req output) a t" "task_step (TObserve req srv) a t"
  "task_step (TRecording req srv) a t" "task_step TDone a t"

fun task_run :: "task \<Rightarrow> act list \<Rightarrow> task \<Rightarrow> bool" where
  "task_run t [] u \<longleftrightarrow> u = t"
| "task_run t (a # as) u \<longleftrightarrow> (\<exists>t'. task_step t a t' \<and> task_run t' as u)"

text \<open>When every call returns, a goroutine does what the handler of its event does: its events are those of the
  handler's calls.\<close>

lemma handleEvent_task_run:
  "case handleEvent (traced C) addr (w, []) req srv of (err, w', cs) \<Rightarrow>
     task_run (start_task addr (req, srv)) (concat (map call_acts cs)) TDone"
  by (auto simp: handleEvent_def handleJob_def infer_with_retry_def traced_def start_task_def
      split: prod.splits sum.splits option.splits)

section \<open>The event loop\<close>

text \<open>The state of the running client: the events received so far, the goroutine of each, whether the context is cancelled,
  whether \<open>main\<close> has returned, and what has happened so far in the goroutines, by the number of the event. After
  the signal the loop may still take an event, since \<open>select\<close> picks any case that is ready; when \<open>main\<close>
  returns, every goroutine ends with it.\<close>

record client_state =
  cs_events :: "(JobRequest \<times> string) list"
  cs_tasks :: "task list"
  cs_cancelled :: bool
  cs_exited :: bool
  cs_trace :: "(nat \<times> act) list"

inductive client_step :: "string \<Rightarrow> client_state \<Rightarrow> client_state \<Rightarrow> bool" for validatorAddr where
  receive: "\<not> cs_exited s \<Longrightarrow> client_step validatorAddr s
    (s\<lparr>cs_events := cs_events s @ [ev], cs_tasks := cs_tasks s @ [start_task validatorAddr ev]\<rparr>)"
| run: "\<not> cs_exited s \<Longrightarrow> i < length (cs_tasks s) \<Longrightarrow> task_step (cs_tasks s ! i) a t \<Longrightarrow>
    client_step validatorAddr s (s\<lparr>cs_tasks := (cs_tasks s)[i := t], cs_trace := cs_trace s @ [(i, a)]\<rparr>)"
| signal: "\<not> cs_exited s \<Longrightarrow> client_step validatorAddr s (s\<lparr>cs_cancelled := True\<rparr>)"
| shutdown: "\<not> cs_exited s \<Longrightarrow> cs_cancelled s \<Longrightarrow> client_step validatorAddr s (s\<lparr>cs_exited := True\<rparr>)"

definition client_start :: client_state where
  "client_start = \<lparr>cs_events = [], cs_tasks = [], cs_cancelled = False, cs_exited = False, cs_trace = []\<rparr>"

definition acts_of :: "nat \<Rightarrow> (nat \<times> act) list \<Rightarrow> act list" where
  "acts_of i tr = map snd (filter (\<lambda>p. fst p = i) tr)"

lemma acts_of_simps [simp]: "acts_of i [] = []" "acts_of i (tr @ [(j, a)]) = acts_of i tr @ (if j = i then [a] else [])"
  by (simp_all add: acts_of_def)

lemma acts_of_fresh: "\<forall>p \<in> set tr. fst p < n \<Longrightarrow> acts_of n tr = []"
  by (induction tr) (auto simp: acts_of_def)

text \<open>The complete traces of an event.\<close>

definition event_calls :: "string \<Rightarrow> JobRequest \<times> string \<Rightarrow> call list \<Rightarrow> bool" where
  "event_calls validatorAddr ev cs \<longleftrightarrow>
    (case ev of (req, srv) \<Rightarrow>
       if srv = validatorAddr then \<exists>err. served req 2 err cs
       else cs = [CRecord (jr_JobID req) (jr_PromptHash req) srv])"

definition complete :: "string \<Rightarrow> JobRequest \<times> string \<Rightarrow> act list \<Rightarrow> bool" where
  "complete validatorAddr ev as \<longleftrightarrow> (\<exists>cs. event_calls validatorAddr ev cs \<and> as = concat (map call_acts cs))"

lemma complete_serve:
  "complete addr (req, addr) [infer_act req 3000000000, AInferred (Inr out), ABroadcast (jr_JobID req) 0 out, ASent res]"
  "complete addr (req, addr) [infer_act req 3000000000, AInferred (Inl e), infer_act req 500000000, AInferred (Inl e')]"
  "complete addr (req, addr) [infer_act req 3000000000, AInferred (Inl e), infer_act req 500000000, AInferred (Inr out),
     ABroadcast (jr_JobID req) 0 out, ASent res]"
proof -
  let ?i = "\<lambda>d res. CInfer d (jr_JobID req) (p_Temperature (jr_Params req)) (p_MaxTokens (jr_Params req)) res"
  let ?b = "CBroadcast (jr_JobID req) 0 out res"
  have "served req 2 res [?i 3000000000 (Inr out), ?b]"
    "served req 2 (Some e) [?i 3000000000 (Inl e), ?i 500000000 (Inl e')]"
    "served req 2 res [?i 3000000000 (Inl e), ?i 500000000 (Inr out), ?b]"
    by (simp_all add: numeral_2_eq_2)
  then have c: "event_calls addr (req, addr) [?i 3000000000 (Inr out), ?b]"
    "event_calls addr (req, addr) [?i 3000000000 (Inl e), ?i 500000000 (Inl e')]"
    "event_calls addr (req, addr) [?i 3000000000 (Inl e), ?i 500000000 (Inr out), ?b]"
    unfolding event_calls_def prod.case if_P [OF refl] by blast+
  show "complete addr (req, addr) [infer_act req 3000000000, AInferred (Inr out), ABroadcast (jr_JobID req) 0 out, ASent res]"
    "complete addr (req, addr) [infer_act req 3000000000, AInferred (Inl e), infer_act req 500000000, AInferred (Inl e')]"
    "complete addr (req, addr) [infer_act req 3000000000, AInferred (Inl e), infer_act req 500000000, AInferred (Inr out),
     ABroadcast (jr_JobID req) 0 out, ASent res]"
    using c unfolding complete_def by force+
qed

lemma complete_observe: "srv \<noteq> addr \<Longrightarrow> complete addr (req, srv) [ARecord (jr_JobID req) (jr_PromptHash req) srv, ARecorded]"
  by (simp add: complete_def event_calls_def)

text \<open>What a goroutine has done when it stands at a given place.\<close>

fun task_ok :: "string \<Rightarrow> JobRequest \<times> string \<Rightarrow> task \<Rightarrow> act list \<Rightarrow> bool" where
  "task_ok addr (req, srv) (TServe r) as \<longleftrightarrow> srv = addr \<and> r = req \<and> as = []"
| "task_ok addr (req, srv) (TInferring r) as \<longleftrightarrow> srv = addr \<and> r = req \<and> as = [infer_act req 3000000000]"
| "task_ok addr (req, srv) (TRetry r) as \<longleftrightarrow> srv = addr \<and> r = req \<and> (\<exists>e. as = [infer_act req 3000000000, AInferred (Inl e)])"
| "task_ok addr (req, srv) (TReinferring r) as \<longleftrightarrow> srv = addr \<and> r = req \<and>
    (\<exists>e. as = [infer_act req 3000000000, AInferred (Inl e), infer_act req 500000000])"
| "task_ok addr (req, srv) (TBroadcast r out) as \<longleftrightarrow> srv = addr \<and> r = req \<and>
    (as = [infer_act req 3000000000, AInferred (Inr out)] \<or>
     (\<exists>e. as = [infer_act req 3000000000, AInferred (Inl e), infer_act req 500000000, AInferred (Inr out)]))"
| "task_ok addr (req, srv) (TSending r out) as \<longleftrightarrow> srv = addr \<and> r = req \<and>
    (as = [infer_act req 3000000000, AInferred (Inr out), ABroadcast (jr_JobID req) 0 out] \<or>
     (\<exists>e. as = [infer_act req 3000000000, AInferred (Inl e), infer_act req 500000000, AInferred (Inr out),
       ABroadcast (jr_JobID req) 0 out]))"
| "task_ok addr (req, srv) (TObserve r s) as \<longleftrightarrow> srv \<noteq> addr \<and> r = req \<and> s = srv \<and> as = []"
| "task_ok addr (req, srv) (TRecording r s) as \<longleftrightarrow> srv \<noteq> addr \<and> r = req \<and> s = srv \<and>
    as = [ARecord (jr_JobID req) (jr_PromptHash req) srv]"
| "task_ok addr ev TDone as \<longleftrightarrow> complete addr ev as"

lemma task_ok_start: "task_ok addr ev (start_task addr ev) []"
  by (cases ev) (simp add: start_task_def)

lemma task_ok_step:
  assumes "task_ok addr ev t as" "task_step t a t'"
  shows "task_ok addr ev t' (as @ [a])"
  using assms(2,1) by (cases ev; induction rule: task_step.induct) (auto intro: complete_serve complete_observe)

lemma task_ok_prefix:
  assumes "task_ok addr ev t as"
  shows "\<exists>full. complete addr ev full \<and> prefix as full"
proof -
  obtain req srv where ev: "ev = (req, srv)" by force
  note C = complete_serve [of addr req] complete_observe [of srv addr req]
  have "\<exists>more. complete addr (req, srv) (as @ more)"
  proof (cases "srv = addr")
    case True
    show ?thesis
    proof (cases t)
      case (TServe r)
      with assms ev C(1) [of undefined undefined] show ?thesis by auto
    next
      case (TInferring r)
      with assms ev C(1) [of undefined undefined] show ?thesis by auto
    next
      case (TRetry r)
      with assms ev C(2) [of _ undefined] show ?thesis by fastforce
    next
      case (TReinferring r)
      with assms ev C(2) [of _ undefined] show ?thesis by fastforce
    next
      case (TBroadcast r out)
      with assms ev C(1) [of out undefined] C(3) [of _ out undefined] show ?thesis by fastforce
    next
      case (TSending r out)
      with assms ev C(1) [of out undefined] C(3) [of _ out undefined] show ?thesis by fastforce
    next
      case TDone
      with assms ev show ?thesis by (intro exI [of _ "[]"]) simp
    qed (use assms ev True in auto)
  next
    case False
    then show ?thesis using assms ev C(4) by (cases t) (auto intro: exI [of _ "[]"])
  qed
  then show ?thesis by (auto simp: ev prefix_def)
qed

definition client_ok :: "string \<Rightarrow> client_state \<Rightarrow> bool" where
  "client_ok addr s \<longleftrightarrow>
    length (cs_events s) = length (cs_tasks s) \<and> (\<forall>p \<in> set (cs_trace s). fst p < length (cs_tasks s)) \<and>
    (\<forall>i < length (cs_tasks s). task_ok addr (cs_events s ! i) (cs_tasks s ! i) (acts_of i (cs_trace s)))"

lemma client_step_ok: "client_step addr s s' \<Longrightarrow> client_ok addr s \<Longrightarrow> client_ok addr s'"
proof (induction rule: client_step.induct)
  case (receive s ev)
  then show ?case
    by (auto simp: client_ok_def nth_append acts_of_fresh task_ok_start less_Suc_eq)
next
  case (run s i a t)
  then show ?case
    using task_ok_step [OF _ run.hyps(3)] by (auto simp: client_ok_def nth_list_update)
qed (simp_all add: client_ok_def)

lemma client_steps_ok: "(client_step addr)\<^sup>*\<^sup>* s s' \<Longrightarrow> client_ok addr s \<Longrightarrow> client_ok addr s'"
  by (induction rule: rtranclp_induct) (auto intro: client_step_ok)

section \<open>Properties\<close>

text \<open>The validator client serves only its own jobs. A job event for another server is recorded and
  nothing else happens. For its own it asks the backend at most twice, with the parameters of the
  request, and broadcasts a commitment (with the job id, at index 0) exactly once, exactly when an
  attempt succeeded, and for the output of that attempt; the handler reports success exactly when that
  broadcast succeeded.\<close>

theorem validator_serves:
  "case handleEvent (traced C) addr (w, []) req srv of
     (err, w', t) \<Rightarrow>
       if srv = addr then served req 2 err t
       else err = None \<and> t = [CRecord (jr_JobID req) (jr_PromptHash req) srv]"
  using handleJob_served [of req C w] by (simp add: handleEvent_def traced_def)

text \<open>C40: The client keeps its goroutines apart. However job events, goroutines, returning calls, the signal and the end of
  the process interleave, and whichever calls never return, what the goroutine of each event has done is at every
  moment the beginning of a complete trace for that event, and all of one when the goroutine has ended. A complete trace for a
  job of another server is one record of it; for one of the client's own it is an inference with a deadline of three seconds
  and, if it failed, one more with half a second, and after a success, and only then, one broadcast of exactly the
  inferred output.\<close>

theorem client_interleaving:
  assumes "(client_step addr)\<^sup>*\<^sup>* client_start s" and "i < length (cs_events s)"
  shows "(\<exists>full. complete addr (cs_events s ! i) full \<and> prefix (acts_of i (cs_trace s)) full) \<and>
    (cs_tasks s ! i = TDone \<longrightarrow> complete addr (cs_events s ! i) (acts_of i (cs_trace s)))"
proof -
  have "client_ok addr client_start" by (simp add: client_ok_def client_start_def)
  then have "client_ok addr s" using client_steps_ok [OF assms(1)] by blast
  then have t: "task_ok addr (cs_events s ! i) (cs_tasks s ! i) (acts_of i (cs_trace s))"
    using assms(2) by (simp add: client_ok_def)
  then have "cs_tasks s ! i = TDone \<longrightarrow> complete addr (cs_events s ! i) (acts_of i (cs_trace s))" by auto
  with task_ok_prefix [OF t] show ?thesis by blast
qed

text \<open>A run in which the first inference fails, the second one never returns, another job is received in between, and the
  process is stopped.\<close>

theorem client_interleaving_witness:
  "\<exists>s. (client_step ''me'')\<^sup>*\<^sup>* client_start s \<and> cs_exited s \<and> length (cs_events s) = 2 \<and> length (acts_of 0 (cs_trace s)) = 3 \<and>
     (\<exists>full. complete ''me'' (cs_events s ! 0) full \<and> prefix (acts_of 0 (cs_trace s)) full)"
proof -
  let ?R = "client_step ''me''" and ?r = zero_JobRequest
  let ?a1 = "infer_act ?r 3000000000" and ?a2 = "AInferred (Inl ErrDB)" and ?a3 = "infer_act ?r 500000000"
  let ?s = "\<lambda>evs ts x y tr. \<lparr>cs_events = evs, cs_tasks = ts, cs_cancelled = x, cs_exited = y, cs_trace = tr\<rparr>"
  let ?e = "[(?r, ''me'')]" and ?e2 = "[(?r, ''me''), (?r, ''you'')]"
  let ?s1 = "?s ?e [TServe ?r] False False []"
  let ?s2 = "?s ?e [TInferring ?r] False False [(0, ?a1)]"
  let ?s3 = "?s ?e [TRetry ?r] False False [(0, ?a1), (0, ?a2)]"
  let ?s4 = "?s ?e2 [TRetry ?r, TObserve ?r ''you''] False False [(0, ?a1), (0, ?a2)]"
  let ?s5 = "?s ?e2 [TReinferring ?r, TObserve ?r ''you''] False False [(0, ?a1), (0, ?a2), (0, ?a3)]"
  let ?s6 = "?s ?e2 [TReinferring ?r, TObserve ?r ''you''] True False [(0, ?a1), (0, ?a2), (0, ?a3)]"
  let ?s7 = "?s ?e2 [TReinferring ?r, TObserve ?r ''you''] True True [(0, ?a1), (0, ?a2), (0, ?a3)]"
  have 1: "?R client_start ?s1"
    using client_step.receive [of client_start "''me''" "(?r, ''me'')"] by (simp add: client_start_def start_task_def)
  have 2: "?R ?s1 ?s2" using client_step.run [of ?s1 0 ?a1 "TInferring ?r" "''me''"] by simp
  have 3: "?R ?s2 ?s3" using client_step.run [of ?s2 0 ?a2 "TRetry ?r" "''me''"] by simp
  have 4: "?R ?s3 ?s4" using client_step.receive [of ?s3 "''me''" "(?r, ''you'')"] by (simp add: start_task_def)
  have 5: "?R ?s4 ?s5" using client_step.run [of ?s4 0 ?a3 "TReinferring ?r" "''me''"] by simp
  have 6: "?R ?s5 ?s6" using client_step.signal [of ?s5 "''me''"] by simp
  have 7: "?R ?s6 ?s7" using client_step.shutdown [of ?s6 "''me''"] by simp
  have "?R\<^sup>*\<^sup>* ?s6 ?s7" by (rule r_into_rtranclp) (rule 7)
  then have "?R\<^sup>*\<^sup>* ?s5 ?s7" by (rule converse_rtranclp_into_rtranclp [of ?R, OF 6])
  then have "?R\<^sup>*\<^sup>* ?s4 ?s7" by (rule converse_rtranclp_into_rtranclp [of ?R, OF 5])
  then have "?R\<^sup>*\<^sup>* ?s3 ?s7" by (rule converse_rtranclp_into_rtranclp [of ?R, OF 4])
  then have "?R\<^sup>*\<^sup>* ?s2 ?s7" by (rule converse_rtranclp_into_rtranclp [of ?R, OF 3])
  then have "?R\<^sup>*\<^sup>* ?s1 ?s7" by (rule converse_rtranclp_into_rtranclp [of ?R, OF 2])
  then have run: "?R\<^sup>*\<^sup>* client_start ?s7" by (rule converse_rtranclp_into_rtranclp [of ?R, OF 1])
  have "\<exists>full. complete ''me'' (cs_events ?s7 ! 0) full \<and> prefix (acts_of 0 (cs_trace ?s7)) full"
    using client_interleaving [OF run, of 0] by simp
  then show ?thesis using run by (intro exI [of _ ?s7]) (simp add: acts_of_def)
qed

end
