(* ===== verification/Spec2Isabelle.thy ===== *)
theory Spec2Isabelle
  imports Staking Jobs Slashing Vrf Rewards Subscription Registry Genesis App Chain Checkpoint Abi Relayer Commands Epoch Typing Anchor Validator
begin

text \<open>
  \<^bold>\<open>A verification of the BIGT chain\<close>

  BIGT is a proof-of-stake chain on CometBFT for AI inference. Users hold subscriptions and submit jobs for
  registered models; the validator that is elected for a slot serves them and commits to the hash of its output;
  a wrong output can be disputed and costs the server its bond. At the end of an epoch rewards are computed and
  a relayer anchors a signed checkpoint on Ethereum. This development models the Go code of the chain
  (\<open>chain/\<close>), of its programs (\<open>cmd/\<close>) and the Solidity contract of the checkpoints
  (\<open>contracts/\<close>) as executable functions, one per function of the source, and proves what the parts
  promise, alone and together.

  \<^bold>\<open>Theories and sources.\<close>

  \<^item> \<open>Prelude\<close>: machine types, error values, Go's truncating signed division on 64-bit words, decimal and
    big-endian numbers, key construction, and the collections \<open>keys\<close>, \<open>codec\<close> and \<open>run_eval\<close>
    that the other theories fill for the simplifier.
  \<^item> \<open>Json\<close>: the rules of \<open>encoding/json\<close> and \<open>encoding/hex\<close> on syntax trees. Every struct with
    JSON tags has a field table \<open>X_fields\<close>, a zero value \<open>zero_X\<close> and, where it is printed, an encoder
    \<open>enc_X\<close>.
  \<^item> \<open>Types\<close>: chain/types/types.go (constants, payloads, \<open>Keccak256\<close>, \<open>RevealTx.Validate\<close>,
    \<open>SlotPhase\<close>).
  \<^item> \<open>Store\<close>: chain/store/store.go. The database is a parameter; locale \<open>leveldb\<close> states what the code
    relies on (reads after writes, prefix iteration in key order, no errors), \<open>list_db\<close> is its reference instance.
    Locale \<open>table\<close> gives the shared theory of one kind of document under one key prefix; every module
    obtains its tables from it by a sublocale.
  \<^item> \<open>Staking\<close>, \<open>Jobs\<close>, \<open>Slashing\<close>, \<open>Vrf\<close>, \<open>Rewards\<close>, \<open>Subscription\<close>:
    the packages of the same names under chain/modules/. \<open>Registry\<close>: chain/registry/registry.go. A module has no
    state but its part of the store; an operation takes the database, the store and the Go arguments and returns the error (or
    result) with the new store.
  \<^item> \<open>GoSort\<close>: the contract of \<open>sort.Slice\<close> as locale \<open>go_sort\<close>, with insertion sort as
    instance; used by \<open>Vrf\<close> and \<open>Abi\<close>.
  \<^item> \<open>Genesis\<close>: chain/genesis/genesis.go, with files as a parameter (\<open>os_ok\<close>).
  \<^item> \<open>App\<close>: chain/app/app.go. Record \<open>App\<close> is the Go struct; every transaction handler, \<open>deliverTx\<close>,
    the stages of \<open>FinalizeBlock\<close>, \<open>endEpoch\<close>, \<open>InitChain\<close> and \<open>Query\<close>.
  \<^item> \<open>Chain\<close>: the modules joined. Every call of the application is a sequence of steps (\<open>chain_step\<close>), each a
    write of one module; locale \<open>chain_node\<close> collects what a node relies on, and \<open>reachable\<close> the states after
    \<open>InitChain\<close> and any blocks.
  \<^item> \<open>Checkpoint\<close>: chain/modules/checkpoint/checkpoint.go, with secp256k1 as a parameter (\<open>secp_ok\<close>).
  \<^item> \<open>Abi\<close> and \<open>Relayer\<close>: cmd/relayer (calldata encoder with a decoder to check it; key and block
    parsing, \<open>poll\<close>, \<open>Run\<close>, the JSON-RPC submitter, the checks of \<open>main\<close>).
  \<^item> \<open>Epoch\<close> and \<open>Typing\<close>: two views of the whole node, the inactivity drain of \<open>endEpoch\<close>, and
    the type of every document in the shared store by its key.
  \<^item> \<open>Anchor\<close>: contracts/src/CheckpointAnchor.sol (storage as a record, one function per call, reverts as
    values), what the relayer hands to the contract and which of the transactions it posts the contract takes.
  \<^item> \<open>Commands\<close>: cmd/bigt/main.go.
  \<^item> \<open>Validator\<close>: cmd/validator/main.go; the event loop, its goroutines and the shutdown are
    the step relation \<open>client_step\<close>, in which a call and its return are two steps and the second may not come.

  \<^bold>\<open>How Go is represented.\<close> Strings and byte slices are \<open>string\<close>; \<open>int64\<close> and \<open>uint64\<close> are
  64-bit words with wrap-around and signed comparisons; errors are values of \<open>error\<close>, with a format and its arguments in place of
  the formatted text; a run-time panic is the error \<open>GoPanic\<close>. A Go map whose order matters is ranged
  over in an order that is a parameter of the node. Structs are records whose fields carry a short prefix.

  \<^bold>\<open>What is shown.\<close>

  \<^item> The whole node (C1 to C6): the invariant of all modules holds in every reachable state; every block runs to
    its end; a failed transaction, wherever it stands in a block, changes nothing (but quota in one case); two nodes
    agree on every block; every document in the store has the type of its key, so no read fails to decode; the inactivity
    drain is exact.
  \<^item> Staking (C7 to C12): the network total differs from the stake of the validators plus the pending unbondings by exactly
    what the calls leak, and no validator is active below the minimum bond, along every sequence of calls; slashing,
    registration, the unbonding sweep and unjailing do exactly what they should, on every branch (so do votes and the counters of
    an epoch, in \<open>CastVote_exact\<close> and \<open>Record_exact\<close>).
  \<^item> Jobs and disputes (C13 to C20): the job state machine, the binding of a job to its request, its server and the
    revealed prompt, one commitment; the two kinds of dispute, the tally with what stops it, and its threshold.
  \<^item> Election and rewards (C21 to C23): the election agrees with a definition on the set of addresses; the rewards stay
    within the pool if the commissions are at most 100 percent.
  \<^item> Subscriptions and models (C24 to C26): the subscription module implements an abstract market, quotas and
    balances are kept; a model is active only with a quorum of votes.
  \<^item> Starting a node (C27, C28): genesis files are read back; the file of \<open>-init\<close> passes the check of the node but gives
    the application no state, a CometBFT genesis file around it does.
  \<^item> The relayer (C29 to C35): signatures identify signer and content; the calldata decodes to what was signed, though
    not with the offsets of the contract ABI; a poll, on every branch, submits exactly the checkpoint of a new epoch in one transaction; anchored epochs strictly
    increase.
  \<^item> The contract (C36 to C39): anchored checkpoints are final and come in order; a submission is accepted exactly with a quorum
    of signatures over the digest of the Go code; what the relayer signs is what the contract accepts; after a missed
    epoch the contract refuses every transaction of the relayer.
  \<^item> The validator client (C40): in every interleaving, with calls that may hang, it serves only its own jobs, with the
    deadlines of the code, and broadcasts only what was inferred.

  Several theorems show where the code does not do what it means to: the cap on a bond
  (\<open>RegisterValidator_cap_overflow\<close>), two undelegations in one slot
  (\<open>double_undelegation_loses_stake\<close>), a dispute against an honest server
  (\<open>honest_server_slashed\<close>), a second observer dispute
  (\<open>reopened_dispute_loses_votes\<close>), the drain of a validator that is new (C6), a commission above 100 percent (\<open>commission_unchecked\<close>), renewing early
  (\<open>early_renewal_locks_out\<close>), deprecating a proposal (\<open>deprecated_proposal_is_valid\<close>), a duplicate
  job request (\<open>duplicate_request_burns_quota\<close>), a dispute that blocks the tally (\<open>tally_blocked\<close>), the
  calldata offsets (C31), the genesis file of \<open>-init\<close> (C28), an answer without a result that counts as anchored
  (\<open>tx_answer_empty\<close>), the gap that epoch 0 leaves (\<open>epoch_zero_gap\<close>), and a missed epoch (C39).

  \<^bold>\<open>Hypotheses on other code.\<close> \<open>leveldb\<close> (goleveldb without I/O errors), \<open>hash32\<close> (Keccak-256 has 32 bytes),
  \<open>go_sort\<close>, \<open>secp_ok\<close> (a signature has 65 bytes and recovers to its key), \<open>ecrecover_ok\<close> (the
  precompiled contract agrees with secp256k1), \<open>os_ok\<close> (a
  file that was written is read back). Each has an instance here, and the witnesses use it. What is known of
  CometBFT is that the application gets the \<open>app_state\<close> of its genesis document (\<open>cmt_app_state\<close>). Collision freedom
  of the hash is not assumed in general: C4 and C22 assume that no two active validators have the same hash in the
  one election they speak of (\<open>no_collision\<close>), and elsewhere, where it matters, the statement speaks of the hashed bytes.

  \<^bold>\<open>Loops and bounds.\<close> All loops are total recursive functions; there is no fuel except in \<open>Run\<close>, whose
  argument is the number of ticks before the context is cancelled and about which every statement holds for all
  numbers. Bounds on amounts (no overflow of a sum or product) are hypotheses where the code would wrap.

  \<^bold>\<open>Not modelled.\<close> The text form of JSON and of error messages; console and log output; flag parsing
  and signals; \<open>store.Close\<close>; errors of the database; the reuse of slice elements
  when a JSON key is repeated; the replacement of invalid UTF-8 in JSON strings, the range check and the printing of floating-point numbers,
  and the difference between a nil and an empty slice (no statement depends on them); the restart of a node (\<open>app_New\<close> takes an
  opened store); the packages \<open>validator/*\<close>, which the repository lacks (parameters here); gas;
  tests and deployment files.
\<close>

end
